theory Spec2Isabelle
  imports Main
begin

section \<open>Exceptions, effects and the call log\<close>

text \<open>
  The module \<^verbatim>\<open>drf_middleware.py\<close> is embedded with explicit state passing.
  A Python call that may raise and may mutate objects becomes a function from the
  state to an outcome and the state afterwards: \<open>Inl e\<close> is the exception \<open>e\<close>
  propagating out of the call, \<open>Inr v\<close> is the returned value. The state after a raise
  is kept, since the effects made before the raise are not undone.

  \<open>'w\<close> is everything the hooks and the host framework can mutate (the contents of the
  request and response objects, logs, attributes of middleware instances), \<open>'req\<close>
  and \<open>'resp\<close> are the request and response objects as references, and \<open>'e\<close> are
  the exceptions user code raises. User and framework code acts on \<open>'w\<close> only: it
  does not assign the name-mangled attribute \<^verbatim>\<open>self.__middlewares\<close> of the view nor
  the module-level \<^verbatim>\<open>MIDDLEWARE_CLASSES\<close>.
\<close>

datatype 'e exc =
    ImportError string
  | AttributeError string
  | TypeError string
  | Raised 'e

type_synonym ('e, 'a, 'w) action = "'w \<Rightarrow> ('e exc + 'a) \<times> 'w"

text \<open>
  Claims of the form ``hook h is (not) invoked'' are stated over a log of calls that the
  model keeps beside the world: each call that leaves the module appends one event when
  it is made. User code cannot touch the log.
\<close>

datatype ('req, 'resp) event =
    Import string
  | Instantiate string nat
  | SuperInitial 'req
  | ProcessRequest nat 'req
  | Handler 'req
  | SuperFinalize 'req 'resp
  | ProcessResponse nat 'req 'resp

section \<open>Middleware classes and the abstract base \<^verbatim>\<open>DRFMiddleware\<close>\<close>

text \<open>
  A method as a class body defines it: \<open>Abstract\<close> when the definition is decorated
  with \<^verbatim>\<open>@abstractmethod\<close>, \<open>Concrete\<close> otherwise. The first argument of a method
  is \<^verbatim>\<open>self\<close>, the identity of the instance.
\<close>

datatype 'f py_method = Concrete 'f | Abstract 'f

fun method_body :: "'f py_method \<Rightarrow> 'f" where
  "method_body (Concrete f) = f"
| "method_body (Abstract f) = f"

fun isabstractmethod :: "'f py_method \<Rightarrow> bool" where
  "isabstractmethod (Concrete f) = False"
| "isabstractmethod (Abstract f) = True"

text \<open>What one \<^verbatim>\<open>class\<close> statement defines of the two methods (\<open>None\<close>: nothing).\<close>

record ('req, 'resp, 'e, 'w) class_body =
  process_request_def :: "(nat \<Rightarrow> 'req \<Rightarrow> ('e, 'req, 'w) action) py_method option"
  process_response_def :: "(nat \<Rightarrow> 'req \<Rightarrow> 'resp \<Rightarrow> ('e, 'resp, 'w) action) py_method option"

text \<open>
  A class that \<^verbatim>\<open>import_string\<close> can return: its name, whether it derives (directly
  or through ancestors) from \<^verbatim>\<open>DRFMiddleware\<close>, the constructor it resolves to, and
  \<open>mro\<close>: the body of the class itself followed by the bodies of its ancestors, in
  the order of method resolution (single inheritance), up to and without \<^verbatim>\<open>DRFMiddleware\<close>
  and \<^verbatim>\<open>object\<close>. So \<^verbatim>\<open>class Child(LogPre): pass\<close> has the empty body followed by the
  body of \<^verbatim>\<open>LogPre\<close>.
\<close>

record ('req, 'resp, 'e, 'w) middleware_class =
  qualname :: string
  inherits_DRFMiddleware :: bool
  init_def :: "nat \<Rightarrow> ('e, unit, 'w) action"
  mro :: "('req, 'resp, 'e, 'w) class_body list"

record ('req, 'resp, 'e, 'w) middleware =
  inst_id :: nat
  inst_class :: "('req, 'resp, 'e, 'w) middleware_class"

text \<open>The bodies of the two abstract methods of \<^verbatim>\<open>DRFMiddleware\<close>.\<close>

definition DRFMiddleware_process_request :: "nat \<Rightarrow> 'req \<Rightarrow> ('e, 'req, 'w) action" where
  "DRFMiddleware_process_request self request w = (Inr request, w)"

definition DRFMiddleware_process_response ::
  "nat \<Rightarrow> 'req \<Rightarrow> 'resp \<Rightarrow> ('e, 'resp, 'w) action" where
  "DRFMiddleware_process_response self request response w = (Inr response, w)"

text \<open>Attribute lookup along the method resolution order: the first body that defines it.\<close>

fun mro_lookup :: "('b \<Rightarrow> 'a option) \<Rightarrow> 'b list \<Rightarrow> 'a option" where
  "mro_lookup attr [] = None"
| "mro_lookup attr (b # bs) = (case attr b of Some a \<Rightarrow> Some a | None \<Rightarrow> mro_lookup attr bs)"

text \<open>
  \<^verbatim>\<open>getattr(cls, 'process_request')\<close> and \<^verbatim>\<open>getattr(cls, 'process_response')\<close>:
  the definition found in the class or its ancestors, else the abstract method of
  \<^verbatim>\<open>DRFMiddleware\<close> when the class derives from it, else nothing.
\<close>

definition getattr_process_request ::
  "('req, 'resp, 'e, 'w) middleware_class \<Rightarrow>
     (nat \<Rightarrow> 'req \<Rightarrow> ('e, 'req, 'w) action) py_method option" where
  "getattr_process_request cls =
     (case mro_lookup process_request_def (mro cls) of
        Some m \<Rightarrow> Some m
      | None \<Rightarrow>
          if inherits_DRFMiddleware cls then Some (Abstract DRFMiddleware_process_request)
          else None)"

definition getattr_process_response ::
  "('req, 'resp, 'e, 'w) middleware_class \<Rightarrow>
     (nat \<Rightarrow> 'req \<Rightarrow> 'resp \<Rightarrow> ('e, 'resp, 'w) action) py_method option" where
  "getattr_process_response cls =
     (case mro_lookup process_response_def (mro cls) of
        Some m \<Rightarrow> Some m
      | None \<Rightarrow>
          if inherits_DRFMiddleware cls then Some (Abstract DRFMiddleware_process_response)
          else None)"

text \<open>
  \<^verbatim>\<open>DRFMiddleware(ABC)\<close> marks both methods \<^verbatim>\<open>@abstractmethod\<close>, and a class
  deriving from it has the metaclass \<^verbatim>\<open>ABCMeta\<close>, which computes
  \<^verbatim>\<open>__abstractmethods__\<close>: of the two names, those whose attribute, looked up on
  the class, is an abstract method. A concrete definition anywhere before
  \<^verbatim>\<open>DRFMiddleware\<close> in the resolution order removes the name; a class outside the
  hierarchy has no \<^verbatim>\<open>__abstractmethods__\<close>.
\<close>

definition abstractmethods :: "('req, 'resp, 'e, 'w) middleware_class \<Rightarrow> string list" where
  "abstractmethods cls =
     (if inherits_DRFMiddleware cls then
        (case getattr_process_request cls of
           Some m \<Rightarrow> if isabstractmethod m then [''process_request''] else []
         | None \<Rightarrow> []) @
        (case getattr_process_response cls of
           Some m \<Rightarrow> if isabstractmethod m then [''process_response''] else []
         | None \<Rightarrow> [])
      else [])"

text \<open>
  Attribute lookup of the two methods on an instance of the class: the function to call,
  \<open>None\<close> when the lookup raises \<^verbatim>\<open>AttributeError\<close>.
\<close>

definition lookup_process_request ::
  "('req, 'resp, 'e, 'w) middleware_class \<Rightarrow> (nat \<Rightarrow> 'req \<Rightarrow> ('e, 'req, 'w) action) option" where
  "lookup_process_request cls = map_option method_body (getattr_process_request cls)"

definition lookup_process_response ::
  "('req, 'resp, 'e, 'w) middleware_class \<Rightarrow>
     (nat \<Rightarrow> 'req \<Rightarrow> 'resp \<Rightarrow> ('e, 'resp, 'w) action) option" where
  "lookup_process_response cls = map_option method_body (getattr_process_response cls)"

section \<open>State and environment\<close>

text \<open>
  \<open>MIDDLEWARE_CLASSES\<close> is the module-level \<^verbatim>\<open>SimpleLazyObject\<close>: \<open>None\<close> while it
  is not set up, \<open>Some classes\<close> once \<^verbatim>\<open>load_middleware_classes\<close> has returned.
  \<open>middlewares\<close> is the attribute \<^verbatim>\<open>self.__middlewares\<close> of the view instance,
  \<open>next_id\<close> the identity the next new object gets.
\<close>

record ('req, 'resp, 'e, 'w) state =
  world :: 'w
  MIDDLEWARE_CLASSES :: "('req, 'resp, 'e, 'w) middleware_class list option"
  middlewares :: "('req, 'resp, 'e, 'w) middleware list option"
  next_id :: nat
  trace :: "('req, 'resp) event list"

text \<open>
  What the module takes from outside: the setting \<^verbatim>\<open>DRF_MIDDLEWARE_CLASSES\<close>
  (\<open>None\<close> when the settings do not define it), the classes \<^verbatim>\<open>import_string\<close>
  finds (a fixed table of dotted paths, \<open>None\<close> for a path that cannot be imported,
  where \<^verbatim>\<open>import_string\<close> raises \<^verbatim>\<open>ImportError\<close>), the two methods of
  \<^verbatim>\<open>APIView\<close> reached through \<^verbatim>\<open>super()\<close>, and, for the host framework's
  \<^verbatim>\<open>dispatch\<close>, the view's handler and \<^verbatim>\<open>handle_exception\<close>.
\<close>

record ('req, 'resp, 'e, 'w) env =
  DRF_MIDDLEWARE_CLASSES :: "string list option"
  import_string :: "string \<Rightarrow> ('req, 'resp, 'e, 'w) middleware_class option"
  super_initial :: "'req \<Rightarrow> ('e, unit, 'w) action"
  super_finalize_response :: "'req \<Rightarrow> 'resp \<Rightarrow> ('e, 'resp, 'w) action"
  handler :: "'req \<Rightarrow> ('e, 'resp, 'w) action"
  handle_exception :: "'e exc \<Rightarrow> ('e, 'resp, 'w) action"

definition emit ::
  "('req, 'resp) event \<Rightarrow> ('req, 'resp, 'e, 'w) state \<Rightarrow> ('req, 'resp, 'e, 'w) state" where
  "emit ev s = s\<lparr>trace := trace s @ [ev]\<rparr>"

text \<open>Running user or framework code on the world of a state.\<close>

definition call ::
  "('e, 'a, 'w) action \<Rightarrow> ('req, 'resp, 'e, 'w) state \<Rightarrow>
     ('e exc + 'a) \<times> ('req, 'resp, 'e, 'w) state" where
  "call f s = (case f (world s) of (r, w') \<Rightarrow> (r, s\<lparr>world := w'\<rparr>))"

section \<open>The registry: \<^verbatim>\<open>load_middleware_classes\<close> and the lazy object\<close>

text \<open>The loop of \<^verbatim>\<open>load_middleware_classes\<close>, with \<open>classes\<close> as accumulator.\<close>

fun import_loop ::
  "(string \<Rightarrow> ('req, 'resp, 'e, 'w) middleware_class option) \<Rightarrow> string list \<Rightarrow>
     ('req, 'resp, 'e, 'w) middleware_class list \<Rightarrow> ('req, 'resp, 'e, 'w) state \<Rightarrow>
     ('e exc + ('req, 'resp, 'e, 'w) middleware_class list) \<times> ('req, 'resp, 'e, 'w) state" where
  "import_loop imp [] classes s = (Inr classes, s)"
| "import_loop imp (class_name # rest) classes s =
     (case imp class_name of
        None \<Rightarrow> (Inl (ImportError class_name), emit (Import class_name) s)
      | Some c \<Rightarrow> import_loop imp rest (classes @ [c]) (emit (Import class_name) s))"

definition load_middleware_classes ::
  "('req, 'resp, 'e, 'w) env \<Rightarrow> ('req, 'resp, 'e, 'w) state \<Rightarrow>
     ('e exc + ('req, 'resp, 'e, 'w) middleware_class list) \<times> ('req, 'resp, 'e, 'w) state" where
  "load_middleware_classes env s =
     (case DRF_MIDDLEWARE_CLASSES env of
        None \<Rightarrow> (Inl (AttributeError ''DRF_MIDDLEWARE_CLASSES''), s)
      | Some class_names \<Rightarrow> import_loop (import_string env) class_names [] s)"

text \<open>
  An access to \<^verbatim>\<open>MIDDLEWARE_CLASSES\<close>: the lazy object calls its function when it
  is not set up and keeps the result; when the function raises, it stays not set up.
\<close>

definition get_MIDDLEWARE_CLASSES ::
  "('req, 'resp, 'e, 'w) env \<Rightarrow> ('req, 'resp, 'e, 'w) state \<Rightarrow>
     ('e exc + ('req, 'resp, 'e, 'w) middleware_class list) \<times> ('req, 'resp, 'e, 'w) state" where
  "get_MIDDLEWARE_CLASSES env s =
     (case MIDDLEWARE_CLASSES s of
        Some classes \<Rightarrow> (Inr classes, s)
      | None \<Rightarrow>
          (case load_middleware_classes env s of
             (Inl e, s') \<Rightarrow> (Inl e, s')
           | (Inr classes, s') \<Rightarrow> (Inr classes, s'\<lparr>MIDDLEWARE_CLASSES := Some classes\<rparr>)))"

section \<open>\<^verbatim>\<open>MiddlewareEnabledAPIView\<close>\<close>

text \<open>\<^verbatim>\<open>__init__\<close> sets \<^verbatim>\<open>self.__middlewares = None\<close>.\<close>

definition init_view :: "('req, 'resp, 'e, 'w) state \<Rightarrow> ('req, 'resp, 'e, 'w) state" where
  "init_view s = s\<lparr>middlewares := None\<rparr>"

text \<open>
  The call \<^verbatim>\<open>MiddlewareClass()\<close>: a class with abstract methods is refused with
  \<^verbatim>\<open>TypeError\<close> before any object exists; otherwise a new object is made and the
  constructor body runs on it.
\<close>

definition instantiate ::
  "('req, 'resp, 'e, 'w) middleware_class \<Rightarrow> ('req, 'resp, 'e, 'w) state \<Rightarrow>
     ('e exc + ('req, 'resp, 'e, 'w) middleware) \<times> ('req, 'resp, 'e, 'w) state" where
  "instantiate cls s =
     (case abstractmethods cls of
        _ # _ \<Rightarrow> (Inl (TypeError (qualname cls)), s)
      | [] \<Rightarrow>
          (case call (init_def cls (next_id s))
                  (emit (Instantiate (qualname cls) (next_id s)) (s\<lparr>next_id := Suc (next_id s)\<rparr>)) of
             (Inl e, s') \<Rightarrow> (Inl e, s')
           | (Inr _, s') \<Rightarrow> (Inr \<lparr>inst_id = next_id s, inst_class = cls\<rparr>, s')))"

text \<open>The list comprehension of \<^verbatim>\<open>initialize_middlewares\<close>.\<close>

fun instantiate_loop ::
  "('req, 'resp, 'e, 'w) middleware_class list \<Rightarrow> ('req, 'resp, 'e, 'w) middleware list \<Rightarrow>
     ('req, 'resp, 'e, 'w) state \<Rightarrow>
     ('e exc + ('req, 'resp, 'e, 'w) middleware list) \<times> ('req, 'resp, 'e, 'w) state" where
  "instantiate_loop [] acc s = (Inr acc, s)"
| "instantiate_loop (MiddlewareClass # rest) acc s =
     (case instantiate MiddlewareClass s of
        (Inl e, s') \<Rightarrow> (Inl e, s')
      | (Inr m, s') \<Rightarrow> instantiate_loop rest (acc @ [m]) s')"

definition initialize_middlewares ::
  "('req, 'resp, 'e, 'w) env \<Rightarrow> ('req, 'resp, 'e, 'w) state \<Rightarrow>
     ('e exc + unit) \<times> ('req, 'resp, 'e, 'w) state" where
  "initialize_middlewares env s =
     (case get_MIDDLEWARE_CLASSES env s of
        (Inl e, s1) \<Rightarrow> (Inl e, s1)
      | (Inr middleware_classes, s1) \<Rightarrow>
          (case instantiate_loop middleware_classes [] s1 of
             (Inl e, s2) \<Rightarrow> (Inl e, s2)
           | (Inr ms, s2) \<Rightarrow> (Inr (), s2\<lparr>middlewares := Some ms\<rparr>)))"

text \<open>\<^verbatim>\<open>middleware.process_request(request)\<close>: look the method up, then call it.\<close>

definition call_process_request ::
  "('req, 'resp, 'e, 'w) middleware \<Rightarrow> 'req \<Rightarrow> ('req, 'resp, 'e, 'w) state \<Rightarrow>
     ('e exc + 'req) \<times> ('req, 'resp, 'e, 'w) state" where
  "call_process_request m request s =
     (case lookup_process_request (inst_class m) of
        None \<Rightarrow> (Inl (AttributeError ''process_request''), s)
      | Some f \<Rightarrow> call (f (inst_id m) request) (emit (ProcessRequest (inst_id m) request) s))"

definition call_process_response ::
  "('req, 'resp, 'e, 'w) middleware \<Rightarrow> 'req \<Rightarrow> 'resp \<Rightarrow> ('req, 'resp, 'e, 'w) state \<Rightarrow>
     ('e exc + 'resp) \<times> ('req, 'resp, 'e, 'w) state" where
  "call_process_response m request response s =
     (case lookup_process_response (inst_class m) of
        None \<Rightarrow> (Inl (AttributeError ''process_response''), s)
      | Some f \<Rightarrow>
          call (f (inst_id m) request response)
            (emit (ProcessResponse (inst_id m) request response) s))"

text \<open>
  The \<^verbatim>\<open>for\<close> loop of \<^verbatim>\<open>middleware_process_request\<close>: the value a hook returns
  is dropped, the next hook gets the same \<open>request\<close>.
\<close>

fun process_request_loop ::
  "('req, 'resp, 'e, 'w) middleware list \<Rightarrow> 'req \<Rightarrow> ('req, 'resp, 'e, 'w) state \<Rightarrow>
     ('e exc + unit) \<times> ('req, 'resp, 'e, 'w) state" where
  "process_request_loop [] request s = (Inr (), s)"
| "process_request_loop (middleware # rest) request s =
     (case call_process_request middleware request s of
        (Inl e, s') \<Rightarrow> (Inl e, s')
      | (Inr _, s') \<Rightarrow> process_request_loop rest request s')"

text \<open>
  The \<^verbatim>\<open>for\<close> loop of \<^verbatim>\<open>middleware_process_response\<close>: \<open>response\<close> is rebound
  to what each hook returns.
\<close>

fun process_response_loop ::
  "('req, 'resp, 'e, 'w) middleware list \<Rightarrow> 'req \<Rightarrow> 'resp \<Rightarrow> ('req, 'resp, 'e, 'w) state \<Rightarrow>
     ('e exc + 'resp) \<times> ('req, 'resp, 'e, 'w) state" where
  "process_response_loop [] request response s = (Inr response, s)"
| "process_response_loop (middleware # rest) request response s =
     (case call_process_response middleware request response s of
        (Inl e, s') \<Rightarrow> (Inl e, s')
      | (Inr response', s') \<Rightarrow> process_response_loop rest request response' s')"

text \<open>Truth value of \<^verbatim>\<open>self.__middlewares\<close>: \<^verbatim>\<open>None\<close> and the empty list are false.\<close>

fun truthy :: "'a list option \<Rightarrow> bool" where
  "truthy None = False"
| "truthy (Some []) = False"
| "truthy (Some (_ # _)) = True"

text \<open>The slice \<^verbatim>\<open>xs[-1:]\<close>.\<close>

definition slice_last :: "'a list \<Rightarrow> 'a list" where
  "slice_last xs = drop (length xs - 1) xs"

definition middleware_process_request ::
  "'req \<Rightarrow> ('req, 'resp, 'e, 'w) state \<Rightarrow> ('e exc + unit) \<times> ('req, 'resp, 'e, 'w) state" where
  "middleware_process_request request s =
     (if truthy (middlewares s) then
        (case middlewares s of
           Some ms \<Rightarrow> process_request_loop ms request s
         | None \<Rightarrow> (Inr (), s))
      else (Inr (), s))"

definition middleware_process_response ::
  "'req \<Rightarrow> 'resp \<Rightarrow> ('req, 'resp, 'e, 'w) state \<Rightarrow>
     ('e exc + 'resp) \<times> ('req, 'resp, 'e, 'w) state" where
  "middleware_process_response request response s =
     (if truthy (middlewares s) then
        (case middlewares s of
           Some ms \<Rightarrow> process_response_loop (slice_last ms) request response s
         | None \<Rightarrow> (Inr response, s))
      else (Inr response, s))"

definition initial ::
  "('req, 'resp, 'e, 'w) env \<Rightarrow> 'req \<Rightarrow> ('req, 'resp, 'e, 'w) state \<Rightarrow>
     ('e exc + unit) \<times> ('req, 'resp, 'e, 'w) state" where
  "initial env request s =
     (case initialize_middlewares env s of
        (Inl e, s1) \<Rightarrow> (Inl e, s1)
      | (Inr _, s1) \<Rightarrow>
          (case call (super_initial env request) (emit (SuperInitial request) s1) of
             (Inl e, s2) \<Rightarrow> (Inl e, s2)
           | (Inr _, s2) \<Rightarrow> middleware_process_request request s2))"

definition finalize_response ::
  "('req, 'resp, 'e, 'w) env \<Rightarrow> 'req \<Rightarrow> 'resp \<Rightarrow> ('req, 'resp, 'e, 'w) state \<Rightarrow>
     ('e exc + 'resp) \<times> ('req, 'resp, 'e, 'w) state" where
  "finalize_response env request response s =
     (case call (super_finalize_response env request response)
             (emit (SuperFinalize request response) s) of
        (Inl e, s1) \<Rightarrow> (Inl e, s1)
      | (Inr response', s1) \<Rightarrow> middleware_process_response request response' s1)"

section \<open>The host framework's \<^verbatim>\<open>dispatch\<close>\<close>

text \<open>
  \<^verbatim>\<open>initial\<close> and \<^verbatim>\<open>finalize_response\<close> are called by \<^verbatim>\<open>APIView.dispatch\<close> of
  the host framework (\<^verbatim>\<open>rest_framework.views\<close>, outside this module), which the view
  inherits:
  \<^verbatim>\<open>
      try:
          self.initial(request, *args, **kwargs)
          ...
          response = handler(request, *args, **kwargs)
      except Exception as exc:
          response = self.handle_exception(exc)
      self.response = self.finalize_response(request, response, *args, **kwargs)
      return self.response
  \<close>
  It is the calling context of the two overrides, and is what ``the handler is (not)
  invoked'' and ``a sequence of dispatched requests'' refer to.
\<close>

definition dispatch ::
  "('req, 'resp, 'e, 'w) env \<Rightarrow> 'req \<Rightarrow> ('req, 'resp, 'e, 'w) state \<Rightarrow>
     ('e exc + 'resp) \<times> ('req, 'resp, 'e, 'w) state" where
  "dispatch env request s =
     (case (case initial env request s of
              (Inl exc, s1) \<Rightarrow> call (handle_exception env exc) s1
            | (Inr _, s1) \<Rightarrow>
                (case call (handler env request) (emit (Handler request) s1) of
                   (Inl exc, s2) \<Rightarrow> call (handle_exception env exc) s2
                 | (Inr response, s2) \<Rightarrow> (Inr response, s2))) of
        (Inl exc, s3) \<Rightarrow> (Inl exc, s3)
      | (Inr response, s3) \<Rightarrow> finalize_response env request response s3)"

text \<open>One view instance dispatching a sequence of requests, whatever each one's outcome.\<close>

fun dispatch_all ::
  "('req, 'resp, 'e, 'w) env \<Rightarrow> 'req list \<Rightarrow> ('req, 'resp, 'e, 'w) state \<Rightarrow>
     ('req, 'resp, 'e, 'w) state" where
  "dispatch_all env [] s = s"
| "dispatch_all env (request # rest) s = dispatch_all env rest (snd (dispatch env request s))"

section \<open>Reading the call log\<close>

text \<open>The events logged between a state and a later one.\<close>

definition new_events ::
  "('req, 'resp, 'e, 'w) state \<Rightarrow> ('req, 'resp, 'e, 'w) state \<Rightarrow> ('req, 'resp) event list" where
  "new_events s s' = drop (length (trace s)) (trace s')"

fun is_Import :: "('req, 'resp) event \<Rightarrow> bool" where
  "is_Import (Import _) = True"
| "is_Import _ = False"

fun is_Instantiate_of :: "string \<Rightarrow> ('req, 'resp) event \<Rightarrow> bool" where
  "is_Instantiate_of c (Instantiate n _) = (n = c)"
| "is_Instantiate_of c _ = False"

fun is_registry_event :: "('req, 'resp) event \<Rightarrow> bool" where
  "is_registry_event (Import _) = True"
| "is_registry_event (Instantiate _ _) = True"
| "is_registry_event _ = False"

fun is_Handler :: "('req, 'resp) event \<Rightarrow> bool" where
  "is_Handler (Handler _) = True"
| "is_Handler _ = False"

text \<open>An event that carries a request carries this one.\<close>

fun carries :: "'req \<Rightarrow> ('req, 'resp) event \<Rightarrow> bool" where
  "carries request (SuperInitial r) = (r = request)"
| "carries request (ProcessRequest _ r) = (r = request)"
| "carries request (Handler r) = (r = request)"
| "carries request (SuperFinalize r _) = (r = request)"
| "carries request (ProcessResponse _ r _) = (r = request)"
| "carries request _ = True"

definition instantiations :: "string \<Rightarrow> ('req, 'resp) event list \<Rightarrow> nat" where
  "instantiations c evs = length (filter (is_Instantiate_of c) evs)"

definition Instantiate_event :: "('req, 'resp, 'e, 'w) middleware \<Rightarrow> ('req, 'resp) event" where
  "Instantiate_event m = Instantiate (qualname (inst_class m)) (inst_id m)"

text \<open>
  The lazy object is either not set up, or holds the classes that the configured
  identifiers import to, in the order of the identifiers.
\<close>

definition registry_ok ::
  "('req, 'resp, 'e, 'w) env \<Rightarrow> ('req, 'resp, 'e, 'w) state \<Rightarrow> bool" where
  "registry_ok env s =
     (case MIDDLEWARE_CLASSES s of
        None \<Rightarrow> True
      | Some classes \<Rightarrow>
          map_option (map (import_string env)) (DRF_MIDDLEWARE_CLASSES env) =
            Some (map Some classes))"

text \<open>A hook call is on an instance whose identity is in \<open>ids\<close>.\<close>

fun hook_on :: "nat list \<Rightarrow> ('req, 'resp) event \<Rightarrow> bool" where
  "hook_on ids (ProcessRequest i _) = (i \<in> set ids)"
| "hook_on ids (ProcessResponse i _ _) = (i \<in> set ids)"
| "hook_on ids _ = True"

text \<open>
  The pre-hook phase in the words of the specification, on the world alone:
  \<^verbatim>\<open>process_request\<close> of each instance is called with the request, in the order of
  the list, each on the world the call before it left; the first call that raises ends
  the phase. The result is the outcome, the world afterwards and the calls made.
\<close>

fun pre_hooks_in_order ::
  "('req, 'resp, 'e, 'w) middleware list \<Rightarrow> 'req \<Rightarrow> 'w \<Rightarrow>
     ('e exc + unit) \<times> 'w \<times> ('req, 'resp) event list" where
  "pre_hooks_in_order [] request w = (Inr (), w, [])"
| "pre_hooks_in_order (m # ms) request w =
     (case lookup_process_request (inst_class m) of
        None \<Rightarrow> (Inl (AttributeError ''process_request''), w, [])
      | Some f \<Rightarrow>
          (case f (inst_id m) request w of
             (Inl e, w') \<Rightarrow> (Inl e, w', [ProcessRequest (inst_id m) request])
           | (Inr _, w') \<Rightarrow>
               (case pre_hooks_in_order ms request w' of
                  (r, w'', calls) \<Rightarrow> (r, w'', ProcessRequest (inst_id m) request # calls))))"

text \<open>
  Neither the class nor an ancestor before \<^verbatim>\<open>DRFMiddleware\<close> gives a concrete
  definition of the method: an implementation of it is omitted.
\<close>

definition omits ::
  "(('req, 'resp, 'e, 'w) class_body \<Rightarrow> 'f py_method option) \<Rightarrow>
     ('req, 'resp, 'e, 'w) middleware_class \<Rightarrow> bool" where
  "omits attr cls =
     list_all (\<lambda>b. case attr b of None \<Rightarrow> True | Some m \<Rightarrow> isabstractmethod m) (mro cls)"

text \<open>A class that the call \<^verbatim>\<open>MiddlewareClass()\<close> always creates an instance of.\<close>

definition instantiable :: "('req, 'resp, 'e, 'w) middleware_class \<Rightarrow> bool" where
  "instantiable cls = (abstractmethods cls = [] \<and> (\<forall>self w. fst (init_def cls self w) = Inr ()))"

text \<open>
  The same class with, wherever it or an ancestor defines \<^verbatim>\<open>process_request\<close>,
  a method that has the same effects and returns the object \<open>r\<close> instead of what it
  returned.
\<close>

definition replace_return ::
  "'req \<Rightarrow> (nat \<Rightarrow> 'req \<Rightarrow> ('e, 'req, 'w) action) \<Rightarrow> nat \<Rightarrow> 'req \<Rightarrow> ('e, 'req, 'w) action" where
  "replace_return r f self request w =
     (case f self request w of
        (Inl e, w') \<Rightarrow> (Inl e, w')
      | (Inr _, w') \<Rightarrow> (Inr r, w'))"

definition returning_body ::
  "'req \<Rightarrow> ('req, 'resp, 'e, 'w) class_body \<Rightarrow> ('req, 'resp, 'e, 'w) class_body" where
  "returning_body r b =
     b\<lparr>process_request_def :=
          map_option (map_py_method (replace_return r)) (process_request_def b)\<rparr>"

definition returning ::
  "'req \<Rightarrow> ('req, 'resp, 'e, 'w) middleware_class \<Rightarrow> ('req, 'resp, 'e, 'w) middleware_class" where
  "returning r cls = cls\<lparr>mro := map (returning_body r) (mro cls)\<rparr>"

text \<open>A class that the call \<^verbatim>\<open>MiddlewareClass()\<close> never creates an instance of.\<close>

definition uninstantiable :: "('req, 'resp, 'e, 'w) middleware_class \<Rightarrow> bool" where
  "uninstantiable cls =
     (abstractmethods cls \<noteq> [] \<or> (\<forall>self w. fst (init_def cls self w) \<noteq> Inr ()))"

text \<open>An identifier of the configuration that cannot be imported or instantiated.\<close>

definition unresolvable :: "('req, 'resp, 'e, 'w) env \<Rightarrow> string \<Rightarrow> bool" where
  "unresolvable env class_name =
     (case import_string env class_name of None \<Rightarrow> True | Some cls \<Rightarrow> uninstantiable cls)"

text \<open>\<open>returning r\<close> applied to every class an environment or a state holds.\<close>

definition returning_instance ::
  "'req \<Rightarrow> ('req, 'resp, 'e, 'w) middleware \<Rightarrow> ('req, 'resp, 'e, 'w) middleware" where
  "returning_instance r m = m\<lparr>inst_class := returning r (inst_class m)\<rparr>"

definition returning_env ::
  "'req \<Rightarrow> ('req, 'resp, 'e, 'w) env \<Rightarrow> ('req, 'resp, 'e, 'w) env" where
  "returning_env r env =
     env\<lparr>import_string := (\<lambda>path. map_option (returning r) (import_string env path))\<rparr>"

definition returning_state ::
  "'req \<Rightarrow> ('req, 'resp, 'e, 'w) state \<Rightarrow> ('req, 'resp, 'e, 'w) state" where
  "returning_state r s =
     s\<lparr>MIDDLEWARE_CLASSES := map_option (map (returning r)) (MIDDLEWARE_CLASSES s),
       middlewares := map_option (map (returning_instance r)) (middlewares s)\<rparr>"

section \<open>A configuration to run\<close>

text \<open>
  Two complete middlewares, one that logs in its pre-hook and one that adds a header in
  its post-hook; one whose pre-hook raises; one that omits \<^verbatim>\<open>process_response\<close>;
  \<^verbatim>\<open>class Child(LogPre): pass\<close>; and a class outside the hierarchy that defines
  neither method. The world is a log of strings, a response is its list of headers.
\<close>

definition LogPre :: "(nat, string list, nat, string list) middleware_class" where
  "LogPre =
     \<lparr>qualname = ''LogPre'', inherits_DRFMiddleware = True,
      init_def = (\<lambda>self w. (Inr (), w)),
      mro = [\<lparr>process_request_def =
                 Some (Concrete (\<lambda>self request w. (Inr request, w @ [''LogPre'']))),
               process_response_def =
                 Some (Concrete (\<lambda>self request response w. (Inr response, w)))\<rparr>]\<rparr>"

definition AddHeaderPost :: "(nat, string list, nat, string list) middleware_class" where
  "AddHeaderPost =
     \<lparr>qualname = ''AddHeaderPost'', inherits_DRFMiddleware = True,
      init_def = (\<lambda>self w. (Inr (), w)),
      mro = [\<lparr>process_request_def = Some (Concrete (\<lambda>self request w. (Inr request, w))),
               process_response_def =
                 Some (Concrete (\<lambda>self request response w.
                   (Inr (response @ [''X-Processed'']), w)))\<rparr>]\<rparr>"

definition Rejecting :: "(nat, string list, nat, string list) middleware_class" where
  "Rejecting =
     \<lparr>qualname = ''Rejecting'', inherits_DRFMiddleware = True,
      init_def = (\<lambda>self w. (Inr (), w)),
      mro = [\<lparr>process_request_def =
                 Some (Concrete (\<lambda>self request w. (Inl (Raised 403), w @ [''Rejecting'']))),
               process_response_def =
                 Some (Concrete (\<lambda>self request response w. (Inr response, w)))\<rparr>]\<rparr>"

definition Incomplete :: "(nat, string list, nat, string list) middleware_class" where
  "Incomplete =
     \<lparr>qualname = ''Incomplete'', inherits_DRFMiddleware = True,
      init_def = (\<lambda>self w. (Inr (), w)),
      mro = [\<lparr>process_request_def = Some (Concrete (\<lambda>self request w. (Inr request, w))),
               process_response_def = None\<rparr>]\<rparr>"

definition Child :: "(nat, string list, nat, string list) middleware_class" where
  "Child =
     \<lparr>qualname = ''Child'', inherits_DRFMiddleware = True,
      init_def = (\<lambda>self w. (Inr (), w)),
      mro = \<lparr>process_request_def = None, process_response_def = None\<rparr> # mro LogPre\<rparr>"

definition Bare :: "(nat, string list, nat, string list) middleware_class" where
  "Bare =
     \<lparr>qualname = ''Bare'', inherits_DRFMiddleware = False,
      init_def = (\<lambda>self w. (Inr (), w)),
      mro = [\<lparr>process_request_def = None, process_response_def = None\<rparr>]\<rparr>"

definition example_import ::
  "string \<Rightarrow> (nat, string list, nat, string list) middleware_class option" where
  "example_import path =
     (if path = ''LogPre'' then Some LogPre
      else if path = ''AddHeaderPost'' then Some AddHeaderPost
      else if path = ''Rejecting'' then Some Rejecting
      else if path = ''Incomplete'' then Some Incomplete
      else if path = ''Child'' then Some Child
      else if path = ''Bare'' then Some Bare
      else None)"

definition example_env :: "string list \<Rightarrow> (nat, string list, nat, string list) env" where
  "example_env class_names =
     \<lparr>DRF_MIDDLEWARE_CLASSES = Some class_names,
      import_string = example_import,
      super_initial = (\<lambda>request w. (Inr (), w @ [''initial''])),
      super_finalize_response = (\<lambda>request response w. (Inr (response @ [''Allow'']), w)),
      handler = (\<lambda>request w. (Inr [], w @ [''handler''])),
      handle_exception = (\<lambda>exc w. (Inl exc, w))\<rparr>"

definition example_start :: "(nat, string list, nat, string list) state" where
  "example_start =
     \<lparr>world = [], MIDDLEWARE_CLASSES = None, middlewares = None, next_id = 0, trace = []\<rparr>"

definition example_ready :: "(nat, string list, nat, string list) state" where
  "example_ready =
     \<lparr>world = [], MIDDLEWARE_CLASSES = Some [LogPre, AddHeaderPost],
      middlewares = Some [\<lparr>inst_id = 0, inst_class = LogPre\<rparr>,
                          \<lparr>inst_id = 1, inst_class = AddHeaderPost\<rparr>],
      next_id = 2, trace = []\<rparr>"

text \<open>The same environment with a framework whose two steps raise.\<close>

definition denying_env :: "string list \<Rightarrow> (nat, string list, nat, string list) env" where
  "denying_env class_names =
     (example_env class_names)
       \<lparr>super_initial := (\<lambda>request w. (Inl (Raised 401), w @ [''denied''])),
        super_finalize_response := (\<lambda>request response w. (Inl (Raised 500), w @ [''broken'']))\<rparr>"

section \<open>Frames and log extensions\<close>

text \<open>
  \<open>same_registry\<close>: the step leaves the lazy object, the instance list of the view and
  the object counter as they were. \<open>appends P\<close>: the step only adds events that
  satisfy \<open>P\<close> to the log.
\<close>

definition same_registry ::
  "('req, 'resp, 'e, 'w) state \<Rightarrow> ('req, 'resp, 'e, 'w) state \<Rightarrow> bool" where
  "same_registry s s' \<longleftrightarrow>
     MIDDLEWARE_CLASSES s' = MIDDLEWARE_CLASSES s \<and> middlewares s' = middlewares s \<and>
     next_id s' = next_id s"

definition appends ::
  "(('req, 'resp) event \<Rightarrow> bool) \<Rightarrow> ('req, 'resp, 'e, 'w) state \<Rightarrow>
     ('req, 'resp, 'e, 'w) state \<Rightarrow> bool" where
  "appends P s s' \<longleftrightarrow> (\<exists>evs. trace s' = trace s @ evs \<and> list_all P evs)"

section \<open>Properties of the steps\<close>

subsection \<open>Bookkeeping\<close>

lemma emit_fields [simp]:
  "trace (emit ev s) = trace s @ [ev]"
  "world (emit ev s) = world s"
  "MIDDLEWARE_CLASSES (emit ev s) = MIDDLEWARE_CLASSES s"
  "middlewares (emit ev s) = middlewares s"
  "next_id (emit ev s) = next_id s"
  by (simp_all add: emit_def)

lemma call_eq: "call f s = (fst (f (world s)), s\<lparr>world := snd (f (world s))\<rparr>)"
  by (simp add: call_def split: prod.splits)

lemma call_fields:
  assumes "call f s = (r, s')"
  shows "trace s' = trace s" and "MIDDLEWARE_CLASSES s' = MIDDLEWARE_CLASSES s"
    and "middlewares s' = middlewares s" and "next_id s' = next_id s"
    and "r = fst (f (world s))" and "world s' = snd (f (world s))"
  using assms by (auto simp: call_eq)

lemma same_registry_refl [simp]: "same_registry s s"
  by (simp add: same_registry_def)

lemma same_registry_trans:
  "same_registry s s' \<Longrightarrow> same_registry s' s'' \<Longrightarrow> same_registry s s''"
  by (simp add: same_registry_def)

lemma same_registry_emit [simp]: "same_registry s (emit ev s)"
  by (simp add: same_registry_def)

lemma same_registry_call: "call f s = (r, s') \<Longrightarrow> same_registry s s'"
  by (auto simp: same_registry_def call_eq)

lemma appends_refl [simp]: "appends P s s"
  by (simp add: appends_def)

lemma appends_trans: "appends P s s' \<Longrightarrow> appends P s' s'' \<Longrightarrow> appends P s s''"
  unfolding appends_def
proof (elim exE conjE)
  fix evs evs'
  assume "trace s' = trace s @ evs" "list_all P evs" "trace s'' = trace s' @ evs'" "list_all P evs'"
  then have "trace s'' = trace s @ (evs @ evs') \<and> list_all P (evs @ evs')" by simp
  then show "\<exists>evs. trace s'' = trace s @ evs \<and> list_all P evs" by blast
qed

lemma appends_emit: "P ev \<Longrightarrow> appends P s (emit ev s)"
  by (simp add: appends_def)

lemma appends_call: "call f s = (r, s') \<Longrightarrow> appends P s s'"
  by (auto simp: appends_def call_eq)

lemma appends_emit_call: "P ev \<Longrightarrow> call f (emit ev s) = (r, s') \<Longrightarrow> appends P s s'"
  by (auto simp: appends_def call_eq)

lemma appends_trace_eq: "trace s' = trace s @ evs \<Longrightarrow> list_all P evs \<Longrightarrow> appends P s s'"
  by (auto simp: appends_def)

lemma appends_new_events:
  "appends P s s' \<Longrightarrow> trace s' = trace s @ new_events s s' \<and> list_all P (new_events s s')"
  by (auto simp: appends_def new_events_def)

lemma new_events_append: "trace s' = trace s @ evs \<Longrightarrow> new_events s s' = evs"
  by (simp add: new_events_def)

subsection \<open>The registry\<close>

lemma import_loop_all:
  "map imp names = map Some new \<Longrightarrow>
     import_loop imp names acc s = (Inr (acc @ new), s\<lparr>trace := trace s @ map Import names\<rparr>)"
proof (induction names arbitrary: acc new s)
  case Nil
  then show ?case by simp
next
  case (Cons n names)
  then obtain c new' where new: "new = c # new'" "imp n = Some c" "map imp names = map Some new'"
    by (cases new) auto
  from Cons.IH [OF new(3), of "acc @ [c]" "emit (Import n) s"] new show ?case
    by (simp add: emit_def)
qed

lemma import_loop_bad:
  "map imp good = map Some new \<Longrightarrow> imp n = None \<Longrightarrow>
     import_loop imp (good @ n # rest) acc s =
       (Inl (ImportError n), s\<lparr>trace := trace s @ map Import (good @ [n])\<rparr>)"
proof (induction good arbitrary: acc new s)
  case Nil
  then show ?case by (simp add: emit_def)
next
  case (Cons g good)
  then obtain c new' where new: "new = c # new'" "imp g = Some c" "map imp good = map Some new'"
    by (cases new) auto
  from Cons.IH [OF new(3) Cons.prems(2), of "acc @ [c]" "emit (Import g) s"] new show ?case
    by (simp add: emit_def)
qed

lemma importable_or_first_bad:
  "(\<exists>new. map imp names = map Some new) \<or>
   (\<exists>good n rest new. names = good @ n # rest \<and> imp n = None \<and> map imp good = map Some new)"
proof (induction names)
  case Nil
  then show ?case by simp
next
  case (Cons a names)
  show ?case
  proof (cases "imp a")
    case None
    then have "a # names = [] @ a # names \<and> imp a = None \<and> map imp [] = map Some []" by simp
    then show ?thesis by blast
  next
    case (Some c)
    from Cons.IH show ?thesis
    proof
      assume "\<exists>new. map imp names = map Some new"
      then obtain new where "map imp names = map Some new" ..
      with Some have "map imp (a # names) = map Some (c # new)" by simp
      then show ?thesis by blast
    next
      assume "\<exists>good n rest new. names = good @ n # rest \<and> imp n = None \<and> map imp good = map Some new"
      then obtain good n rest new where
        "names = good @ n # rest" "imp n = None" "map imp good = map Some new" by blast
      with Some have "a # names = (a # good) @ n # rest \<and> imp n = None \<and>
        map imp (a # good) = map Some (c # new)" by simp
      then show ?thesis by blast
    qed
  qed
qed

lemma get_MIDDLEWARE_CLASSES_cached:
  "MIDDLEWARE_CLASSES s = Some classes \<Longrightarrow> get_MIDDLEWARE_CLASSES env s = (Inr classes, s)"
  by (simp add: get_MIDDLEWARE_CLASSES_def)

lemma get_MIDDLEWARE_CLASSES_first:
  "MIDDLEWARE_CLASSES s = None \<Longrightarrow> DRF_MIDDLEWARE_CLASSES env = Some names \<Longrightarrow>
   map (import_string env) names = map Some classes \<Longrightarrow>
     get_MIDDLEWARE_CLASSES env s =
       (Inr classes, s\<lparr>MIDDLEWARE_CLASSES := Some classes, trace := trace s @ map Import names\<rparr>)"
  using import_loop_all [of "import_string env" names classes "[]" s]
  by (simp add: get_MIDDLEWARE_CLASSES_def load_middleware_classes_def)

lemma get_MIDDLEWARE_CLASSES_bad:
  "MIDDLEWARE_CLASSES s = None \<Longrightarrow> DRF_MIDDLEWARE_CLASSES env = Some (good @ n # rest) \<Longrightarrow>
   map (import_string env) good = map Some new \<Longrightarrow> import_string env n = None \<Longrightarrow>
     get_MIDDLEWARE_CLASSES env s =
       (Inl (ImportError n), s\<lparr>trace := trace s @ map Import (good @ [n])\<rparr>)"
  using import_loop_bad [of "import_string env" good new n rest "[]" s]
  by (simp add: get_MIDDLEWARE_CLASSES_def load_middleware_classes_def)

subsection \<open>Instantiation\<close>

lemma instantiate_abstract:
  "abstractmethods c \<noteq> [] \<Longrightarrow> instantiate c s = (Inl (TypeError (qualname c)), s)"
  by (cases "abstractmethods c") (simp_all add: instantiate_def)

lemma instantiate_concrete:
  "abstractmethods c = [] \<Longrightarrow>
     instantiate c s =
       (case init_def c (next_id s) (world s) of
          (Inl e, w') \<Rightarrow>
            (Inl e, s\<lparr>next_id := Suc (next_id s),
                       trace := trace s @ [Instantiate (qualname c) (next_id s)], world := w'\<rparr>)
        | (Inr _, w') \<Rightarrow>
            (Inr \<lparr>inst_id = next_id s, inst_class = c\<rparr>,
             s\<lparr>next_id := Suc (next_id s),
               trace := trace s @ [Instantiate (qualname c) (next_id s)], world := w'\<rparr>))"
  by (simp add: instantiate_def call_eq emit_def split: prod.splits sum.splits)

lemma instantiate_Inr:
  assumes "instantiate c s = (Inr m, s')"
  shows "m = \<lparr>inst_id = next_id s, inst_class = c\<rparr>" and "abstractmethods c = []"
    and "next_id s' = Suc (next_id s)"
    and "trace s' = trace s @ [Instantiate (qualname c) (next_id s)]"
    and "MIDDLEWARE_CLASSES s' = MIDDLEWARE_CLASSES s" and "middlewares s' = middlewares s"
proof -
  from assms have abs: "abstractmethods c = []"
    by (cases "abstractmethods c") (simp_all add: instantiate_def)
  then show "abstractmethods c = []" .
  from assms instantiate_concrete [OF abs, of s]
  show "m = \<lparr>inst_id = next_id s, inst_class = c\<rparr>" "next_id s' = Suc (next_id s)"
    "trace s' = trace s @ [Instantiate (qualname c) (next_id s)]"
    "MIDDLEWARE_CLASSES s' = MIDDLEWARE_CLASSES s" "middlewares s' = middlewares s"
    by (auto split: prod.splits sum.splits)
qed

lemma instantiate_Inl:
  assumes "instantiate c s = (Inl e, s')"
  shows "MIDDLEWARE_CLASSES s' = MIDDLEWARE_CLASSES s" and "middlewares s' = middlewares s"
    and "appends is_registry_event s s'"
proof -
  have "MIDDLEWARE_CLASSES s' = MIDDLEWARE_CLASSES s \<and> middlewares s' = middlewares s \<and>
    appends is_registry_event s s'"
  proof (cases "abstractmethods c = []")
    case True
    from assms instantiate_concrete [OF True, of s] show ?thesis
      by (auto simp: appends_def split: prod.splits sum.splits)
  next
    case False
    from assms instantiate_abstract [OF False, of s] show ?thesis by simp
  qed
  then show "MIDDLEWARE_CLASSES s' = MIDDLEWARE_CLASSES s" "middlewares s' = middlewares s"
    "appends is_registry_event s s'" by simp_all
qed

lemma instantiate_instantiable:
  "instantiable c \<Longrightarrow> \<exists>s'. instantiate c s = (Inr \<lparr>inst_id = next_id s, inst_class = c\<rparr>, s')"
proof -
  assume inst: "instantiable c"
  then have abs: "abstractmethods c = []" by (simp add: instantiable_def)
  from inst have "fst (init_def c (next_id s) (world s)) = Inr ()" by (simp add: instantiable_def)
  then show ?thesis
    by (cases "init_def c (next_id s) (world s)") (simp add: instantiate_concrete [OF abs])
qed

lemma instantiate_never:
  assumes "abstractmethods c \<noteq> [] \<or> (\<forall>self w. fst (init_def c self w) \<noteq> Inr ())"
  shows "\<exists>e s'. instantiate c s = (Inl e, s')"
proof (cases "abstractmethods c = []")
  case True
  with assms have "fst (init_def c (next_id s) (world s)) \<noteq> Inr ()" by simp
  then show ?thesis
    by (cases "init_def c (next_id s) (world s)")
      (auto simp: instantiate_concrete [OF True] split: sum.splits)
next
  case False
  then show ?thesis by (simp add: instantiate_abstract)
qed

lemma instantiate_loop_Inr:
  "instantiate_loop cs acc s = (Inr ms, s') \<Longrightarrow>
     \<exists>new. ms = acc @ new \<and> map inst_class new = cs \<and>
       map inst_id new = [next_id s ..< next_id s + length cs] \<and>
       (\<forall>c\<in>set cs. abstractmethods c = []) \<and>
       next_id s' = next_id s + length cs \<and>
       trace s' = trace s @ map Instantiate_event new \<and>
       MIDDLEWARE_CLASSES s' = MIDDLEWARE_CLASSES s \<and> middlewares s' = middlewares s"
proof (induction cs arbitrary: acc s)
  case Nil
  then show ?case by simp
next
  case (Cons c cs)
  from Cons.prems obtain m s1 where
    one: "instantiate c s = (Inr m, s1)" and rest: "instantiate_loop cs (acc @ [m]) s1 = (Inr ms, s')"
    by (auto split: prod.splits sum.splits)
  note m = instantiate_Inr [OF one]
  from Cons.IH [OF rest] obtain new where new:
    "ms = (acc @ [m]) @ new" "map inst_class new = cs"
    "map inst_id new = [next_id s1 ..< next_id s1 + length cs]"
    "\<forall>c\<in>set cs. abstractmethods c = []"
    "next_id s' = next_id s1 + length cs"
    "trace s' = trace s1 @ map Instantiate_event new"
    "MIDDLEWARE_CLASSES s' = MIDDLEWARE_CLASSES s1" "middlewares s' = middlewares s1"
    by blast
  have f1: "ms = acc @ (m # new)" using new(1) by simp
  have f2: "map inst_class (m # new) = c # cs" using new(2) m(1) by simp
  have f3: "map inst_id (m # new) = [next_id s ..< next_id s + length (c # cs)]"
  proof -
    have "next_id s < next_id s + length (c # cs)" by simp
    then have "[next_id s ..< next_id s + length (c # cs)] =
        next_id s # [Suc (next_id s) ..< next_id s + length (c # cs)]"
      by (rule upt_conv_Cons)
    moreover have "next_id s + length (c # cs) = Suc (next_id s) + length cs" by simp
    ultimately have "[next_id s ..< next_id s + length (c # cs)] =
        next_id s # [Suc (next_id s) ..< Suc (next_id s) + length cs]"
      by (simp only:)
    moreover have "map inst_id (m # new) = next_id s # [next_id s1 ..< next_id s1 + length cs]"
      using new(3) m(1) by simp
    ultimately show ?thesis using m(3) by (simp only:)
  qed
  have f4: "\<forall>k\<in>set (c # cs). abstractmethods k = []" using new(4) m(2) by simp
  have f5: "next_id s' = next_id s + length (c # cs)" using new(5) m(3) by simp
  have f6: "trace s' = trace s @ map Instantiate_event (m # new)"
    using new(6) m(1) m(4) by (simp add: Instantiate_event_def)
  have f7: "MIDDLEWARE_CLASSES s' = MIDDLEWARE_CLASSES s" using new(7) m(5) by simp
  have f8: "middlewares s' = middlewares s" using new(8) m(6) by simp
  show ?case
    by (rule exI [of _ "m # new"]) (intro conjI f1 f2 f3 f4 f5 f6 f7 f8)
qed

lemma instantiate_loop_Inl:
  "instantiate_loop cs acc s = (Inl e, s') \<Longrightarrow>
     MIDDLEWARE_CLASSES s' = MIDDLEWARE_CLASSES s \<and> middlewares s' = middlewares s \<and>
     appends is_registry_event s s'"
proof (induction cs arbitrary: acc s)
  case Nil
  then show ?case by simp
next
  case (Cons c cs)
  show ?case
  proof (cases "instantiate c s")
    case (Pair r s1)
    show ?thesis
    proof (cases r)
      case (Inl e')
      with Pair Cons.prems have "instantiate c s = (Inl e, s')" by simp
      from instantiate_Inl [OF this] show ?thesis by simp
    next
      case (Inr m)
      with Pair Cons.prems have rest: "instantiate_loop cs (acc @ [m]) s1 = (Inl e, s')" by simp
      from Pair Inr have one: "instantiate c s = (Inr m, s1)" by simp
      note m = instantiate_Inr [OF one]
      from m(4) have "appends is_registry_event s s1" by (simp add: appends_def)
      with Cons.IH [OF rest] m(5) m(6) show ?thesis by (auto intro: appends_trans)
    qed
  qed
qed

lemma instantiate_loop_instantiable:
  "\<forall>c\<in>set cs. instantiable c \<Longrightarrow> \<exists>ms s'. instantiate_loop cs acc s = (Inr ms, s')"
proof (induction cs arbitrary: acc s)
  case Nil
  then show ?case by simp
next
  case (Cons c cs)
  then have "instantiable c" by simp
  from instantiate_instantiable [OF this, of s] obtain s1 where
    "instantiate c s = (Inr \<lparr>inst_id = next_id s, inst_class = c\<rparr>, s1)" ..
  moreover from Cons have
    "\<exists>ms s'. instantiate_loop cs (acc @ [\<lparr>inst_id = next_id s, inst_class = c\<rparr>]) s1 = (Inr ms, s')"
    by simp
  ultimately show ?case by simp
qed

lemma instantiate_loop_never:
  "\<exists>c\<in>set cs. abstractmethods c \<noteq> [] \<or> (\<forall>self w. fst (init_def c self w) \<noteq> Inr ()) \<Longrightarrow>
     \<exists>e s'. instantiate_loop cs acc s = (Inl e, s')"
proof (induction cs arbitrary: acc s)
  case Nil
  then show ?case by simp
next
  case (Cons c cs)
  show ?case
  proof (cases "instantiate c s")
    case (Pair r s1)
    show ?thesis
    proof (cases r)
      case (Inl e)
      with Pair show ?thesis by simp
    next
      case (Inr m)
      with Pair have ok: "instantiate c s = (Inr m, s1)" by simp
      have "\<not> (abstractmethods c \<noteq> [] \<or> (\<forall>self w. fst (init_def c self w) \<noteq> Inr ()))"
      proof
        assume "abstractmethods c \<noteq> [] \<or> (\<forall>self w. fst (init_def c self w) \<noteq> Inr ())"
        from instantiate_never [OF this, of s] ok show False by simp
      qed
      with Cons.prems have
        "\<exists>c\<in>set cs. abstractmethods c \<noteq> [] \<or> (\<forall>self w. fst (init_def c self w) \<noteq> Inr ())"
        by auto
      from Cons.IH [OF this, of "acc @ [m]" s1] ok show ?thesis by simp
    qed
  qed
qed

subsection \<open>\<^verbatim>\<open>initialize_middlewares\<close>\<close>

lemma initialize_middlewares_Inr_steps:
  assumes "initialize_middlewares env s = (Inr u, s')"
  shows "\<exists>cs s1 ms s2. get_MIDDLEWARE_CLASSES env s = (Inr cs, s1) \<and>
           instantiate_loop cs [] s1 = (Inr ms, s2) \<and> s' = s2\<lparr>middlewares := Some ms\<rparr>"
  using assms by (auto simp: initialize_middlewares_def split: prod.splits sum.splits)

lemma initialize_middlewares_Inl_steps:
  assumes "initialize_middlewares env s = (Inl e, s')"
  shows "get_MIDDLEWARE_CLASSES env s = (Inl e, s') \<or>
         (\<exists>cs s1. get_MIDDLEWARE_CLASSES env s = (Inr cs, s1) \<and>
            instantiate_loop cs [] s1 = (Inl e, s'))"
  using assms by (auto simp: initialize_middlewares_def split: prod.splits sum.splits)

lemma get_MIDDLEWARE_CLASSES_cases:
  assumes "registry_ok env s" and "DRF_MIDDLEWARE_CLASSES env = Some names"
  shows "(\<exists>classes. map (import_string env) names = map Some classes \<and>
            get_MIDDLEWARE_CLASSES env s =
              (Inr classes,
               s\<lparr>MIDDLEWARE_CLASSES := Some classes,
                 trace := trace s @ (if MIDDLEWARE_CLASSES s = None then map Import names else [])\<rparr>)) \<or>
         (\<exists>good n rest new. names = good @ n # rest \<and> import_string env n = None \<and>
            map (import_string env) good = map Some new \<and> MIDDLEWARE_CLASSES s = None \<and>
            get_MIDDLEWARE_CLASSES env s =
              (Inl (ImportError n), s\<lparr>trace := trace s @ map Import (good @ [n])\<rparr>))"
proof (cases "MIDDLEWARE_CLASSES s")
  case None
  from importable_or_first_bad [of "import_string env" names] show ?thesis
  proof
    assume "\<exists>new. map (import_string env) names = map Some new"
    then obtain classes where "map (import_string env) names = map Some classes" ..
    with get_MIDDLEWARE_CLASSES_first [OF None assms(2) this] None show ?thesis by auto
  next
    assume "\<exists>good n rest new. names = good @ n # rest \<and> import_string env n = None \<and>
      map (import_string env) good = map Some new"
    then obtain good n rest new where bad: "names = good @ n # rest" "import_string env n = None"
      "map (import_string env) good = map Some new" by blast
    from get_MIDDLEWARE_CLASSES_bad [OF None assms(2) [unfolded bad(1)] bad(3) bad(2)] bad None
    show ?thesis by blast
  qed
next
  case (Some classes)
  with assms have "map (import_string env) names = map Some classes"
    by (simp add: registry_ok_def)
  moreover have "s\<lparr>MIDDLEWARE_CLASSES := Some classes, trace := trace s @ []\<rparr> = s"
    using Some by simp
  ultimately show ?thesis
    using get_MIDDLEWARE_CLASSES_cached [OF Some, of env] Some by auto
qed

lemma initialize_middlewares_Inr:
  assumes "initialize_middlewares env s = (Inr u, s')"
    and "registry_ok env s" and "DRF_MIDDLEWARE_CLASSES env = Some names"
  shows "\<exists>ms. middlewares s' = Some ms \<and>
           map (Some \<circ> inst_class) ms = map (import_string env) names \<and>
           map inst_id ms = [next_id s ..< next_id s + length names] \<and>
           (\<forall>m\<in>set ms. abstractmethods (inst_class m) = []) \<and>
           next_id s' = next_id s + length names \<and>
           MIDDLEWARE_CLASSES s' = Some (map inst_class ms) \<and>
           trace s' = trace s @ (if MIDDLEWARE_CLASSES s = None then map Import names else []) @
             map Instantiate_event ms"
proof -
  from initialize_middlewares_Inr_steps [OF assms(1)] obtain cs s1 ms s2 where
    get: "get_MIDDLEWARE_CLASSES env s = (Inr cs, s1)" and
    loop: "instantiate_loop cs [] s1 = (Inr ms, s2)" and s': "s' = s2\<lparr>middlewares := Some ms\<rparr>"
    by blast
  from get_MIDDLEWARE_CLASSES_cases [OF assms(2,3)] get have
    cs: "map (import_string env) names = map Some cs" and
    s1: "s1 = s\<lparr>MIDDLEWARE_CLASSES := Some cs,
                trace := trace s @ (if MIDDLEWARE_CLASSES s = None then map Import names else [])\<rparr>"
    by auto
  from cs have len: "length names = length cs" by (metis length_map)
  from instantiate_loop_Inr [OF loop] have ms:
    "map inst_class ms = cs" "map inst_id ms = [next_id s1 ..< next_id s1 + length cs]"
    "\<forall>c\<in>set cs. abstractmethods c = []" "next_id s2 = next_id s1 + length cs"
    "trace s2 = trace s1 @ map Instantiate_event ms"
    "MIDDLEWARE_CLASSES s2 = MIDDLEWARE_CLASSES s1"
    by auto
  have f1: "middlewares s' = Some ms" using s' by simp
  have f2: "map (Some \<circ> inst_class) ms = map (import_string env) names"
    using ms(1) cs by (simp flip: map_map)
  have f3: "map inst_id ms = [next_id s ..< next_id s + length names]"
    using ms(2) s1 len by simp
  have f4: "\<forall>m\<in>set ms. abstractmethods (inst_class m) = []"
    using ms(1,3) by auto
  have f5: "next_id s' = next_id s + length names" using ms(4) s' s1 len by simp
  have f6: "MIDDLEWARE_CLASSES s' = Some (map inst_class ms)" using ms(1,6) s' s1 by simp
  have f7: "trace s' = trace s @
      (if MIDDLEWARE_CLASSES s = None then map Import names else []) @ map Instantiate_event ms"
    using ms(5) s' s1 by simp
  show ?thesis
    by (rule exI [of _ ms]) (intro conjI f1 f2 f3 f4 f5 f6 f7)
qed

lemma appends_mono: "(\<And>ev. P ev \<Longrightarrow> Q ev) \<Longrightarrow> appends P s s' \<Longrightarrow> appends Q s s'"
  unfolding appends_def list_all_iff by blast

lemma import_loop_appends:
  "import_loop imp names acc s = (r, s') \<Longrightarrow>
     appends is_registry_event s s' \<and> MIDDLEWARE_CLASSES s' = MIDDLEWARE_CLASSES s \<and>
     middlewares s' = middlewares s \<and> next_id s' = next_id s \<and> world s' = world s"
proof (induction names arbitrary: acc s)
  case Nil
  then show ?case by auto
next
  case (Cons n names)
  have step: "appends is_registry_event s (emit (Import n) s)" by (simp add: appends_emit)
  show ?case
  proof (cases "imp n")
    case None
    with Cons.prems have "s' = emit (Import n) s" by simp
    with step show ?thesis by simp
  next
    case (Some c)
    with Cons.prems have "import_loop imp names (acc @ [c]) (emit (Import n) s) = (r, s')" by simp
    from Cons.IH [OF this] step show ?thesis by (auto intro: appends_trans)
  qed
qed

lemma get_MIDDLEWARE_CLASSES_appends:
  assumes "get_MIDDLEWARE_CLASSES env s = (r, s')"
  shows "appends is_registry_event s s'" and "middlewares s' = middlewares s"
    and "next_id s' = next_id s" and "world s' = world s"
proof -
  have "appends is_registry_event s s' \<and> middlewares s' = middlewares s \<and>
    next_id s' = next_id s \<and> world s' = world s"
  proof (cases "MIDDLEWARE_CLASSES s")
    case (Some classes)
    with assms show ?thesis by (simp add: get_MIDDLEWARE_CLASSES_def)
  next
    case None
    show ?thesis
    proof (cases "DRF_MIDDLEWARE_CLASSES env")
      case None
      with \<open>MIDDLEWARE_CLASSES s = None\<close> assms show ?thesis
        by (auto simp: get_MIDDLEWARE_CLASSES_def load_middleware_classes_def)
    next
      case (Some names)
      obtain r1 s1 where loop: "import_loop (import_string env) names [] s = (r1, s1)"
        by (cases "import_loop (import_string env) names [] s")
      note fr = import_loop_appends [OF loop]
      from assms \<open>MIDDLEWARE_CLASSES s = None\<close> Some loop
      have "s' = s1 \<or> (\<exists>cs. s' = s1\<lparr>MIDDLEWARE_CLASSES := Some cs\<rparr>)"
        by (auto simp: get_MIDDLEWARE_CLASSES_def load_middleware_classes_def split: sum.splits)
      with fr show ?thesis by (auto simp: appends_def)
    qed
  qed
  then show "appends is_registry_event s s'" "middlewares s' = middlewares s"
    "next_id s' = next_id s" "world s' = world s" by simp_all
qed

lemma initialize_middlewares_appends:
  assumes "initialize_middlewares env s = (r, s')"
  shows "appends is_registry_event s s'"
proof (cases r)
  case (Inl e)
  with assms have "initialize_middlewares env s = (Inl e, s')" by simp
  from initialize_middlewares_Inl_steps [OF this] show ?thesis
  proof
    assume "get_MIDDLEWARE_CLASSES env s = (Inl e, s')"
    then show ?thesis by (rule get_MIDDLEWARE_CLASSES_appends)
  next
    assume "\<exists>cs s1. get_MIDDLEWARE_CLASSES env s = (Inr cs, s1) \<and>
      instantiate_loop cs [] s1 = (Inl e, s')"
    then obtain cs s1 where get: "get_MIDDLEWARE_CLASSES env s = (Inr cs, s1)"
      and loop: "instantiate_loop cs [] s1 = (Inl e, s')" by blast
    from get_MIDDLEWARE_CLASSES_appends(1) [OF get] instantiate_loop_Inl [OF loop]
    show ?thesis by (auto intro: appends_trans)
  qed
next
  case (Inr u)
  with assms have "initialize_middlewares env s = (Inr u, s')" by simp
  from initialize_middlewares_Inr_steps [OF this] obtain cs s1 ms s2 where
    get: "get_MIDDLEWARE_CLASSES env s = (Inr cs, s1)" and
    loop: "instantiate_loop cs [] s1 = (Inr ms, s2)" and s': "s' = s2\<lparr>middlewares := Some ms\<rparr>"
    by blast
  from instantiate_loop_Inr [OF loop]
  have "trace s2 = trace s1 @ map Instantiate_event ms" by auto
  then have "appends is_registry_event s1 s2"
    by (auto simp: appends_def list_all_iff Instantiate_event_def)
  with s' have "appends is_registry_event s1 s'" by (simp add: appends_def)
  with get_MIDDLEWARE_CLASSES_appends(1) [OF get] show ?thesis by (rule appends_trans)
qed

lemma initialize_middlewares_Inl:
  assumes "initialize_middlewares env s = (Inl e, s')"
  shows "middlewares s' = middlewares s"
  using initialize_middlewares_Inl_steps [OF assms]
proof
  assume "get_MIDDLEWARE_CLASSES env s = (Inl e, s')"
  then show ?thesis by (rule get_MIDDLEWARE_CLASSES_appends)
next
  assume "\<exists>cs s1. get_MIDDLEWARE_CLASSES env s = (Inr cs, s1) \<and>
    instantiate_loop cs [] s1 = (Inl e, s')"
  then obtain cs s1 where get: "get_MIDDLEWARE_CLASSES env s = (Inr cs, s1)"
    and loop: "instantiate_loop cs [] s1 = (Inl e, s')" by blast
  from get_MIDDLEWARE_CLASSES_appends(2) [OF get] instantiate_loop_Inl [OF loop]
  show ?thesis by simp
qed

subsection \<open>The pre-hooks\<close>

lemma call_process_request_Some:
  "lookup_process_request (inst_class m) = Some f \<Longrightarrow>
     call_process_request m request s =
       (fst (f (inst_id m) request (world s)),
        s\<lparr>trace := trace s @ [ProcessRequest (inst_id m) request],
          world := snd (f (inst_id m) request (world s))\<rparr>)"
  by (simp add: call_process_request_def call_eq emit_def)

lemma call_process_request_Inr:
  assumes "call_process_request m request s = (Inr v, s')"
  shows "trace s' = trace s @ [ProcessRequest (inst_id m) request]"
proof (cases "lookup_process_request (inst_class m)")
  case None
  with assms show ?thesis by (simp add: call_process_request_def)
next
  case (Some f)
  from assms show ?thesis unfolding call_process_request_Some [OF Some] by auto
qed

lemma call_process_request_frame:
  assumes "call_process_request m request s = (r, s')"
  shows "same_registry s s'"
    and "(\<And>i. P (ProcessRequest i request)) \<Longrightarrow> appends P s s'"
proof -
  show "same_registry s s'"
  proof (cases "lookup_process_request (inst_class m)")
    case None
    with assms show ?thesis by (simp add: call_process_request_def)
  next
    case (Some f)
    from assms show ?thesis unfolding call_process_request_Some [OF Some]
      by (auto simp: same_registry_def)
  qed
  assume P: "\<And>i. P (ProcessRequest i request)"
  show "appends P s s'"
  proof (cases "lookup_process_request (inst_class m)")
    case None
    with assms show ?thesis by (simp add: call_process_request_def)
  next
    case (Some f)
    from assms P show ?thesis unfolding call_process_request_Some [OF Some]
      by (auto simp: appends_def)
  qed
qed

lemma process_request_loop_append:
  "process_request_loop (xs @ ys) request s =
     (case process_request_loop xs request s of
        (Inl e, s') \<Rightarrow> (Inl e, s')
      | (Inr _, s') \<Rightarrow> process_request_loop ys request s')"
  by (induction xs arbitrary: s) (auto split: prod.splits sum.splits)

lemma process_request_loop_Inr:
  "process_request_loop ms request s = (Inr u, s') \<Longrightarrow>
     trace s' = trace s @ map (\<lambda>m. ProcessRequest (inst_id m) request) ms"
proof (induction ms arbitrary: s)
  case Nil
  then show ?case by simp
next
  case (Cons m ms)
  from Cons.prems obtain v s1 where one: "call_process_request m request s = (Inr v, s1)"
    and rest: "process_request_loop ms request s1 = (Inr u, s')"
    by (auto split: prod.splits sum.splits)
  from Cons.IH [OF rest] call_process_request_Inr [OF one] show ?case by simp
qed

lemma process_request_loop_frame:
  "process_request_loop ms request s = (r, s') \<Longrightarrow> same_registry s s'"
proof (induction ms arbitrary: s)
  case Nil
  then show ?case by simp
next
  case (Cons m ms)
  obtain r1 s1 where one: "call_process_request m request s = (r1, s1)"
    by (cases "call_process_request m request s")
  note fr = call_process_request_frame(1) [OF one]
  show ?case
  proof (cases r1)
    case (Inl e)
    with one Cons.prems fr show ?thesis by simp
  next
    case (Inr v)
    with one Cons.prems have "process_request_loop ms request s1 = (r, s')" by simp
    from Cons.IH [OF this] fr show ?thesis by (rule same_registry_trans [rotated])
  qed
qed

lemma process_request_loop_appends:
  assumes P: "\<And>i. P (ProcessRequest i request)"
  shows "process_request_loop ms request s = (r, s') \<Longrightarrow> appends P s s'"
proof (induction ms arbitrary: s)
  case Nil
  then show ?case by simp
next
  case (Cons m ms)
  obtain r1 s1 where one: "call_process_request m request s = (r1, s1)"
    by (cases "call_process_request m request s")
  from call_process_request_frame(2) [OF one, of P] P have fr: "appends P s s1" by simp
  show ?case
  proof (cases r1)
    case (Inl e)
    with one Cons.prems fr show ?thesis by simp
  next
    case (Inr v)
    with one Cons.prems have "process_request_loop ms request s1 = (r, s')" by simp
    from fr Cons.IH [OF this] show ?thesis by (rule appends_trans)
  qed
qed

lemma process_request_loop_abort:
  assumes "i < length ms"
    and "process_request_loop (take i ms) request s = (Inr u, si)"
    and "call_process_request (ms ! i) request si = (Inl e, sf)"
  shows "process_request_loop ms request s = (Inl e, sf)"
proof -
  from assms(1) have "ms = take i ms @ (ms ! i) # drop (Suc i) ms" by (rule id_take_nth_drop)
  then have "process_request_loop ms request s =
      process_request_loop (take i ms @ (ms ! i) # drop (Suc i) ms) request s" by simp
  also have "\<dots> = (Inl e, sf)"
    unfolding process_request_loop_append using assms(2,3) by simp
  finally show ?thesis .
qed

lemma middleware_process_request_None:
  "middlewares s = None \<Longrightarrow> middleware_process_request request s = (Inr (), s)"
  by (simp add: middleware_process_request_def)

lemma middleware_process_request_Some:
  "middlewares s = Some ms \<Longrightarrow>
     middleware_process_request request s = process_request_loop ms request s"
  by (cases ms) (simp_all add: middleware_process_request_def)

lemma middleware_process_request_frame:
  assumes "middleware_process_request request s = (r, s')"
  shows "same_registry s s'"
    and "(\<And>i. P (ProcessRequest i request)) \<Longrightarrow> appends P s s'"
proof -
  show "same_registry s s'"
  proof (cases "middlewares s")
    case None
    with assms show ?thesis by (simp add: middleware_process_request_None)
  next
    case (Some ms)
    with assms show ?thesis
      by (simp add: middleware_process_request_Some process_request_loop_frame)
  qed
  assume P: "\<And>i. P (ProcessRequest i request)"
  show "appends P s s'"
  proof (cases "middlewares s")
    case None
    with assms show ?thesis by (simp add: middleware_process_request_None)
  next
    case (Some ms)
    with assms have "process_request_loop ms request s = (r, s')"
      by (simp add: middleware_process_request_Some)
    with P show ?thesis by (rule process_request_loop_appends)
  qed
qed

subsection \<open>The post-hook\<close>

lemma call_process_response_Some:
  "lookup_process_response (inst_class m) = Some f \<Longrightarrow>
     call_process_response m request response s =
       (fst (f (inst_id m) request response (world s)),
        s\<lparr>trace := trace s @ [ProcessResponse (inst_id m) request response],
          world := snd (f (inst_id m) request response (world s))\<rparr>)"
  by (simp add: call_process_response_def call_eq emit_def)

lemma call_process_response_frame:
  assumes "call_process_response m request response s = (r, s')"
  shows "same_registry s s'"
    and "(\<And>i x. P (ProcessResponse i request x)) \<Longrightarrow> appends P s s'"
proof -
  show "same_registry s s'"
  proof (cases "lookup_process_response (inst_class m)")
    case None
    with assms show ?thesis by (simp add: call_process_response_def)
  next
    case (Some f)
    from assms show ?thesis unfolding call_process_response_Some [OF Some]
      by (auto simp: same_registry_def)
  qed
  assume P: "\<And>i x. P (ProcessResponse i request x)"
  show "appends P s s'"
  proof (cases "lookup_process_response (inst_class m)")
    case None
    with assms show ?thesis by (simp add: call_process_response_def)
  next
    case (Some f)
    from assms P show ?thesis unfolding call_process_response_Some [OF Some]
      by (auto simp: appends_def)
  qed
qed

lemma slice_last_nonempty: "ms \<noteq> [] \<Longrightarrow> slice_last ms = [last ms]"
proof -
  assume ne: "ms \<noteq> []"
  then have "ms = butlast ms @ [last ms]" by simp
  then have "drop (length (butlast ms)) ms = [last ms]"
    by (metis append_eq_conv_conj)
  then show ?thesis by (simp add: slice_last_def)
qed

lemma process_response_loop_single:
  "process_response_loop [m] request response s = call_process_response m request response s"
  by (cases "call_process_response m request response s") (auto split: sum.splits)

lemma middleware_process_response_falsy:
  "middlewares s = None \<or> middlewares s = Some [] \<Longrightarrow>
     middleware_process_response request response s = (Inr response, s)"
  by (auto simp: middleware_process_response_def)

lemma middleware_process_response_last:
  assumes "middlewares s = Some ms" and "ms \<noteq> []"
  shows "middleware_process_response request response s =
           call_process_response (last ms) request response s"
proof -
  from assms(2) have "truthy (Some ms)" by (cases ms) simp_all
  with assms have "middleware_process_response request response s =
      process_response_loop [last ms] request response s"
    by (simp add: middleware_process_response_def slice_last_nonempty
        del: process_response_loop.simps)
  then show ?thesis by (simp only: process_response_loop_single)
qed

lemma middleware_process_response_frame:
  assumes "middleware_process_response request response s = (r, s')"
  shows "same_registry s s'"
    and "(\<And>i x. P (ProcessResponse i request x)) \<Longrightarrow> appends P s s'"
proof -
  have "same_registry s s' \<and> ((\<forall>i x. P (ProcessResponse i request x)) \<longrightarrow> appends P s s')"
  proof (cases "middlewares s = None \<or> middlewares s = Some []")
    case True
    from assms middleware_process_response_falsy [OF True, of request response]
    show ?thesis by auto
  next
    case False
    then obtain ms where ms: "middlewares s = Some ms" "ms \<noteq> []" by auto
    from assms have c: "call_process_response (last ms) request response s = (r, s')"
      by (simp add: middleware_process_response_last [OF ms])
    from call_process_response_frame(1) [OF c] call_process_response_frame(2) [OF c, of P]
    show ?thesis by blast
  qed
  then show "same_registry s s'"
    and "(\<And>i x. P (ProcessResponse i request x)) \<Longrightarrow> appends P s s'" by blast+
qed

subsection \<open>\<^verbatim>\<open>initial\<close> and \<^verbatim>\<open>finalize_response\<close>\<close>

lemma initial_init_raises:
  "initialize_middlewares env s = (Inl e, s1) \<Longrightarrow> initial env request s = (Inl e, s1)"
  by (simp add: initial_def)

lemma initial_super_raises:
  "initialize_middlewares env s = (Inr u, s1) \<Longrightarrow>
   super_initial env request (world s1) = (Inl e, w2) \<Longrightarrow>
     initial env request s =
       (Inl e, s1\<lparr>trace := trace s1 @ [SuperInitial request], world := w2\<rparr>)"
  by (simp add: initial_def call_eq emit_def)

lemma initial_super_returns:
  "initialize_middlewares env s = (Inr u, s1) \<Longrightarrow>
   super_initial env request (world s1) = (Inr u', w2) \<Longrightarrow>
     initial env request s =
       middleware_process_request request
         (s1\<lparr>trace := trace s1 @ [SuperInitial request], world := w2\<rparr>)"
  by (simp add: initial_def call_eq emit_def)

lemma initial_after_init:
  assumes init: "initialize_middlewares env s = (Inr u, s1)"
    and run: "initial env request s = (r, s')"
  shows "same_registry s1 s'"
    and "P (SuperInitial request) \<Longrightarrow> (\<And>i. P (ProcessRequest i request)) \<Longrightarrow> appends P s1 s'"
proof -
  let ?s2 = "s1\<lparr>trace := trace s1 @ [SuperInitial request],
                 world := snd (super_initial env request (world s1))\<rparr>"
  have sr: "same_registry s1 ?s2" by (simp add: same_registry_def)
  have ap: "P (SuperInitial request) \<Longrightarrow> appends P s1 ?s2" by (simp add: appends_def)
  obtain r2 w2 where sup: "super_initial env request (world s1) = (r2, w2)"
    by (cases "super_initial env request (world s1)")
  have "same_registry s1 s' \<and>
    (P (SuperInitial request) \<longrightarrow> (\<forall>i. P (ProcessRequest i request)) \<longrightarrow> appends P s1 s')"
  proof (cases r2)
    case (Inl e)
    with sup run initial_super_raises [OF init, of request e w2] sr ap show ?thesis by auto
  next
    case (Inr u')
    with sup run initial_super_returns [OF init, of request u' w2]
    have m: "middleware_process_request request ?s2 = (r, s')" by simp
    from middleware_process_request_frame(1) [OF m] sr
    have "same_registry s1 s'" by (rule same_registry_trans [rotated])
    moreover have "appends P s1 s'"
      if "P (SuperInitial request)" "\<forall>i. P (ProcessRequest i request)"
      using ap [OF that(1)] middleware_process_request_frame(2) [OF m, of P] that(2)
      by (auto intro: appends_trans)
    ultimately show ?thesis by blast
  qed
  then show "same_registry s1 s'"
    and "P (SuperInitial request) \<Longrightarrow> (\<And>i. P (ProcessRequest i request)) \<Longrightarrow> appends P s1 s'"
    by blast+
qed

lemma initial_appends:
  assumes run: "initial env request s = (r, s')"
    and P: "\<And>ev. is_registry_event ev \<Longrightarrow> P ev" "P (SuperInitial request)"
      "\<And>i. P (ProcessRequest i request)"
  shows "appends P s s'"
proof -
  obtain r1 s1 where init: "initialize_middlewares env s = (r1, s1)"
    by (cases "initialize_middlewares env s")
  from initialize_middlewares_appends [OF init] have a1: "appends P s s1"
    by (rule appends_mono [rotated]) (rule P(1))
  show ?thesis
  proof (cases r1)
    case (Inl e)
    with init run a1 show ?thesis by (simp add: initial_init_raises)
  next
    case (Inr u)
    with init have "initialize_middlewares env s = (Inr u, s1)" by simp
    from initial_after_init(2) [OF this run, of P] P(2,3) have "appends P s1 s'" by simp
    with a1 show ?thesis by (rule appends_trans)
  qed
qed

lemma finalize_response_super_raises:
  "super_finalize_response env request response (world s) = (Inl e, w1) \<Longrightarrow>
     finalize_response env request response s =
       (Inl e, s\<lparr>trace := trace s @ [SuperFinalize request response], world := w1\<rparr>)"
  by (simp add: finalize_response_def call_eq emit_def)

lemma finalize_response_super_returns:
  "super_finalize_response env request response (world s) = (Inr response', w1) \<Longrightarrow>
     finalize_response env request response s =
       middleware_process_response request response'
         (s\<lparr>trace := trace s @ [SuperFinalize request response], world := w1\<rparr>)"
  by (simp add: finalize_response_def call_eq emit_def)

lemma finalize_response_frame:
  assumes run: "finalize_response env request response s = (r, s')"
  shows "same_registry s s'"
    and "(\<And>x. P (SuperFinalize request x)) \<Longrightarrow> (\<And>i x. P (ProcessResponse i request x)) \<Longrightarrow>
           appends P s s'"
proof -
  let ?s1 = "s\<lparr>trace := trace s @ [SuperFinalize request response],
               world := snd (super_finalize_response env request response (world s))\<rparr>"
  have sr: "same_registry s ?s1" by (simp add: same_registry_def)
  have ap: "P (SuperFinalize request response) \<Longrightarrow> appends P s ?s1" by (simp add: appends_def)
  obtain r1 w1 where sup: "super_finalize_response env request response (world s) = (r1, w1)"
    by (cases "super_finalize_response env request response (world s)")
  have "same_registry s s' \<and>
    ((\<forall>x. P (SuperFinalize request x)) \<longrightarrow> (\<forall>i x. P (ProcessResponse i request x)) \<longrightarrow>
       appends P s s')"
  proof (cases r1)
    case (Inl e)
    with sup run finalize_response_super_raises [of env request response s e w1] sr ap
    show ?thesis by auto
  next
    case (Inr response')
    with sup run finalize_response_super_returns [of env request response s response' w1]
    have m: "middleware_process_response request response' ?s1 = (r, s')" by simp
    from middleware_process_response_frame(1) [OF m] sr
    have "same_registry s s'" by (rule same_registry_trans [rotated])
    moreover have "appends P s s'"
      if "\<forall>x. P (SuperFinalize request x)" "\<forall>i x. P (ProcessResponse i request x)"
      using ap middleware_process_response_frame(2) [OF m, of P] that
      by (auto intro: appends_trans)
    ultimately show ?thesis by blast
  qed
  then show "same_registry s s'"
    and "(\<And>x. P (SuperFinalize request x)) \<Longrightarrow> (\<And>i x. P (ProcessResponse i request x)) \<Longrightarrow>
           appends P s s'"
    by blast+
qed

subsection \<open>\<^verbatim>\<open>dispatch\<close>\<close>

lemma dispatch_initial_raises:
  "initial env request s = (Inl e, s1) \<Longrightarrow>
     dispatch env request s =
       (case call (handle_exception env e) s1 of
          (Inl e', s2) \<Rightarrow> (Inl e', s2)
        | (Inr response, s2) \<Rightarrow> finalize_response env request response s2)"
  by (simp add: dispatch_def split: prod.splits sum.splits)

lemma dispatch_initial_returns:
  "initial env request s = (Inr u, s1) \<Longrightarrow>
     dispatch env request s =
       (case call (handler env request) (emit (Handler request) s1) of
          (Inl exc, s2) \<Rightarrow>
            (case call (handle_exception env exc) s2 of
               (Inl e', s3) \<Rightarrow> (Inl e', s3)
             | (Inr response, s3) \<Rightarrow> finalize_response env request response s3)
        | (Inr response, s2) \<Rightarrow> finalize_response env request response s2)"
  by (simp add: dispatch_def split: prod.splits sum.splits)

lemma handle_exception_then_finalize:
  assumes run: "(case call (handle_exception env e) s1 of
                   (Inl e', s2) \<Rightarrow> (Inl e', s2)
                 | (Inr response, s2) \<Rightarrow> finalize_response env request response s2) = (r, s')"
  shows "same_registry s1 s'"
    and "(\<And>x. P (SuperFinalize request x)) \<Longrightarrow> (\<And>i x. P (ProcessResponse i request x)) \<Longrightarrow>
           appends P s1 s'"
proof -
  obtain r2 s2 where h: "call (handle_exception env e) s1 = (r2, s2)"
    by (cases "call (handle_exception env e) s1")
  note sr = same_registry_call [OF h]
  have ap: "appends P s1 s2" using h by (rule appends_call)
  have "same_registry s1 s' \<and>
    ((\<forall>x. P (SuperFinalize request x)) \<longrightarrow> (\<forall>i x. P (ProcessResponse i request x)) \<longrightarrow>
       appends P s1 s')"
  proof (cases r2)
    case (Inl e')
    with h run sr ap show ?thesis by simp
  next
    case (Inr response)
    with h run have f: "finalize_response env request response s2 = (r, s')" by simp
    from finalize_response_frame(1) [OF f] sr
    have "same_registry s1 s'" by (rule same_registry_trans [rotated])
    moreover have "appends P s1 s'"
      if "\<forall>x. P (SuperFinalize request x)" "\<forall>i x. P (ProcessResponse i request x)"
      using ap finalize_response_frame(2) [OF f, of P] that by (auto intro: appends_trans)
    ultimately show ?thesis by blast
  qed
  then show "same_registry s1 s'"
    and "(\<And>x. P (SuperFinalize request x)) \<Longrightarrow> (\<And>i x. P (ProcessResponse i request x)) \<Longrightarrow>
           appends P s1 s'"
    by blast+
qed

lemma dispatch_after_initial:
  assumes ini: "initial env request s = (r1, s1)"
    and run: "dispatch env request s = (r, s')"
  shows "same_registry s1 s'"
    and "P (Handler request) \<Longrightarrow> (\<And>x. P (SuperFinalize request x)) \<Longrightarrow>
           (\<And>i x. P (ProcessResponse i request x)) \<Longrightarrow> appends P s1 s'"
proof -
  have "same_registry s1 s' \<and>
    (P (Handler request) \<longrightarrow> (\<forall>x. P (SuperFinalize request x)) \<longrightarrow>
       (\<forall>i x. P (ProcessResponse i request x)) \<longrightarrow> appends P s1 s')"
  proof (cases r1)
    case (Inl e)
    with ini have "initial env request s = (Inl e, s1)" by simp
    from run [unfolded dispatch_initial_raises [OF this]]
    have t: "(case call (handle_exception env e) s1 of
                (Inl e', s2) \<Rightarrow> (Inl e', s2)
              | (Inr response, s2) \<Rightarrow> finalize_response env request response s2) = (r, s')" .
    from handle_exception_then_finalize(1) [OF t] handle_exception_then_finalize(2) [OF t, of P]
    show ?thesis by blast
  next
    case (Inr u)
    with ini have "initial env request s = (Inr u, s1)" by simp
    note d = run [unfolded dispatch_initial_returns [OF this]]
    obtain rh s2 where h: "call (handler env request) (emit (Handler request) s1) = (rh, s2)"
      by (cases "call (handler env request) (emit (Handler request) s1)")
    have sr: "same_registry s1 s2"
      using same_registry_call [OF h] by (simp add: same_registry_def)
    have ap: "P (Handler request) \<Longrightarrow> appends P s1 s2"
      using h by (auto intro: appends_emit_call)
    show ?thesis
    proof (cases rh)
      case (Inl exc)
      with d h have t: "(case call (handle_exception env exc) s2 of
                (Inl e', s3) \<Rightarrow> (Inl e', s3)
              | (Inr response, s3) \<Rightarrow> finalize_response env request response s3) = (r, s')"
        by simp
      from handle_exception_then_finalize(1) [OF t] sr
      have "same_registry s1 s'" by (rule same_registry_trans [rotated])
      moreover have "appends P s1 s'"
        if "P (Handler request)" "\<forall>x. P (SuperFinalize request x)"
          "\<forall>i x. P (ProcessResponse i request x)"
        using ap [OF that(1)] handle_exception_then_finalize(2) [OF t, of P] that(2,3)
        by (auto intro: appends_trans)
      ultimately show ?thesis by blast
    next
      case (Inr response)
      with d h have f: "finalize_response env request response s2 = (r, s')" by simp
      from finalize_response_frame(1) [OF f] sr
      have "same_registry s1 s'" by (rule same_registry_trans [rotated])
      moreover have "appends P s1 s'"
        if "P (Handler request)" "\<forall>x. P (SuperFinalize request x)"
          "\<forall>i x. P (ProcessResponse i request x)"
        using ap [OF that(1)] finalize_response_frame(2) [OF f, of P] that(2,3)
        by (auto intro: appends_trans)
      ultimately show ?thesis by blast
    qed
  qed
  then show "same_registry s1 s'"
    and "P (Handler request) \<Longrightarrow> (\<And>x. P (SuperFinalize request x)) \<Longrightarrow>
           (\<And>i x. P (ProcessResponse i request x)) \<Longrightarrow> appends P s1 s'"
    by blast+
qed

lemma dispatch_appends:
  assumes run: "dispatch env request s = (r, s')"
    and P: "\<And>ev. is_registry_event ev \<Longrightarrow> P ev" "P (SuperInitial request)"
      "\<And>i. P (ProcessRequest i request)" "P (Handler request)"
      "\<And>x. P (SuperFinalize request x)" "\<And>i x. P (ProcessResponse i request x)"
  shows "appends P s s'"
proof -
  obtain r1 s1 where ini: "initial env request s = (r1, s1)"
    by (cases "initial env request s")
  from initial_appends [OF ini, of P] P(1,2,3) have "appends P s s1" by simp
  moreover from dispatch_after_initial(2) [OF ini run, of P] P(4,5,6) have "appends P s1 s'"
    by simp
  ultimately show ?thesis by (rule appends_trans)
qed

subsection \<open>Replacing what a pre-hook returns\<close>

lemma returning_fields [simp]:
  "qualname (returning r c) = qualname c"
  "inherits_DRFMiddleware (returning r c) = inherits_DRFMiddleware c"
  "init_def (returning r c) = init_def c"
  "mro (returning r c) = map (returning_body r) (mro c)"
  by (simp_all add: returning_def)

lemma returning_body_fields [simp]:
  "process_response_def (returning_body r b) = process_response_def b"
  "process_request_def (returning_body r b) =
     map_option (map_py_method (replace_return r)) (process_request_def b)"
  by (simp_all add: returning_body_def)

lemma mro_lookup_map:
  "(\<And>b. attr (g b) = map_option h (attr b)) \<Longrightarrow>
     mro_lookup attr (map g bs) = map_option h (mro_lookup attr bs)"
  by (induction bs) (simp_all split: option.splits)

lemma mro_lookup_process_response_returning [simp]:
  "mro_lookup process_response_def (map (returning_body r) bs) =
     mro_lookup process_response_def bs"
  using mro_lookup_map [of process_response_def "returning_body r" id bs]
  by (simp add: option.map_id)

lemma mro_lookup_process_request_returning [simp]:
  "mro_lookup process_request_def (map (returning_body r) bs) =
     map_option (map_py_method (replace_return r)) (mro_lookup process_request_def bs)"
  by (rule mro_lookup_map) simp

lemma isabstractmethod_map [simp]: "isabstractmethod (map_py_method h m) = isabstractmethod m"
  by (cases m) simp_all

lemma method_body_map [simp]: "method_body (map_py_method h m) = h (method_body m)"
  by (cases m) simp_all

lemma getattr_process_response_returning [simp]:
  "getattr_process_response (returning r c) = getattr_process_response c"
  by (simp add: getattr_process_response_def)

lemma lookup_process_request_returning:
  "lookup_process_request (returning r c) =
     (case mro_lookup process_request_def (mro c) of
        None \<Rightarrow> lookup_process_request c
      | Some m \<Rightarrow> Some (replace_return r (method_body m)))"
  by (simp add: lookup_process_request_def getattr_process_request_def split: option.splits)

lemma lookup_process_request_defined:
  "mro_lookup process_request_def (mro c) = Some m \<Longrightarrow>
     lookup_process_request c = Some (method_body m)"
  by (simp add: lookup_process_request_def getattr_process_request_def)

lemma abstractmethods_returning [simp]: "abstractmethods (returning r c) = abstractmethods c"
  by (simp add: abstractmethods_def getattr_process_request_def split: option.splits)

lemma lookup_process_response_returning [simp]:
  "lookup_process_response (returning r c) = lookup_process_response c"
  by (simp add: lookup_process_response_def)

lemma returning_instance_fields [simp]:
  "inst_id (returning_instance r m) = inst_id m"
  "inst_class (returning_instance r m) = returning r (inst_class m)"
  by (simp_all add: returning_instance_def)

lemma returning_state_fields [simp]:
  "world (returning_state r s) = world s"
  "trace (returning_state r s) = trace s"
  "next_id (returning_state r s) = next_id s"
  "MIDDLEWARE_CLASSES (returning_state r s) = map_option (map (returning r)) (MIDDLEWARE_CLASSES s)"
  "middlewares (returning_state r s) = map_option (map (returning_instance r)) (middlewares s)"
  by (simp_all add: returning_state_def)

lemma returning_env_fields [simp]:
  "DRF_MIDDLEWARE_CLASSES (returning_env r env) = DRF_MIDDLEWARE_CLASSES env"
  "import_string (returning_env r env) path = map_option (returning r) (import_string env path)"
  "super_initial (returning_env r env) = super_initial env"
  "super_finalize_response (returning_env r env) = super_finalize_response env"
  "handler (returning_env r env) = handler env"
  "handle_exception (returning_env r env) = handle_exception env"
  by (simp_all add: returning_env_def)

lemma emit_returning_state: "emit ev (returning_state r s) = returning_state r (emit ev s)"
  by (simp add: emit_def returning_state_def)

lemma call_returning_state:
  "call f (returning_state r s) = (fst (call f s), returning_state r (snd (call f s)))"
  by (simp add: call_eq returning_state_def)

lemma update_returning_state:
  "(returning_state r s)\<lparr>MIDDLEWARE_CLASSES := Some (map (returning r) cs)\<rparr> =
     returning_state r (s\<lparr>MIDDLEWARE_CLASSES := Some cs\<rparr>)"
  "(returning_state r s)\<lparr>middlewares := Some (map (returning_instance r) ms)\<rparr> =
     returning_state r (s\<lparr>middlewares := Some ms\<rparr>)"
  by (simp_all add: returning_state_def)

lemma import_loop_returning:
  "import_loop (import_string (returning_env r env)) names (map (returning r) acc)
       (returning_state r s) =
     (map_sum id (map (returning r)) (fst (import_loop (import_string env) names acc s)),
      returning_state r (snd (import_loop (import_string env) names acc s)))"
proof (induction names arbitrary: acc s)
  case Nil
  then show ?case by simp
next
  case (Cons n names)
  show ?case
  proof (cases "import_string env n")
    case None
    then show ?thesis by (simp add: emit_returning_state)
  next
    case (Some c)
    with Cons.IH [of "acc @ [c]" "emit (Import n) s"] show ?thesis
      by (simp add: emit_returning_state)
  qed
qed

lemma get_MIDDLEWARE_CLASSES_returning:
  "get_MIDDLEWARE_CLASSES (returning_env r env) (returning_state r s) =
     (map_sum id (map (returning r)) (fst (get_MIDDLEWARE_CLASSES env s)),
      returning_state r (snd (get_MIDDLEWARE_CLASSES env s)))"
proof (cases "MIDDLEWARE_CLASSES s")
  case (Some cs)
  then show ?thesis by (simp add: get_MIDDLEWARE_CLASSES_def)
next
  case None
  show ?thesis
  proof (cases "DRF_MIDDLEWARE_CLASSES env")
    case None
    with \<open>MIDDLEWARE_CLASSES s = None\<close> show ?thesis
      by (simp add: get_MIDDLEWARE_CLASSES_def load_middleware_classes_def)
  next
    case (Some names)
    obtain r1 s1 where loop: "import_loop (import_string env) names [] s = (r1, s1)"
      by (cases "import_loop (import_string env) names [] s")
    from import_loop_returning [of r env names "[]" s] loop
    have loop': "import_loop (import_string (returning_env r env)) names [] (returning_state r s) =
        (map_sum id (map (returning r)) r1, returning_state r s1)"
      by simp
    show ?thesis
      using \<open>MIDDLEWARE_CLASSES s = None\<close> Some loop loop'
      by (cases r1)
        (simp_all add: get_MIDDLEWARE_CLASSES_def load_middleware_classes_def
          update_returning_state)
  qed
qed

lemma instantiate_returning:
  "instantiate (returning r c) (returning_state r s) =
     (map_sum id (returning_instance r) (fst (instantiate c s)),
      returning_state r (snd (instantiate c s)))"
proof (cases "abstractmethods c = []")
  case False
  then show ?thesis by (simp add: instantiate_abstract)
next
  case True
  obtain r1 w1 where i: "init_def c (next_id s) (world s) = (r1, w1)"
    by (cases "init_def c (next_id s) (world s)")
  with True show ?thesis
    by (cases r1)
      (simp_all add: instantiate_concrete returning_state_def returning_instance_def)
qed

lemma instantiate_loop_returning:
  "instantiate_loop (map (returning r) cs) (map (returning_instance r) acc)
       (returning_state r s) =
     (map_sum id (map (returning_instance r)) (fst (instantiate_loop cs acc s)),
      returning_state r (snd (instantiate_loop cs acc s)))"
proof (induction cs arbitrary: acc s)
  case Nil
  then show ?case by simp
next
  case (Cons c cs)
  obtain r1 s1 where one: "instantiate c s = (r1, s1)" by (cases "instantiate c s")
  show ?case
  proof (cases r1)
    case (Inl e)
    with one show ?thesis by (simp add: instantiate_returning)
  next
    case (Inr m)
    with one Cons.IH [of "acc @ [m]" s1] show ?thesis
      by (simp add: instantiate_returning)
  qed
qed

lemma initialize_middlewares_returning:
  "initialize_middlewares (returning_env r env) (returning_state r s) =
     (fst (initialize_middlewares env s),
      returning_state r (snd (initialize_middlewares env s)))"
proof -
  obtain r1 s1 where get: "get_MIDDLEWARE_CLASSES env s = (r1, s1)"
    by (cases "get_MIDDLEWARE_CLASSES env s")
  show ?thesis
  proof (cases r1)
    case (Inl e)
    with get show ?thesis
      by (simp add: initialize_middlewares_def get_MIDDLEWARE_CLASSES_returning)
  next
    case (Inr cs)
    obtain r2 s2 where loop: "instantiate_loop cs [] s1 = (r2, s2)"
      by (cases "instantiate_loop cs [] s1")
    from instantiate_loop_returning [of r cs "[]" s1] loop
    have loop': "instantiate_loop (map (returning r) cs) [] (returning_state r s1) =
        (map_sum id (map (returning_instance r)) r2, returning_state r s2)"
      by simp
    from get Inr loop loop' show ?thesis
      by (cases r2)
        (simp_all add: initialize_middlewares_def get_MIDDLEWARE_CLASSES_returning
          update_returning_state)
  qed
qed

lemma call_process_request_returning:
  "snd (call_process_request (returning_instance r m) request (returning_state r s)) =
     returning_state r (snd (call_process_request m request s))"
  "isl (fst (call_process_request (returning_instance r m) request (returning_state r s))) =
     isl (fst (call_process_request m request s))"
  "projl (fst (call_process_request (returning_instance r m) request (returning_state r s))) =
     projl (fst (call_process_request m request s)) \<or>
   \<not> isl (fst (call_process_request m request s))"
proof -
  have "snd (call_process_request (returning_instance r m) request (returning_state r s)) =
        returning_state r (snd (call_process_request m request s)) \<and>
      isl (fst (call_process_request (returning_instance r m) request (returning_state r s))) =
        isl (fst (call_process_request m request s)) \<and>
      (projl (fst (call_process_request (returning_instance r m) request (returning_state r s))) =
        projl (fst (call_process_request m request s)) \<or>
       \<not> isl (fst (call_process_request m request s)))"
  proof (cases "mro_lookup process_request_def (mro (inst_class m))")
    case None
    then have "lookup_process_request (returning r (inst_class m)) =
        lookup_process_request (inst_class m)"
      by (simp add: lookup_process_request_returning)
    then show ?thesis
      by (cases "lookup_process_request (inst_class m)")
        (simp_all add: call_process_request_def emit_returning_state call_returning_state)
  next
    case (Some m0)
    obtain r1 w1 where f: "method_body m0 (inst_id m) request (world s) = (r1, w1)"
      by (cases "method_body m0 (inst_id m) request (world s)")
    have l1: "lookup_process_request (inst_class m) = Some (method_body m0)"
      using Some by (rule lookup_process_request_defined)
    have l2: "lookup_process_request (returning r (inst_class m)) =
        Some (replace_return r (method_body m0))"
      using Some by (simp add: lookup_process_request_returning)
    from f show ?thesis
      by (cases r1)
        (simp_all add: call_process_request_def l1 l2 replace_return_def call_eq emit_def
          returning_state_def)
  qed
  then show
    "snd (call_process_request (returning_instance r m) request (returning_state r s)) =
       returning_state r (snd (call_process_request m request s))"
    "isl (fst (call_process_request (returning_instance r m) request (returning_state r s))) =
       isl (fst (call_process_request m request s))"
    "projl (fst (call_process_request (returning_instance r m) request (returning_state r s))) =
       projl (fst (call_process_request m request s)) \<or>
     \<not> isl (fst (call_process_request m request s))"
    by simp_all
qed

lemma process_request_loop_returning:
  "process_request_loop (map (returning_instance r) ms) request (returning_state r s) =
     (fst (process_request_loop ms request s),
      returning_state r (snd (process_request_loop ms request s)))"
proof (induction ms arbitrary: s)
  case Nil
  then show ?case by simp
next
  case (Cons m ms)
  obtain r1 s1 where one: "call_process_request m request s = (r1, s1)"
    by (cases "call_process_request m request s")
  obtain r1' s1' where one':
    "call_process_request (returning_instance r m) request (returning_state r s) = (r1', s1')"
    by (cases "call_process_request (returning_instance r m) request (returning_state r s)")
  from call_process_request_returning [of r m request s] one one'
  have s1': "s1' = returning_state r s1" and l: "isl r1' = isl r1"
    and e: "projl r1' = projl r1 \<or> \<not> isl r1"
    by simp_all
  show ?case
  proof (cases r1)
    case (Inl e1)
    with l e obtain "r1' = Inl e1" by (cases r1') simp_all
    with Inl one one' s1' show ?thesis by simp
  next
    case (Inr v)
    with l obtain v' where "r1' = Inr v'" by (cases r1') simp_all
    with Inr one one' s1' Cons.IH [of s1] show ?thesis by simp
  qed
qed

lemma truthy_map_option [simp]: "truthy (map_option (map f) x) = truthy x"
  by (cases x rule: truthy.cases) simp_all

lemma middleware_process_request_returning:
  "middleware_process_request request (returning_state r s) =
     (fst (middleware_process_request request s),
      returning_state r (snd (middleware_process_request request s)))"
proof (cases "middlewares s")
  case None
  then show ?thesis by (simp add: middleware_process_request_def)
next
  case (Some ms)
  then have "middlewares (returning_state r s) = Some (map (returning_instance r) ms)" by simp
  from middleware_process_request_Some [OF this] middleware_process_request_Some [OF Some]
  show ?thesis by (simp add: process_request_loop_returning)
qed

lemma call_process_response_returning:
  "call_process_response (returning_instance r m) request response (returning_state r s) =
     (fst (call_process_response m request response s),
      returning_state r (snd (call_process_response m request response s)))"
  by (cases "lookup_process_response (inst_class m)")
    (simp_all add: call_process_response_def emit_returning_state call_returning_state)

lemma middleware_process_response_returning:
  "middleware_process_response request response (returning_state r s) =
     (fst (middleware_process_response request response s),
      returning_state r (snd (middleware_process_response request response s)))"
proof (cases "middlewares s = None \<or> middlewares s = Some []")
  case True
  then have "middlewares (returning_state r s) = None \<or> middlewares (returning_state r s) = Some []"
    by auto
  from middleware_process_response_falsy [OF this] middleware_process_response_falsy [OF True]
  show ?thesis by simp
next
  case False
  then obtain ms where ms: "middlewares s = Some ms" "ms \<noteq> []" by auto
  then have ms': "middlewares (returning_state r s) = Some (map (returning_instance r) ms)"
    "map (returning_instance r) ms \<noteq> []" by simp_all
  show ?thesis
    unfolding middleware_process_response_last [OF ms] middleware_process_response_last [OF ms']
    using ms(2) by (simp add: last_map call_process_response_returning)
qed

lemma initial_returning:
  "initial (returning_env r env) request (returning_state r s) =
     (fst (initial env request s), returning_state r (snd (initial env request s)))"
proof -
  obtain r1 s1 where init: "initialize_middlewares env s = (r1, s1)"
    by (cases "initialize_middlewares env s")
  then have init': "initialize_middlewares (returning_env r env) (returning_state r s) =
      (r1, returning_state r s1)"
    by (simp add: initialize_middlewares_returning)
  show ?thesis
  proof (cases r1)
    case (Inl e)
    with init init' show ?thesis by (simp add: initial_init_raises)
  next
    case (Inr u)
    obtain r2 s2 where sup: "call (super_initial env request) (emit (SuperInitial request) s1) = (r2, s2)"
      by (cases "call (super_initial env request) (emit (SuperInitial request) s1)")
    then have sup': "call (super_initial env request)
        (emit (SuperInitial request) (returning_state r s1)) = (r2, returning_state r s2)"
      by (simp add: emit_returning_state call_returning_state)
    from Inr init init' sup sup' show ?thesis
      by (cases r2) (simp_all add: initial_def middleware_process_request_returning)
  qed
qed

lemma finalize_response_returning:
  "finalize_response (returning_env r env) request response (returning_state r s) =
     (fst (finalize_response env request response s),
      returning_state r (snd (finalize_response env request response s)))"
proof -
  obtain r1 s1 where sup: "call (super_finalize_response env request response)
      (emit (SuperFinalize request response) s) = (r1, s1)"
    by (cases "call (super_finalize_response env request response)
      (emit (SuperFinalize request response) s)")
  then have sup': "call (super_finalize_response env request response)
      (emit (SuperFinalize request response) (returning_state r s)) = (r1, returning_state r s1)"
    by (simp add: emit_returning_state call_returning_state)
  from sup sup' show ?thesis
    by (cases r1) (simp_all add: finalize_response_def middleware_process_response_returning)
qed

lemma handle_exception_then_finalize_returning:
  "(case call (handle_exception env e) (returning_state r s) of
      (Inl e', s2) \<Rightarrow> (Inl e', s2)
    | (Inr response, s2) \<Rightarrow> finalize_response (returning_env r env) request response s2) =
   (fst (case call (handle_exception env e) s of
           (Inl e', s2) \<Rightarrow> (Inl e', s2)
         | (Inr response, s2) \<Rightarrow> finalize_response env request response s2),
    returning_state r
      (snd (case call (handle_exception env e) s of
              (Inl e', s2) \<Rightarrow> (Inl e', s2)
            | (Inr response, s2) \<Rightarrow> finalize_response env request response s2)))"
proof -
  obtain r1 s1 where h: "call (handle_exception env e) s = (r1, s1)"
    by (cases "call (handle_exception env e) s")
  then have h': "call (handle_exception env e) (returning_state r s) = (r1, returning_state r s1)"
    by (simp add: call_returning_state)
  from h h' show ?thesis
    by (cases r1) (simp_all add: finalize_response_returning)
qed

lemma dispatch_returning:
  "dispatch (returning_env r env) request (returning_state r s) =
     (fst (dispatch env request s), returning_state r (snd (dispatch env request s)))"
proof -
  obtain r1 s1 where ini: "initial env request s = (r1, s1)"
    by (cases "initial env request s")
  then have ini': "initial (returning_env r env) request (returning_state r s) =
      (r1, returning_state r s1)"
    by (simp add: initial_returning)
  show ?thesis
  proof (cases r1)
    case (Inl e)
    with ini ini' have a: "initial env request s = (Inl e, s1)"
      and b: "initial (returning_env r env) request (returning_state r s) =
        (Inl e, returning_state r s1)" by simp_all
    show ?thesis
      unfolding dispatch_initial_raises [OF a] dispatch_initial_raises [OF b]
      using handle_exception_then_finalize_returning
        [where env = env and e = e and r = r and s = s1 and request = request]
      by simp
  next
    case (Inr u)
    with ini ini' have a: "initial env request s = (Inr u, s1)"
      and b: "initial (returning_env r env) request (returning_state r s) =
        (Inr u, returning_state r s1)" by simp_all
    obtain rh s2 where h: "call (handler env request) (emit (Handler request) s1) = (rh, s2)"
      by (cases "call (handler env request) (emit (Handler request) s1)")
    then have h': "call (handler env request) (emit (Handler request) (returning_state r s1)) =
        (rh, returning_state r s2)"
      by (simp add: emit_returning_state call_returning_state)
    show ?thesis
      unfolding dispatch_initial_returns [OF a] dispatch_initial_returns [OF b]
      using h h' handle_exception_then_finalize_returning
        [where env = env and r = r and s = s2 and request = request]
      by (cases rh) (simp_all add: finalize_response_returning)
  qed
qed

subsection \<open>Which instances the hooks of a request are called on\<close>

lemma call_process_request_on:
  assumes "call_process_request m request s = (r, s')"
    and "P (ProcessRequest (inst_id m) request)"
  shows "appends P s s'"
proof (cases "lookup_process_request (inst_class m)")
  case None
  with assms show ?thesis by (simp add: call_process_request_def)
next
  case (Some f)
  from assms show ?thesis unfolding call_process_request_Some [OF Some]
    by (auto simp: appends_def)
qed

lemma process_request_loop_on:
  assumes P: "\<And>m. m \<in> set ms \<Longrightarrow> P (ProcessRequest (inst_id m) request)"
  shows "set xs \<subseteq> set ms \<Longrightarrow> process_request_loop xs request s = (r, s') \<Longrightarrow> appends P s s'"
proof (induction xs arbitrary: s)
  case Nil
  then show ?case by simp
next
  case (Cons m xs)
  obtain r1 s1 where one: "call_process_request m request s = (r1, s1)"
    by (cases "call_process_request m request s")
  from Cons.prems(1) have "P (ProcessRequest (inst_id m) request)" by (simp add: P)
  with one have fr: "appends P s s1" by (rule call_process_request_on)
  show ?case
  proof (cases r1)
    case (Inl e)
    with one Cons.prems fr show ?thesis by simp
  next
    case (Inr v)
    with one Cons.prems have "process_request_loop xs request s1 = (r, s')" by simp
    moreover from Cons.prems(1) have "set xs \<subseteq> set ms" by simp
    ultimately have "appends P s1 s'" by (rule Cons.IH [rotated])
    with fr show ?thesis by (rule appends_trans)
  qed
qed

lemma middleware_process_request_on:
  assumes "middleware_process_request request s = (r, s')" and "middlewares s = Some ms"
    and "\<And>m. m \<in> set ms \<Longrightarrow> P (ProcessRequest (inst_id m) request)"
  shows "appends P s s'"
proof -
  from assms(1,2) have "process_request_loop ms request s = (r, s')"
    by (simp add: middleware_process_request_Some)
  with process_request_loop_on [of ms P request ms s r s'] assms(3) show ?thesis by simp
qed

lemma call_process_response_on:
  assumes "call_process_response m request response s = (r, s')"
    and "P (ProcessResponse (inst_id m) request response)"
  shows "appends P s s'"
proof (cases "lookup_process_response (inst_class m)")
  case None
  with assms show ?thesis by (simp add: call_process_response_def)
next
  case (Some f)
  from assms show ?thesis unfolding call_process_response_Some [OF Some]
    by (auto simp: appends_def)
qed

lemma middleware_process_response_on:
  assumes "middleware_process_response request response s = (r, s')"
    and "middlewares s = Some ms"
    and "\<And>m. m \<in> set ms \<Longrightarrow> P (ProcessResponse (inst_id m) request response)"
  shows "appends P s s'"
proof (cases "ms = []")
  case True
  with assms(1,2) show ?thesis by (simp add: middleware_process_response_falsy)
next
  case False
  with assms(1,2) have c: "call_process_response (last ms) request response s = (r, s')"
    by (simp add: middleware_process_response_last)
  from False have "last ms \<in> set ms" by simp
  then have "P (ProcessResponse (inst_id (last ms)) request response)" by (rule assms(3))
  with c show ?thesis by (rule call_process_response_on)
qed

lemma finalize_response_on:
  assumes run: "finalize_response env request response s = (r, s')"
    and ms: "middlewares s = Some ms"
    and P: "\<And>x. P (SuperFinalize request x)"
      "\<And>m x. m \<in> set ms \<Longrightarrow> P (ProcessResponse (inst_id m) request x)"
  shows "appends P s s'"
proof -
  let ?s1 = "s\<lparr>trace := trace s @ [SuperFinalize request response],
               world := snd (super_finalize_response env request response (world s))\<rparr>"
  have ap: "appends P s ?s1" using P(1) by (simp add: appends_def)
  have ms1: "middlewares ?s1 = Some ms" using ms by simp
  obtain r1 w1 where sup: "super_finalize_response env request response (world s) = (r1, w1)"
    by (cases "super_finalize_response env request response (world s)")
  show ?thesis
  proof (cases r1)
    case (Inl e)
    with sup run finalize_response_super_raises [of env request response s e w1] ap
    show ?thesis by auto
  next
    case (Inr response')
    with sup run finalize_response_super_returns [of env request response s response' w1]
    have m: "middleware_process_response request response' ?s1 = (r, s')" by simp
    from m ms1 have "appends P ?s1 s'"
      by (rule middleware_process_response_on) (rule P(2))
    with ap show ?thesis by (rule appends_trans)
  qed
qed

lemma handle_exception_then_finalize_on:
  assumes run: "(case call (handle_exception env e) s1 of
                   (Inl e', s2) \<Rightarrow> (Inl e', s2)
                 | (Inr response, s2) \<Rightarrow> finalize_response env request response s2) = (r, s')"
    and ms: "middlewares s1 = Some ms"
    and P: "\<And>x. P (SuperFinalize request x)"
      "\<And>m x. m \<in> set ms \<Longrightarrow> P (ProcessResponse (inst_id m) request x)"
  shows "appends P s1 s'"
proof -
  obtain r2 s2 where h: "call (handle_exception env e) s1 = (r2, s2)"
    by (cases "call (handle_exception env e) s1")
  have ap: "appends P s1 s2" using h by (rule appends_call)
  from same_registry_call [OF h] ms have ms2: "middlewares s2 = Some ms"
    by (simp add: same_registry_def)
  show ?thesis
  proof (cases r2)
    case (Inl e')
    with h run ap show ?thesis by simp
  next
    case (Inr response)
    with h run have f: "finalize_response env request response s2 = (r, s')" by simp
    from f ms2 have "appends P s2 s'" by (rule finalize_response_on) (rule P)+
    with ap show ?thesis by (rule appends_trans)
  qed
qed

lemma initial_after_init_on:
  assumes init: "initialize_middlewares env s = (Inr u, s1)"
    and run: "initial env request s = (r, s')"
    and ms: "middlewares s1 = Some ms"
    and P: "P (SuperInitial request)" "\<And>m. m \<in> set ms \<Longrightarrow> P (ProcessRequest (inst_id m) request)"
  shows "appends P s1 s'"
proof -
  let ?s2 = "s1\<lparr>trace := trace s1 @ [SuperInitial request],
                 world := snd (super_initial env request (world s1))\<rparr>"
  have ap: "appends P s1 ?s2" using P(1) by (simp add: appends_def)
  have ms2: "middlewares ?s2 = Some ms" using ms by simp
  obtain r2 w2 where sup: "super_initial env request (world s1) = (r2, w2)"
    by (cases "super_initial env request (world s1)")
  show ?thesis
  proof (cases r2)
    case (Inl e)
    with sup run initial_super_raises [OF init, of request e w2] ap show ?thesis by auto
  next
    case (Inr u')
    with sup run initial_super_returns [OF init, of request u' w2]
    have m: "middleware_process_request request ?s2 = (r, s')" by simp
    from m ms2 have "appends P ?s2 s'" by (rule middleware_process_request_on) (rule P(2))
    with ap show ?thesis by (rule appends_trans)
  qed
qed

lemma dispatch_after_initial_on:
  assumes ini: "initial env request s = (r1, s1)"
    and run: "dispatch env request s = (r, s')"
    and ms: "middlewares s1 = Some ms"
    and P: "P (Handler request)" "\<And>x. P (SuperFinalize request x)"
      "\<And>m x. m \<in> set ms \<Longrightarrow> P (ProcessResponse (inst_id m) request x)"
  shows "appends P s1 s'"
proof (cases r1)
  case (Inl e)
  with ini have "initial env request s = (Inl e, s1)" by simp
  from run [unfolded dispatch_initial_raises [OF this]]
  have "(case call (handle_exception env e) s1 of
           (Inl e', s2) \<Rightarrow> (Inl e', s2)
         | (Inr response, s2) \<Rightarrow> finalize_response env request response s2) = (r, s')" .
  from this ms show ?thesis by (rule handle_exception_then_finalize_on) (rule P)+
next
  case (Inr u)
  with ini have "initial env request s = (Inr u, s1)" by simp
  note d = run [unfolded dispatch_initial_returns [OF this]]
  obtain rh s2 where h: "call (handler env request) (emit (Handler request) s1) = (rh, s2)"
    by (cases "call (handler env request) (emit (Handler request) s1)")
  from same_registry_call [OF h] ms have ms2: "middlewares s2 = Some ms"
    by (simp add: same_registry_def)
  have ap: "appends P s1 s2" using h P(1) by (auto intro: appends_emit_call)
  show ?thesis
  proof (cases rh)
    case (Inl exc)
    with d h have "(case call (handle_exception env exc) s2 of
              (Inl e', s3) \<Rightarrow> (Inl e', s3)
            | (Inr response, s3) \<Rightarrow> finalize_response env request response s3) = (r, s')"
      by simp
    from this ms2 have "appends P s2 s'"
      by (rule handle_exception_then_finalize_on) (rule P)+
    with ap show ?thesis by (rule appends_trans)
  next
    case (Inr response)
    with d h have f: "finalize_response env request response s2 = (r, s')" by simp
    from f ms2 have "appends P s2 s'" by (rule finalize_response_on) (rule P)+
    with ap show ?thesis by (rule appends_trans)
  qed
qed

subsection \<open>Counting instantiations\<close>

lemma instantiations_append [simp]:
  "instantiations c (xs @ ys) = instantiations c xs + instantiations c ys"
  by (simp add: instantiations_def)

lemma instantiations_Nil [simp]: "instantiations c [] = 0"
  by (simp add: instantiations_def)

lemma instantiations_Import [simp]: "instantiations c (map Import names) = 0"
  by (induction names) (simp_all add: instantiations_def)

lemma instantiations_Instantiate_event:
  "instantiations c (map Instantiate_event ms) =
     length (filter (\<lambda>k. qualname k = c) (map inst_class ms))"
  by (induction ms) (simp_all add: instantiations_def Instantiate_event_def)

lemma instantiations_other:
  "list_all (\<lambda>ev. \<not> is_registry_event ev) evs \<Longrightarrow> instantiations c evs = 0"
proof (induction evs)
  case Nil
  then show ?case by (simp add: instantiations_def)
next
  case (Cons ev evs)
  then show ?case by (cases ev) (simp_all add: instantiations_def)
qed

lemma filter_is_Import_Import [simp]: "filter is_Import (map Import names) = map Import names"
  by (induction names) simp_all

lemma filter_is_Import_Instantiate_event [simp]:
  "filter is_Import (map Instantiate_event ms) = []"
  by (induction ms) (simp_all add: Instantiate_event_def)

lemma filter_is_Import_other:
  "list_all (\<lambda>ev. \<not> is_registry_event ev) evs \<Longrightarrow> filter is_Import evs = []"
proof (induction evs)
  case Nil
  then show ?case by simp
next
  case (Cons ev evs)
  then show ?case by (cases ev) simp_all
qed

lemma map_Some_eq: "map Some xs = map Some ys \<Longrightarrow> xs = ys"
  by (simp add: inj_map_eq_map)

lemma dispatch_instantiates_each_class:
  assumes names: "DRF_MIDDLEWARE_CLASSES env = Some names"
    and imp: "map (import_string env) names = map Some classes"
    and reg: "MIDDLEWARE_CLASSES s = None \<or> MIDDLEWARE_CLASSES s = Some classes"
    and inst: "\<forall>c\<in>set classes. instantiable c"
    and run: "dispatch env request s = (r, s')"
  shows "\<exists>ms rest. middlewares s' = Some ms \<and> map inst_class ms = classes \<and>
           map inst_id ms = [next_id s ..< next_id s + length classes] \<and>
           MIDDLEWARE_CLASSES s' = Some classes \<and>
           trace s' = trace s @ (if MIDDLEWARE_CLASSES s = None then map Import names else []) @
             map Instantiate_event ms @ rest \<and>
           list_all (\<lambda>ev. \<not> is_registry_event ev) rest \<and>
           list_all (hook_on (map inst_id ms)) rest"
proof -
  have ok: "registry_ok env s"
    using reg names imp by (auto simp: registry_ok_def)
  have "\<exists>sg. get_MIDDLEWARE_CLASSES env s = (Inr classes, sg)"
    using reg
  proof
    assume "MIDDLEWARE_CLASSES s = None"
    from get_MIDDLEWARE_CLASSES_first [OF this names imp] show ?thesis by blast
  next
    assume "MIDDLEWARE_CLASSES s = Some classes"
    from get_MIDDLEWARE_CLASSES_cached [OF this] show ?thesis by blast
  qed
  then obtain sg where get: "get_MIDDLEWARE_CLASSES env s = (Inr classes, sg)" ..
  from instantiate_loop_instantiable [OF inst, of "[]" sg] obtain ms0 s2 where
    "instantiate_loop classes [] sg = (Inr ms0, s2)" by blast
  with get have "\<exists>s1. initialize_middlewares env s = (Inr (), s1)"
    by (simp add: initialize_middlewares_def)
  then obtain s1 where init: "initialize_middlewares env s = (Inr (), s1)" ..
  from initialize_middlewares_Inr [OF init ok names] obtain ms where ms:
    "middlewares s1 = Some ms" "map (Some \<circ> inst_class) ms = map (import_string env) names"
    "map inst_id ms = [next_id s ..< next_id s + length names]"
    "MIDDLEWARE_CLASSES s1 = Some (map inst_class ms)"
    "trace s1 = trace s @ (if MIDDLEWARE_CLASSES s = None then map Import names else []) @
       map Instantiate_event ms"
    by blast
  from ms(2) imp have "map Some (map inst_class ms) = map Some classes" by simp
  then have cls: "map inst_class ms = classes" by (rule map_Some_eq)
  from imp have len: "length names = length classes" by (metis length_map)
  obtain r1 si where ini: "initial env request s = (r1, si)"
    by (cases "initial env request s")
  let ?P = "\<lambda>ev. \<not> is_registry_event ev \<and> hook_on (map inst_id ms) ev"
  have sr1: "same_registry s1 si" using init ini by (rule initial_after_init(1))
  then have msi: "middlewares si = Some ms" using ms(1) by (simp add: same_registry_def)
  have ap1: "appends ?P s1 si" by (rule initial_after_init_on [OF init ini ms(1)]) simp_all
  have sr2: "same_registry si s'" using ini run by (rule dispatch_after_initial(1))
  have ap2: "appends ?P si s'" by (rule dispatch_after_initial_on [OF ini run msi]) simp_all
  from same_registry_trans [OF sr1 sr2] have sr: "same_registry s1 s'" .
  from appends_trans [OF ap1 ap2] obtain rest where rest0:
    "trace s' = trace s1 @ rest" "list_all ?P rest"
    by (auto simp: appends_def)
  then have rest: "trace s' = trace s1 @ rest" "list_all (\<lambda>ev. \<not> is_registry_event ev) rest"
    "list_all (hook_on (map inst_id ms)) rest"
    by (simp_all add: list_all_iff)
  have f1: "middlewares s' = Some ms" using sr ms(1) by (simp add: same_registry_def)
  have f3: "map inst_id ms = [next_id s ..< next_id s + length classes]"
    using ms(3) len by simp
  have f4: "MIDDLEWARE_CLASSES s' = Some classes"
    using sr ms(4) cls by (simp add: same_registry_def)
  have f5: "trace s' = trace s @ (if MIDDLEWARE_CLASSES s = None then map Import names else []) @
      map Instantiate_event ms @ rest"
    using rest(1) ms(5) by simp
  show ?thesis
    by (rule exI [of _ ms], rule exI [of _ rest]) (intro conjI f1 cls f3 f4 f5 rest(2) rest(3))
qed

lemma hook_on_Import [simp]: "list_all (hook_on ids) (map Import names)"
  by (induction names) simp_all

lemma hook_on_Instantiate_event [simp]: "list_all (hook_on ids) (map Instantiate_event ms)"
  by (induction ms) (simp_all add: Instantiate_event_def)

lemma dispatch_all_counts:
  assumes names: "DRF_MIDDLEWARE_CLASSES env = Some names"
    and imp: "map (import_string env) names = map Some classes"
    and inst: "\<forall>c\<in>set classes. instantiable c"
  shows "MIDDLEWARE_CLASSES s = None \<or> MIDDLEWARE_CLASSES s = Some classes \<Longrightarrow>
     \<exists>evs. trace (dispatch_all env requests s) = trace s @ evs \<and>
       instantiations c evs = length requests * length (filter (\<lambda>k. qualname k = c) classes) \<and>
       filter is_Import evs =
         (if MIDDLEWARE_CLASSES s = None \<and> requests \<noteq> [] then map Import names else [])"
proof (induction requests arbitrary: s)
  case Nil
  then show ?case by (simp add: instantiations_def)
next
  case (Cons request requests)
  obtain r s' where run: "dispatch env request s = (r, s')"
    by (cases "dispatch env request s")
  from dispatch_instantiates_each_class [OF names imp Cons.prems inst run]
  obtain ms rest where one: "map inst_class ms = classes"
    "MIDDLEWARE_CLASSES s' = Some classes"
    "trace s' = trace s @ (if MIDDLEWARE_CLASSES s = None then map Import names else []) @
       map Instantiate_event ms @ rest"
    "list_all (\<lambda>ev. \<not> is_registry_event ev) rest"
    by blast
  from one(2) have "MIDDLEWARE_CLASSES s' = None \<or> MIDDLEWARE_CLASSES s' = Some classes" by simp
  from Cons.IH [OF this] one(2) obtain evs where evs:
    "trace (dispatch_all env requests s') = trace s' @ evs"
    "instantiations c evs = length requests * length (filter (\<lambda>k. qualname k = c) classes)"
    "filter is_Import evs = []"
    by auto
  let ?new = "(if MIDDLEWARE_CLASSES s = None then map Import names else []) @
    map Instantiate_event ms @ rest @ evs"
  have t: "trace (dispatch_all env (request # requests) s) = trace s @ ?new"
    using run evs(1) one(3) by simp
  have n: "instantiations c ?new =
      length (request # requests) * length (filter (\<lambda>k. qualname k = c) classes)"
    using evs(2) one(1) instantiations_other [OF one(4), of c]
    by (simp add: instantiations_Instantiate_event)
  have i: "filter is_Import ?new =
      (if MIDDLEWARE_CLASSES s = None \<and> request # requests \<noteq> [] then map Import names else [])"
    using evs(3) filter_is_Import_other [OF one(4)] by simp
  show ?case
    by (rule exI [of _ ?new]) (intro conjI t n i)
qed

subsection \<open>Running the example configuration\<close>

text \<open>The equations that evaluate a run on concrete input.\<close>

lemmas run_defs =
  example_env_def denying_env_def example_start_def example_ready_def example_import_def
  LogPre_def AddHeaderPost_def Rejecting_def Incomplete_def Child_def Bare_def
  initial_def finalize_response_def initialize_middlewares_def get_MIDDLEWARE_CLASSES_def
  load_middleware_classes_def instantiate_def abstractmethods_def
  middleware_process_request_def middleware_process_response_def
  call_process_request_def call_process_response_def lookup_process_request_def
  lookup_process_response_def getattr_process_request_def getattr_process_response_def
  slice_last_def call_def emit_def dispatch_def

text \<open>Two requests through the example configuration, dispatched by one view.\<close>

lemma example_first_dispatch:
  "dispatch (example_env [''LogPre'', ''AddHeaderPost'']) 7 example_start =
     (Inr [''Allow'', ''X-Processed''],
      \<lparr>world = [''initial'', ''LogPre'', ''handler''],
       MIDDLEWARE_CLASSES = Some [LogPre, AddHeaderPost],
       middlewares = Some [\<lparr>inst_id = 0, inst_class = LogPre\<rparr>,
                           \<lparr>inst_id = 1, inst_class = AddHeaderPost\<rparr>],
       next_id = 2,
       trace = [Import ''LogPre'', Import ''AddHeaderPost'', Instantiate ''LogPre'' 0,
                Instantiate ''AddHeaderPost'' 1, SuperInitial 7, ProcessRequest 0 7,
                ProcessRequest 1 7, Handler 7, SuperFinalize 7 [],
                ProcessResponse 1 7 [''Allow'']]\<rparr>)"
proof -
  let ?env = "example_env [''LogPre'', ''AddHeaderPost'']"
  have ini: "initial ?env 7 example_start =
      (Inr (),
       \<lparr>world = [''initial'', ''LogPre''], MIDDLEWARE_CLASSES = Some [LogPre, AddHeaderPost],
        middlewares = Some [\<lparr>inst_id = 0, inst_class = LogPre\<rparr>,
                            \<lparr>inst_id = 1, inst_class = AddHeaderPost\<rparr>],
        next_id = 2,
        trace = [Import ''LogPre'', Import ''AddHeaderPost'', Instantiate ''LogPre'' 0,
                 Instantiate ''AddHeaderPost'' 1, SuperInitial 7, ProcessRequest 0 7,
                 ProcessRequest 1 7]\<rparr>)"
    by (simp add: run_defs)
  show ?thesis
    unfolding dispatch_initial_returns [OF ini]
    by (simp add: example_env_def finalize_response_def middleware_process_response_def
        call_process_response_def lookup_process_response_def getattr_process_response_def
        slice_last_def call_def emit_def
        AddHeaderPost_def)
qed

lemma example_second_dispatch:
  "dispatch (example_env [''LogPre'', ''AddHeaderPost'']) 8
     \<lparr>world = [''initial'', ''LogPre'', ''handler''],
      MIDDLEWARE_CLASSES = Some [LogPre, AddHeaderPost],
      middlewares = Some [\<lparr>inst_id = 0, inst_class = LogPre\<rparr>,
                          \<lparr>inst_id = 1, inst_class = AddHeaderPost\<rparr>],
      next_id = 2,
      trace = [Import ''LogPre'', Import ''AddHeaderPost'', Instantiate ''LogPre'' 0,
               Instantiate ''AddHeaderPost'' 1, SuperInitial 7, ProcessRequest 0 7,
               ProcessRequest 1 7, Handler 7, SuperFinalize 7 [],
               ProcessResponse 1 7 [''Allow'']]\<rparr> =
     (Inr [''Allow'', ''X-Processed''],
      \<lparr>world = [''initial'', ''LogPre'', ''handler'', ''initial'', ''LogPre'', ''handler''],
       MIDDLEWARE_CLASSES = Some [LogPre, AddHeaderPost],
       middlewares = Some [\<lparr>inst_id = 2, inst_class = LogPre\<rparr>,
                           \<lparr>inst_id = 3, inst_class = AddHeaderPost\<rparr>],
       next_id = 4,
       trace = [Import ''LogPre'', Import ''AddHeaderPost'', Instantiate ''LogPre'' 0,
                Instantiate ''AddHeaderPost'' 1, SuperInitial 7, ProcessRequest 0 7,
                ProcessRequest 1 7, Handler 7, SuperFinalize 7 [],
                ProcessResponse 1 7 [''Allow''], Instantiate ''LogPre'' 2,
                Instantiate ''AddHeaderPost'' 3, SuperInitial 8, ProcessRequest 2 8,
                ProcessRequest 3 8, Handler 8, SuperFinalize 8 [],
                ProcessResponse 3 8 [''Allow'']]\<rparr>)"
proof -
  let ?env = "example_env [''LogPre'', ''AddHeaderPost'']"
  let ?s = "\<lparr>world = [''initial'', ''LogPre'', ''handler''],
      MIDDLEWARE_CLASSES = Some [LogPre, AddHeaderPost],
      middlewares = Some [\<lparr>inst_id = 0, inst_class = LogPre\<rparr>,
                          \<lparr>inst_id = 1, inst_class = AddHeaderPost\<rparr>],
      next_id = 2,
      trace = [Import ''LogPre'', Import ''AddHeaderPost'', Instantiate ''LogPre'' 0,
               Instantiate ''AddHeaderPost'' 1, SuperInitial 7, ProcessRequest 0 7,
               ProcessRequest 1 7, Handler 7, SuperFinalize 7 [],
               ProcessResponse 1 7 [''Allow'']]\<rparr> :: (nat, string list, nat, string list) state"
  have ini: "initial ?env 8 ?s =
      (Inr (),
       \<lparr>world = [''initial'', ''LogPre'', ''handler'', ''initial'', ''LogPre''],
        MIDDLEWARE_CLASSES = Some [LogPre, AddHeaderPost],
        middlewares = Some [\<lparr>inst_id = 2, inst_class = LogPre\<rparr>,
                            \<lparr>inst_id = 3, inst_class = AddHeaderPost\<rparr>],
        next_id = 4,
        trace = [Import ''LogPre'', Import ''AddHeaderPost'', Instantiate ''LogPre'' 0,
                 Instantiate ''AddHeaderPost'' 1, SuperInitial 7, ProcessRequest 0 7,
                 ProcessRequest 1 7, Handler 7, SuperFinalize 7 [],
                 ProcessResponse 1 7 [''Allow''], Instantiate ''LogPre'' 2,
                 Instantiate ''AddHeaderPost'' 3, SuperInitial 8, ProcessRequest 2 8,
                 ProcessRequest 3 8]\<rparr>)"
    by (simp add: run_defs)
  show ?thesis
    unfolding dispatch_initial_returns [OF ini]
    by (simp add: example_env_def finalize_response_def middleware_process_response_def
        call_process_response_def lookup_process_response_def getattr_process_response_def
        slice_last_def call_def emit_def
        AddHeaderPost_def)
qed

text \<open>
  \<^verbatim>\<open>class Child(LogPre): pass\<close> defines neither method itself and inherits both: it has
  no abstract method, is instantiated, and its instance runs the pre-hook of
  \<^verbatim>\<open>LogPre\<close>.
\<close>

lemma example_indirect_subclass:
  "abstractmethods Child = [] \<and> instantiable Child \<and>
   \<not> unresolvable (example_env [''Child'']) ''Child'' \<and>
   initial (example_env [''Child'']) 7 example_start =
     (Inr (),
      \<lparr>world = [''initial'', ''LogPre''], MIDDLEWARE_CLASSES = Some [Child],
       middlewares = Some [\<lparr>inst_id = 0, inst_class = Child\<rparr>], next_id = 1,
       trace = [Import ''Child'', Instantiate ''Child'' 0, SuperInitial 7,
                ProcessRequest 0 7]\<rparr>)"
proof -
  have a: "abstractmethods Child = []"
    by (simp add: abstractmethods_def getattr_process_request_def getattr_process_response_def
        Child_def LogPre_def)
  have i: "instantiable Child"
    using a by (simp add: instantiable_def) (simp add: Child_def)
  have u: "\<not> unresolvable (example_env [''Child'']) ''Child''"
    using a by (simp add: unresolvable_def uninstantiable_def example_env_def example_import_def)
      (simp add: Child_def)
  have r: "initial (example_env [''Child'']) 7 example_start =
     (Inr (),
      \<lparr>world = [''initial'', ''LogPre''], MIDDLEWARE_CLASSES = Some [Child],
       middlewares = Some [\<lparr>inst_id = 0, inst_class = Child\<rparr>], next_id = 1,
       trace = [Import ''Child'', Instantiate ''Child'' 0, SuperInitial 7,
                ProcessRequest 0 7]\<rparr>)"
    by (simp add: run_defs)
  from a i u r show ?thesis by simp
qed

subsection \<open>The pre-hook loop against the phase as the specification words it\<close>

lemma process_request_loop_refines:
  "process_request_loop ms request s =
     (case pre_hooks_in_order ms request (world s) of
        (r, w', calls) \<Rightarrow> (r, s\<lparr>trace := trace s @ calls, world := w'\<rparr>))"
proof (induction ms arbitrary: s)
  case Nil
  then show ?case by simp
next
  case (Cons m ms)
  show ?case
  proof (cases "lookup_process_request (inst_class m)")
    case None
    then show ?thesis by (simp add: call_process_request_def)
  next
    case (Some f)
    obtain r1 w1 where f: "f (inst_id m) request (world s) = (r1, w1)"
      by (cases "f (inst_id m) request (world s)")
    show ?thesis
    proof (cases r1)
      case (Inl e)
      with Some f show ?thesis by (simp add: call_process_request_Some)
    next
      case (Inr v)
      let ?s1 = "s\<lparr>trace := trace s @ [ProcessRequest (inst_id m) request], world := w1\<rparr>"
      from Some f Inr have "process_request_loop (m # ms) request s =
          process_request_loop ms request ?s1"
        by (simp add: call_process_request_Some)
      also have "\<dots> = (case pre_hooks_in_order ms request w1 of
          (r, w', calls) \<Rightarrow> (r, ?s1\<lparr>trace := trace ?s1 @ calls, world := w'\<rparr>))"
        using Cons.IH [of ?s1] by simp
      finally show ?thesis using Some f Inr by (simp add: split_beta)
    qed
  qed
qed

lemma pre_hooks_in_order_calls:
  "snd (snd (pre_hooks_in_order ms request w)) =
     map (\<lambda>m. ProcessRequest (inst_id m) request)
       (take (length (snd (snd (pre_hooks_in_order ms request w)))) ms)"
proof (induction ms arbitrary: w)
  case Nil
  then show ?case by simp
next
  case (Cons m ms)
  show ?case
  proof (cases "lookup_process_request (inst_class m)")
    case None
    then show ?thesis by simp
  next
    case (Some f)
    obtain r1 w1 where f: "f (inst_id m) request w = (r1, w1)"
      by (cases "f (inst_id m) request w")
    show ?thesis
    proof (cases r1)
      case (Inl e)
      with Some f show ?thesis by simp
    next
      case (Inr v)
      with Some f Cons.IH [of w1] show ?thesis by (simp add: split_beta)
    qed
  qed
qed

lemma pre_hooks_in_order_all:
  "fst (pre_hooks_in_order ms request w) = Inr u \<Longrightarrow>
     snd (snd (pre_hooks_in_order ms request w)) = map (\<lambda>m. ProcessRequest (inst_id m) request) ms"
proof (induction ms arbitrary: w)
  case Nil
  then show ?case by simp
next
  case (Cons m ms)
  show ?case
  proof (cases "lookup_process_request (inst_class m)")
    case None
    with Cons.prems show ?thesis by simp
  next
    case (Some f)
    obtain r1 w1 where f: "f (inst_id m) request w = (r1, w1)"
      by (cases "f (inst_id m) request w")
    show ?thesis
    proof (cases r1)
      case (Inl e)
      with Some f Cons.prems show ?thesis by simp
    next
      case (Inr v)
      with Some f Cons.prems have "fst (pre_hooks_in_order ms request w1) = Inr u"
        by (simp add: split_beta)
      from Cons.IH [OF this] Some f Inr show ?thesis by (simp add: split_beta)
    qed
  qed
qed

subsection \<open>Abstract classes\<close>

lemma mro_lookup_omitted:
  "list_all (\<lambda>b. case attr b of None \<Rightarrow> True | Some m \<Rightarrow> isabstractmethod m) bs \<Longrightarrow>
     (case mro_lookup attr bs of None \<Rightarrow> True | Some m \<Rightarrow> isabstractmethod m)"
  by (induction bs) (auto split: option.splits)

lemma omits_abstractmethods:
  assumes "inherits_DRFMiddleware cls"
    and "omits process_request_def cls \<or> omits process_response_def cls"
  shows "abstractmethods cls \<noteq> []"
  using assms(2)
proof
  assume "omits process_request_def cls"
  then have "case mro_lookup process_request_def (mro cls) of
      None \<Rightarrow> True | Some m \<Rightarrow> isabstractmethod m"
    unfolding omits_def by (rule mro_lookup_omitted)
  with assms(1) show ?thesis
    by (simp add: abstractmethods_def getattr_process_request_def split: option.splits)
next
  assume "omits process_response_def cls"
  then have "case mro_lookup process_response_def (mro cls) of
      None \<Rightarrow> True | Some m \<Rightarrow> isabstractmethod m"
    unfolding omits_def by (rule mro_lookup_omitted)
  with assms(1) show ?thesis
    by (simp add: abstractmethods_def getattr_process_response_def split: option.splits)
qed

lemma mro_lookup_found:
  "mro_lookup attr bs = Some m \<Longrightarrow> \<exists>b\<in>set bs. attr b = Some m"
  by (induction bs) (auto split: option.splits)

lemma concrete_abstractmethods:
  assumes "inherits_DRFMiddleware cls" and "abstractmethods cls = []"
  shows "\<exists>f g. getattr_process_request cls = Some (Concrete f) \<and>
           getattr_process_response cls = Some (Concrete g) \<and>
           (\<exists>b\<in>set (mro cls). process_request_def b = Some (Concrete f)) \<and>
           (\<exists>b\<in>set (mro cls). process_response_def b = Some (Concrete g))"
proof -
  from assms obtain m1 where m1: "getattr_process_request cls = Some m1" "\<not> isabstractmethod m1"
    by (auto simp: abstractmethods_def getattr_process_request_def
        split: option.splits if_splits)
  from assms obtain m2 where m2: "getattr_process_response cls = Some m2" "\<not> isabstractmethod m2"
    by (auto simp: abstractmethods_def getattr_process_response_def
        split: option.splits if_splits)
  from m1(2) obtain f where f: "m1 = Concrete f" by (cases m1) simp_all
  from m2(2) obtain g where g: "m2 = Concrete g" by (cases m2) simp_all
  from m1(1) f assms(1) have "mro_lookup process_request_def (mro cls) = Some (Concrete f)"
    by (simp add: getattr_process_request_def split: option.splits)
  from mro_lookup_found [OF this]
  have b1: "\<exists>b\<in>set (mro cls). process_request_def b = Some (Concrete f)" .
  from m2(1) g assms(1) have "mro_lookup process_response_def (mro cls) = Some (Concrete g)"
    by (simp add: getattr_process_response_def split: option.splits)
  from mro_lookup_found [OF this]
  have b2: "\<exists>b\<in>set (mro cls). process_response_def b = Some (Concrete g)" .
  from m1(1) m2(1) f g b1 b2 show ?thesis by blast
qed

section \<open>The claims\<close>

text \<open>
  Claim C9. While \<^verbatim>\<open>self.__middlewares\<close> is still \<^verbatim>\<open>None\<close>, as \<^verbatim>\<open>__init__\<close>
  leaves it, \<^verbatim>\<open>middleware_process_request\<close> and \<^verbatim>\<open>middleware_process_response\<close>
  return without raising and without changing anything, and the second returns the
  response it was given.
\<close>

theorem uninitialized_list_hooks_are_noops:
  assumes "middlewares s = None"
  shows "middleware_process_request request s = (Inr (), s) \<and>
         middleware_process_response request response s = (Inr response, s)"
  using assms by (simp add: middleware_process_request_None middleware_process_response_falsy)

theorem uninitialized_list_hooks_are_noops_witness:
  "middlewares (init_view example_ready) = None \<and>
   middleware_process_request 1 (init_view example_ready) = (Inr (), init_view example_ready) \<and>
   middleware_process_response 1 [''Allow''] (init_view example_ready) =
     (Inr [''Allow''], init_view example_ready)"
  using uninitialized_list_hooks_are_noops [of "init_view example_ready" 1 "[''Allow'']"]
  by (simp add: init_view_def)

text \<open>
  Claim C5. With an empty \<^verbatim>\<open>DRF_MIDDLEWARE_CLASSES\<close>, \<^verbatim>\<open>initial\<close> does what
  \<^verbatim>\<open>super().initial\<close> does and nothing else to the world, \<^verbatim>\<open>finalize_response\<close>
  returns what \<^verbatim>\<open>super().finalize_response\<close> returns, and the log of each gets the one
  framework call and no hook call.
\<close>

theorem empty_configuration_is_noop:
  assumes "DRF_MIDDLEWARE_CLASSES env = Some []"
    and "MIDDLEWARE_CLASSES s = None \<or> MIDDLEWARE_CLASSES s = Some []"
    and "middlewares t = Some []"
  shows "initial env request s =
           (fst (super_initial env request (world s)),
            s\<lparr>MIDDLEWARE_CLASSES := Some [], middlewares := Some [],
              trace := trace s @ [SuperInitial request],
              world := snd (super_initial env request (world s))\<rparr>) \<and>
         finalize_response env request response t =
           (fst (super_finalize_response env request response (world t)),
            t\<lparr>trace := trace t @ [SuperFinalize request response],
              world := snd (super_finalize_response env request response (world t))\<rparr>)"
proof
  have get: "get_MIDDLEWARE_CLASSES env s = (Inr [], s\<lparr>MIDDLEWARE_CLASSES := Some []\<rparr>)"
    using assms(1,2)
    by (auto simp: get_MIDDLEWARE_CLASSES_def load_middleware_classes_def)
  then have init: "initialize_middlewares env s =
      (Inr (), s\<lparr>MIDDLEWARE_CLASSES := Some [], middlewares := Some []\<rparr>)"
    by (simp add: initialize_middlewares_def)
  obtain r2 w2 where sup: "super_initial env request (world s) = (r2, w2)"
    by (cases "super_initial env request (world s)")
  show "initial env request s =
           (fst (super_initial env request (world s)),
            s\<lparr>MIDDLEWARE_CLASSES := Some [], middlewares := Some [],
              trace := trace s @ [SuperInitial request],
              world := snd (super_initial env request (world s))\<rparr>)"
  proof (cases r2)
    case (Inl e)
    with sup initial_super_raises [OF init, of request e w2] show ?thesis by simp
  next
    case (Inr u)
    with sup initial_super_returns [OF init, of request u w2] show ?thesis
      by (simp add: middleware_process_request_def)
  qed
  obtain r1 w1 where fin: "super_finalize_response env request response (world t) = (r1, w1)"
    by (cases "super_finalize_response env request response (world t)")
  show "finalize_response env request response t =
           (fst (super_finalize_response env request response (world t)),
            t\<lparr>trace := trace t @ [SuperFinalize request response],
              world := snd (super_finalize_response env request response (world t))\<rparr>)"
  proof (cases r1)
    case (Inl e)
    with fin finalize_response_super_raises [of env request response t e w1] show ?thesis
      by simp
  next
    case (Inr response')
    with fin finalize_response_super_returns [of env request response t response' w1] assms(3)
    show ?thesis by (simp add: middleware_process_response_def)
  qed
qed

theorem empty_configuration_is_noop_witness:
  "initial (example_env []) 7 example_start =
     (Inr (), \<lparr>world = [''initial''], MIDDLEWARE_CLASSES = Some [], middlewares = Some [],
               next_id = 0, trace = [SuperInitial 7]\<rparr>) \<and>
   finalize_response (example_env []) 7 [''ok'']
       \<lparr>world = [''initial''], MIDDLEWARE_CLASSES = Some [], middlewares = Some [],
        next_id = 0, trace = [SuperInitial 7]\<rparr> =
     (Inr [''ok'', ''Allow''],
      \<lparr>world = [''initial''], MIDDLEWARE_CLASSES = Some [], middlewares = Some [],
       next_id = 0, trace = [SuperInitial 7, SuperFinalize 7 [''ok'']]\<rparr>)"
  using empty_configuration_is_noop [of "example_env []" example_start
      "\<lparr>world = [''initial''], MIDDLEWARE_CLASSES = Some [], middlewares = Some [],
        next_id = 0, trace = [SuperInitial 7]\<rparr>" 7 "[''ok'']"]
  by (simp add: example_env_def example_start_def)



text \<open>
  Claim C10. After \<^verbatim>\<open>initialize_middlewares\<close>, \<^verbatim>\<open>initial\<close> calls
  \<^verbatim>\<open>super().initial\<close> first: when that raises, \<^verbatim>\<open>initial\<close> ends with this exception
  in the state the raise left, so no pre-hook has run; when it returns, the pre-hooks
  run in the state it left. Likewise \<^verbatim>\<open>finalize_response\<close> calls
  \<^verbatim>\<open>super().finalize_response\<close> first: when that raises no post-hook runs, and when
  it returns, \<^verbatim>\<open>middleware_process_response\<close> is applied to the response it returned.
\<close>

theorem hooks_follow_framework_steps:
  assumes "initialize_middlewares env s = (Inr u, s1)"
  shows "(super_initial env request (world s1) = (Inl e, w2) \<longrightarrow>
            initial env request s =
              (Inl e, s1\<lparr>trace := trace s1 @ [SuperInitial request], world := w2\<rparr>)) \<and>
         (super_initial env request (world s1) = (Inr u', w3) \<longrightarrow>
            initial env request s =
              middleware_process_request request
                (s1\<lparr>trace := trace s1 @ [SuperInitial request], world := w3\<rparr>)) \<and>
         (super_finalize_response env request response (world t) = (Inl e', w4) \<longrightarrow>
            finalize_response env request response t =
              (Inl e', t\<lparr>trace := trace t @ [SuperFinalize request response], world := w4\<rparr>)) \<and>
         (super_finalize_response env request response (world t) = (Inr finalized, w5) \<longrightarrow>
            finalize_response env request response t =
              middleware_process_response request finalized
                (t\<lparr>trace := trace t @ [SuperFinalize request response], world := w5\<rparr>))"
proof (intro conjI impI)
  assume "super_initial env request (world s1) = (Inl e, w2)"
  with assms show "initial env request s =
      (Inl e, s1\<lparr>trace := trace s1 @ [SuperInitial request], world := w2\<rparr>)"
    by (rule initial_super_raises)
next
  assume "super_initial env request (world s1) = (Inr u', w3)"
  with assms show "initial env request s =
      middleware_process_request request
        (s1\<lparr>trace := trace s1 @ [SuperInitial request], world := w3\<rparr>)"
    by (rule initial_super_returns)
next
  assume "super_finalize_response env request response (world t) = (Inl e', w4)"
  then show "finalize_response env request response t =
      (Inl e', t\<lparr>trace := trace t @ [SuperFinalize request response], world := w4\<rparr>)"
    by (rule finalize_response_super_raises)
next
  assume "super_finalize_response env request response (world t) = (Inr finalized, w5)"
  then show "finalize_response env request response t =
      middleware_process_response request finalized
        (t\<lparr>trace := trace t @ [SuperFinalize request response], world := w5\<rparr>)"
    by (rule finalize_response_super_returns)
qed

theorem hooks_follow_framework_steps_witness:
  "initial (denying_env [''LogPre'', ''AddHeaderPost'']) 7 example_start =
     (Inl (Raised 401),
      \<lparr>world = [''denied''], MIDDLEWARE_CLASSES = Some [LogPre, AddHeaderPost],
       middlewares = Some [\<lparr>inst_id = 0, inst_class = LogPre\<rparr>,
                           \<lparr>inst_id = 1, inst_class = AddHeaderPost\<rparr>],
       next_id = 2,
       trace = [Import ''LogPre'', Import ''AddHeaderPost'', Instantiate ''LogPre'' 0,
                Instantiate ''AddHeaderPost'' 1, SuperInitial 7]\<rparr>) \<and>
   trace (snd (initial (example_env [''LogPre'', ''AddHeaderPost'']) 7 example_start)) =
     [Import ''LogPre'', Import ''AddHeaderPost'', Instantiate ''LogPre'' 0,
      Instantiate ''AddHeaderPost'' 1, SuperInitial 7, ProcessRequest 0 7, ProcessRequest 1 7] \<and>
   finalize_response (denying_env [''LogPre'', ''AddHeaderPost'']) 7 [''ok''] example_ready =
     (Inl (Raised 500),
      example_ready\<lparr>trace := [SuperFinalize 7 [''ok'']], world := [''broken'']\<rparr>) \<and>
   trace (snd (finalize_response (example_env [''LogPre'', ''AddHeaderPost'']) 7 [''ok'']
       example_ready)) =
     [SuperFinalize 7 [''ok''], ProcessResponse 1 7 [''ok'', ''Allow'']]"
proof -
  let ?s1 = "\<lparr>world = [], MIDDLEWARE_CLASSES = Some [LogPre, AddHeaderPost],
       middlewares = Some [\<lparr>inst_id = 0, inst_class = LogPre\<rparr>,
                           \<lparr>inst_id = 1, inst_class = AddHeaderPost\<rparr>],
       next_id = 2,
       trace = [Import ''LogPre'', Import ''AddHeaderPost'', Instantiate ''LogPre'' 0,
                Instantiate ''AddHeaderPost'' 1]\<rparr> :: (nat, string list, nat, string list) state"
  have i1: "initialize_middlewares (denying_env [''LogPre'', ''AddHeaderPost'']) example_start =
      (Inr (), ?s1)"
    by (simp add: run_defs)
  have i2: "initialize_middlewares (example_env [''LogPre'', ''AddHeaderPost'']) example_start =
      (Inr (), ?s1)"
    by (simp add: run_defs)
  note a = hooks_follow_framework_steps [OF i1, of 7 "Raised 401" "[''denied'']" "()" "[]"
      "[''ok'']" example_ready "Raised 500" "[''broken'']" "[]" "[]"]
  note b = hooks_follow_framework_steps [OF i2, of 7 "Raised 0" "[]" "()" "[''initial'']"
      "[''ok'']" example_ready "Raised 0" "[]" "[''ok'', ''Allow'']" "[]"]
  from a have "initial (denying_env [''LogPre'', ''AddHeaderPost'']) 7 example_start =
     (Inl (Raised 401), ?s1\<lparr>trace := trace ?s1 @ [SuperInitial 7], world := [''denied'']\<rparr>)"
    by (simp add: denying_env_def example_env_def)
  moreover from b have
    "initial (example_env [''LogPre'', ''AddHeaderPost'']) 7 example_start =
       middleware_process_request 7
         (?s1\<lparr>trace := trace ?s1 @ [SuperInitial 7], world := [''initial'']\<rparr>)"
    by (simp add: example_env_def)
  moreover from a have
    "finalize_response (denying_env [''LogPre'', ''AddHeaderPost'']) 7 [''ok''] example_ready =
       (Inl (Raised 500),
        example_ready\<lparr>trace := trace example_ready @ [SuperFinalize 7 [''ok'']],
                      world := [''broken'']\<rparr>)"
    by (simp add: denying_env_def example_env_def example_ready_def)
  moreover from b have
    "finalize_response (example_env [''LogPre'', ''AddHeaderPost'']) 7 [''ok''] example_ready =
       middleware_process_response 7 [''ok'', ''Allow'']
         (example_ready\<lparr>trace := trace example_ready @ [SuperFinalize 7 [''ok'']],
                        world := []\<rparr>)"
    by (simp add: example_env_def example_ready_def)
  ultimately show ?thesis
    by (simp add: example_ready_def middleware_process_request_def
        middleware_process_response_def call_process_request_def call_process_response_def
        lookup_process_request_def lookup_process_response_def getattr_process_request_def
        getattr_process_response_def slice_last_def call_def emit_def
        LogPre_def AddHeaderPost_def)
qed

text \<open>
  Claim C3, as stated, fails: the pre-hooks are not invoked on every request. When
  \<^verbatim>\<open>super().initial\<close> raises, \<^verbatim>\<open>initial\<close> ends there: with two configured
  middlewares the log has no \<^verbatim>\<open>process_request\<close> call and the world lacks the entry
  that the pre-hook of \<^verbatim>\<open>LogPre\<close> writes.
\<close>

theorem pre_hooks_on_every_request_counterexample:
  "fst (initial (denying_env [''LogPre'', ''AddHeaderPost'']) 7 example_start) =
     Inl (Raised 401) \<and>
   trace (snd (initial (denying_env [''LogPre'', ''AddHeaderPost'']) 7 example_start)) =
     [Import ''LogPre'', Import ''AddHeaderPost'', Instantiate ''LogPre'' 0,
      Instantiate ''AddHeaderPost'' 1, SuperInitial 7] \<and>
   world (snd (initial (denying_env [''LogPre'', ''AddHeaderPost'']) 7 example_start)) =
     [''denied'']"
  by (simp add: run_defs)

text \<open>
  Claim C3, amended. When \<^verbatim>\<open>initialize_middlewares\<close> returns, the view holds one new
  instance per configured identifier, of the class the identifier imports to and in the
  order of the identifiers. \<^verbatim>\<open>initial\<close> then calls \<^verbatim>\<open>super().initial\<close>; when that
  raises, no pre-hook is called; when it returns, the rest of \<^verbatim>\<open>initial\<close> is the
  pre-hook phase as the specification words it: \<^verbatim>\<open>process_request\<close> is called on the
  instances in list order, each with the dispatched request and on the world the call
  before it left, up to and including the first call that raises. The calls made are
  always a prefix of the list, and all of it, each instance exactly once, when no call
  raises.
\<close>

theorem pre_hooks_run_in_declared_order:
  assumes "DRF_MIDDLEWARE_CLASSES env = Some names" and "registry_ok env s"
    and "initialize_middlewares env s = (Inr u, s1)"
  shows "\<exists>ms. middlewares s1 = Some ms \<and>
           map (Some \<circ> inst_class) ms = map (import_string env) names \<and>
           map inst_id ms = [next_id s ..< next_id s + length names] \<and>
           initial env request s =
             (case super_initial env request (world s1) of
                (Inl e, w2) \<Rightarrow>
                  (Inl e, s1\<lparr>trace := trace s1 @ [SuperInitial request], world := w2\<rparr>)
              | (Inr _, w2) \<Rightarrow>
                  (case pre_hooks_in_order ms request w2 of
                     (r, w', calls) \<Rightarrow>
                       (r, s1\<lparr>trace := trace s1 @ SuperInitial request # calls,
                               world := w'\<rparr>))) \<and>
           (\<forall>w. snd (snd (pre_hooks_in_order ms request w)) =
              map (\<lambda>m. ProcessRequest (inst_id m) request)
                (take (length (snd (snd (pre_hooks_in_order ms request w)))) ms)) \<and>
           (\<forall>w. fst (pre_hooks_in_order ms request w) = Inr () \<longrightarrow>
              snd (snd (pre_hooks_in_order ms request w)) =
                map (\<lambda>m. ProcessRequest (inst_id m) request) ms)"
proof -
  from initialize_middlewares_Inr [OF assms(3,2,1)] obtain ms where ms:
    "middlewares s1 = Some ms" "map (Some \<circ> inst_class) ms = map (import_string env) names"
    "map inst_id ms = [next_id s ..< next_id s + length names]"
    by blast
  obtain r2 w2 where sup: "super_initial env request (world s1) = (r2, w2)"
    by (cases "super_initial env request (world s1)")
  have f4: "initial env request s =
      (case super_initial env request (world s1) of
         (Inl e, w2) \<Rightarrow>
           (Inl e, s1\<lparr>trace := trace s1 @ [SuperInitial request], world := w2\<rparr>)
       | (Inr _, w2) \<Rightarrow>
           (case pre_hooks_in_order ms request w2 of
              (r, w', calls) \<Rightarrow>
                (r, s1\<lparr>trace := trace s1 @ SuperInitial request # calls, world := w'\<rparr>)))"
  proof (cases r2)
    case (Inl e)
    with sup initial_super_raises [OF assms(3), of request e w2] show ?thesis by simp
  next
    case (Inr u')
    let ?s2 = "s1\<lparr>trace := trace s1 @ [SuperInitial request], world := w2\<rparr>"
    have "middlewares ?s2 = Some ms" using ms(1) by simp
    then have "middleware_process_request request ?s2 = process_request_loop ms request ?s2"
      by (rule middleware_process_request_Some)
    with Inr sup initial_super_returns [OF assms(3), of request u' w2] show ?thesis
      by (simp add: process_request_loop_refines split_beta)
  qed
  have f5: "\<forall>w. snd (snd (pre_hooks_in_order ms request w)) =
      map (\<lambda>m. ProcessRequest (inst_id m) request)
        (take (length (snd (snd (pre_hooks_in_order ms request w)))) ms)"
    by (rule allI) (rule pre_hooks_in_order_calls)
  have f6: "\<forall>w. fst (pre_hooks_in_order ms request w) = Inr () \<longrightarrow>
      snd (snd (pre_hooks_in_order ms request w)) =
        map (\<lambda>m. ProcessRequest (inst_id m) request) ms"
    by (intro allI impI) (rule pre_hooks_in_order_all)
  show ?thesis
    by (rule exI [of _ ms]) (intro conjI ms(1) ms(2) ms(3) f4 f5 f6)
qed

theorem pre_hooks_run_in_declared_order_witness:
  "initial (example_env [''LogPre'', ''AddHeaderPost'']) 7 example_start =
     (Inr (),
      \<lparr>world = [''initial'', ''LogPre''], MIDDLEWARE_CLASSES = Some [LogPre, AddHeaderPost],
       middlewares = Some [\<lparr>inst_id = 0, inst_class = LogPre\<rparr>,
                           \<lparr>inst_id = 1, inst_class = AddHeaderPost\<rparr>],
       next_id = 2,
       trace = [Import ''LogPre'', Import ''AddHeaderPost'', Instantiate ''LogPre'' 0,
                Instantiate ''AddHeaderPost'' 1, SuperInitial 7, ProcessRequest 0 7,
                ProcessRequest 1 7]\<rparr>)"
proof -
  let ?env = "example_env [''LogPre'', ''AddHeaderPost'']"
  let ?ms = "[\<lparr>inst_id = 0, inst_class = LogPre\<rparr>, \<lparr>inst_id = 1, inst_class = AddHeaderPost\<rparr>]"
  let ?s1 = "\<lparr>world = [], MIDDLEWARE_CLASSES = Some [LogPre, AddHeaderPost],
       middlewares = Some ?ms, next_id = 2,
       trace = [Import ''LogPre'', Import ''AddHeaderPost'', Instantiate ''LogPre'' 0,
                Instantiate ''AddHeaderPost'' 1]\<rparr> :: (nat, string list, nat, string list) state"
  have ok: "registry_ok ?env example_start"
    by (simp add: registry_ok_def example_start_def)
  have names: "DRF_MIDDLEWARE_CLASSES ?env = Some [''LogPre'', ''AddHeaderPost'']"
    by (simp add: example_env_def)
  have init: "initialize_middlewares ?env example_start = (Inr (), ?s1)"
    by (simp add: run_defs)
  from pre_hooks_run_in_declared_order [OF names ok init, of 7] obtain ms where
    ms: "middlewares ?s1 = Some ms" and
    run: "initial ?env 7 example_start =
      (case super_initial ?env 7 (world ?s1) of
         (Inl e, w2) \<Rightarrow> (Inl e, ?s1\<lparr>trace := trace ?s1 @ [SuperInitial 7], world := w2\<rparr>)
       | (Inr _, w2) \<Rightarrow>
           (case pre_hooks_in_order ms 7 w2 of
              (r, w', calls) \<Rightarrow>
                (r, ?s1\<lparr>trace := trace ?s1 @ SuperInitial 7 # calls, world := w'\<rparr>)))"
    by blast
  from ms have "ms = ?ms" by simp
  with run show ?thesis
    by (simp add: example_env_def lookup_process_request_def getattr_process_request_def
        LogPre_def AddHeaderPost_def)
qed

text \<open>
  Claim C4. When the pre-hooks before position \<open>i\<close> have returned and
  \<^verbatim>\<open>process_request\<close> of the instance at position \<open>i\<close> raises \<open>e\<close>, then
  \<^verbatim>\<open>initial\<close> ends with \<open>e\<close> in the state that raise left: the pre-hooks logged are
  those of positions \<open>0..i\<close>, none after \<open>i\<close>. In \<^verbatim>\<open>dispatch\<close> the exception goes
  to \<^verbatim>\<open>handle_exception\<close> and the handler is not called.
\<close>

theorem failing_pre_hook_aborts_chain:
  assumes "initialize_middlewares env s = (Inr u, s1)"
    and "super_initial env request (world s1) = (Inr u', w2)"
    and "middlewares s1 = Some ms" and "i < length ms"
    and "process_request_loop (take i ms) request
           (s1\<lparr>trace := trace s1 @ [SuperInitial request], world := w2\<rparr>) = (Inr u'', si)"
    and "lookup_process_request (inst_class (ms ! i)) = Some f"
    and "f (inst_id (ms ! i)) request (world si) = (Inl e, w3)"
  shows "initial env request s =
           (Inl e, si\<lparr>trace := trace si @ [ProcessRequest (inst_id (ms ! i)) request],
                      world := w3\<rparr>) \<and>
         trace si @ [ProcessRequest (inst_id (ms ! i)) request] =
           trace s1 @ [SuperInitial request] @
           map (\<lambda>m. ProcessRequest (inst_id m) request) (take (Suc i) ms) \<and>
         dispatch env request s =
           (case call (handle_exception env e)
                   (si\<lparr>trace := trace si @ [ProcessRequest (inst_id (ms ! i)) request],
                       world := w3\<rparr>) of
              (Inl e', s2) \<Rightarrow> (Inl e', s2)
            | (Inr response, s2) \<Rightarrow> finalize_response env request response s2) \<and>
         trace (snd (dispatch env request s)) =
           trace s @ new_events s (snd (dispatch env request s)) \<and>
         \<not> list_ex is_Handler (new_events s (snd (dispatch env request s)))"
proof -
  let ?s2 = "s1\<lparr>trace := trace s1 @ [SuperInitial request], world := w2\<rparr>"
  let ?s3 = "si\<lparr>trace := trace si @ [ProcessRequest (inst_id (ms ! i)) request], world := w3\<rparr>"
  have hook: "call_process_request (ms ! i) request si = (Inl e, ?s3)"
    using assms(7) by (simp add: call_process_request_Some [OF assms(6)])
  have "middlewares ?s2 = Some ms" using assms(3) by simp
  then have "middleware_process_request request ?s2 = process_request_loop ms request ?s2"
    by (rule middleware_process_request_Some)
  also have "\<dots> = (Inl e, ?s3)"
    using assms(4,5) hook by (rule process_request_loop_abort)
  finally have ini: "initial env request s = (Inl e, ?s3)"
    by (simp add: initial_super_returns [OF assms(1,2)])
  have tr: "trace si @ [ProcessRequest (inst_id (ms ! i)) request] =
      trace s1 @ [SuperInitial request] @
      map (\<lambda>m. ProcessRequest (inst_id m) request) (take (Suc i) ms)"
    using process_request_loop_Inr [OF assms(5)] assms(4) by (simp add: take_Suc_conv_app_nth)
  note disp = dispatch_initial_raises [OF ini]
  obtain r s' where run: "dispatch env request s = (r, s')"
    by (cases "dispatch env request s")
  have a1: "appends (\<lambda>ev. \<not> is_Handler ev) s ?s3"
    by (rule initial_appends [OF ini]) (auto elim: is_registry_event.elims)
  from run [unfolded disp] have a2: "appends (\<lambda>ev. \<not> is_Handler ev) ?s3 s'"
    by (rule handle_exception_then_finalize(2)) simp_all
  from appends_new_events [OF appends_trans [OF a1 a2]] run
  have "trace (snd (dispatch env request s)) =
      trace s @ new_events s (snd (dispatch env request s))"
    and "\<not> list_ex is_Handler (new_events s (snd (dispatch env request s)))"
    by (simp_all add: list_all_iff list_ex_iff)
  with ini tr disp show ?thesis by simp
qed

theorem failing_pre_hook_aborts_chain_witness:
  "initial (example_env [''LogPre'', ''Rejecting'', ''AddHeaderPost'']) 7 example_start =
     (Inl (Raised 403),
      \<lparr>world = [''initial'', ''LogPre'', ''Rejecting''],
       MIDDLEWARE_CLASSES = Some [LogPre, Rejecting, AddHeaderPost],
       middlewares = Some [\<lparr>inst_id = 0, inst_class = LogPre\<rparr>,
                           \<lparr>inst_id = 1, inst_class = Rejecting\<rparr>,
                           \<lparr>inst_id = 2, inst_class = AddHeaderPost\<rparr>],
       next_id = 3,
       trace = [Import ''LogPre'', Import ''Rejecting'', Import ''AddHeaderPost'',
                Instantiate ''LogPre'' 0, Instantiate ''Rejecting'' 1,
                Instantiate ''AddHeaderPost'' 2, SuperInitial 7, ProcessRequest 0 7,
                ProcessRequest 1 7]\<rparr>) \<and>
   fst (dispatch (example_env [''LogPre'', ''Rejecting'', ''AddHeaderPost'']) 7 example_start) =
     Inl (Raised 403) \<and>
   \<not> list_ex is_Handler
       (new_events example_start
          (snd (dispatch (example_env [''LogPre'', ''Rejecting'', ''AddHeaderPost'']) 7
             example_start)))"
proof -
  let ?env = "example_env [''LogPre'', ''Rejecting'', ''AddHeaderPost'']"
  let ?ms = "[\<lparr>inst_id = 0, inst_class = LogPre\<rparr>, \<lparr>inst_id = 1, inst_class = Rejecting\<rparr>,
              \<lparr>inst_id = 2, inst_class = AddHeaderPost\<rparr>]"
  let ?s1 = "\<lparr>world = [], MIDDLEWARE_CLASSES = Some [LogPre, Rejecting, AddHeaderPost],
       middlewares = Some ?ms, next_id = 3,
       trace = [Import ''LogPre'', Import ''Rejecting'', Import ''AddHeaderPost'',
                Instantiate ''LogPre'' 0, Instantiate ''Rejecting'' 1,
                Instantiate ''AddHeaderPost'' 2]\<rparr> :: (nat, string list, nat, string list) state"
  let ?si = "?s1\<lparr>trace := trace ?s1 @ [SuperInitial 7, ProcessRequest 0 7],
                 world := [''initial'', ''LogPre'']\<rparr>"
  have h1: "initialize_middlewares ?env example_start = (Inr (), ?s1)"
    by (simp add: run_defs)
  have h2: "super_initial ?env 7 (world ?s1) = (Inr (), [''initial''])"
    by (simp add: example_env_def)
  have h3: "middlewares ?s1 = Some ?ms" by simp
  have h4: "1 < length ?ms" by simp
  have h5: "process_request_loop (take 1 ?ms) 7
      (?s1\<lparr>trace := trace ?s1 @ [SuperInitial 7], world := [''initial'']\<rparr>) = (Inr (), ?si)"
    by (simp add: call_process_request_def lookup_process_request_def getattr_process_request_def
        LogPre_def call_def
        emit_def)
  have h6: "lookup_process_request (inst_class (?ms ! 1)) =
      Some (\<lambda>self request w. (Inl (Raised 403), w @ [''Rejecting'']))"
    by (simp add: lookup_process_request_def getattr_process_request_def Rejecting_def)
  have h7: "(\<lambda>self request w. (Inl (Raised 403), w @ [''Rejecting''])) (inst_id (?ms ! 1)) 7
      (world ?si) = (Inl (Raised 403), [''initial'', ''LogPre'', ''Rejecting''])"
    by simp
  note chain = failing_pre_hook_aborts_chain
    [where env = ?env and s = example_start and ?s1.0 = ?s1 and request = 7
       and ?w2.0 = "[''initial'']" and ms = ?ms and i = 1 and si = ?si
       and f = "\<lambda>self request w. (Inl (Raised 403), w @ [''Rejecting''])"
       and e = "Raised 403" and ?w3.0 = "[''initial'', ''LogPre'', ''Rejecting'']",
     OF h1 h2 h3 h4 h5 h6 h7]
  from chain [THEN conjunct1] have c1: "initial ?env 7 example_start =
      (Inl (Raised 403),
       ?si\<lparr>trace := trace ?si @ [ProcessRequest 1 7],
            world := [''initial'', ''LogPre'', ''Rejecting'']\<rparr>)"
    by simp
  from chain [THEN conjunct2, THEN conjunct2, THEN conjunct1]
  have "dispatch ?env 7 example_start =
      (case call (handle_exception ?env (Raised 403))
              (?si\<lparr>trace := trace ?si @ [ProcessRequest 1 7],
                   world := [''initial'', ''LogPre'', ''Rejecting'']\<rparr>) of
         (Inl e', s2) \<Rightarrow> (Inl e', s2)
       | (Inr response, s2) \<Rightarrow> finalize_response ?env 7 response s2)"
    by simp
  then have c2: "fst (dispatch ?env 7 example_start) = Inl (Raised 403)"
    by (simp add: example_env_def call_def)
  have c3: "\<not> list_ex is_Handler
      (new_events example_start (snd (dispatch ?env 7 example_start)))"
    by (rule chain [THEN conjunct2, THEN conjunct2, THEN conjunct2, THEN conjunct2])
  from c1 have c1': "initial ?env 7 example_start =
     (Inl (Raised 403),
      \<lparr>world = [''initial'', ''LogPre'', ''Rejecting''],
       MIDDLEWARE_CLASSES = Some [LogPre, Rejecting, AddHeaderPost],
       middlewares = Some [\<lparr>inst_id = 0, inst_class = LogPre\<rparr>,
                           \<lparr>inst_id = 1, inst_class = Rejecting\<rparr>,
                           \<lparr>inst_id = 2, inst_class = AddHeaderPost\<rparr>],
       next_id = 3,
       trace = [Import ''LogPre'', Import ''Rejecting'', Import ''AddHeaderPost'',
                Instantiate ''LogPre'' 0, Instantiate ''Rejecting'' 1,
                Instantiate ''AddHeaderPost'' 2, SuperInitial 7, ProcessRequest 0 7,
                ProcessRequest 1 7]\<rparr>)"
    by simp
  show ?thesis by (intro conjI c1' c2 c3)
qed

text \<open>
  Claim C6. When some configured identifier cannot be imported, or imports to a class
  that cannot be instantiated, \<^verbatim>\<open>initial\<close> raises out of \<^verbatim>\<open>initialize_middlewares\<close>:
  the log got import and instantiation events only, so neither \<^verbatim>\<open>super().initial\<close>
  nor any hook was reached, and the instance list of the view is as before. When an
  identifier cannot be imported, the exception is the \<^verbatim>\<open>ImportError\<close> of such an
  identifier, raised by the access to the lazy \<^verbatim>\<open>MIDDLEWARE_CLASSES\<close>, which stays
  not set up.
\<close>

theorem unresolvable_identifier_fails_in_initial:
  assumes "DRF_MIDDLEWARE_CLASSES env = Some names" and "registry_ok env s"
    and "\<exists>n\<in>set names. unresolvable env n"
  shows "\<exists>e s'. initial env request s = (Inl e, s') \<and> middlewares s' = middlewares s \<and>
           trace s' = trace s @ new_events s s' \<and>
           list_all is_registry_event (new_events s s') \<and>
           ((\<exists>n\<in>set names. import_string env n = None) \<longrightarrow>
              (\<exists>n\<in>set names. import_string env n = None \<and> e = ImportError n) \<and>
              MIDDLEWARE_CLASSES s' = None \<and> world s' = world s)"
proof -
  have fail: "\<exists>e s'. initialize_middlewares env s = (Inl e, s') \<and>
      ((\<exists>n\<in>set names. import_string env n = None) \<longrightarrow>
         (\<exists>n\<in>set names. import_string env n = None \<and> e = ImportError n) \<and>
         MIDDLEWARE_CLASSES s' = None \<and> world s' = world s)"
    using get_MIDDLEWARE_CLASSES_cases [OF assms(2,1)]
  proof
    assume "\<exists>classes. map (import_string env) names = map Some classes \<and>
      get_MIDDLEWARE_CLASSES env s =
        (Inr classes,
         s\<lparr>MIDDLEWARE_CLASSES := Some classes,
           trace := trace s @ (if MIDDLEWARE_CLASSES s = None then map Import names else [])\<rparr>)"
    then obtain classes s1 where cl: "map (import_string env) names = map Some classes"
      and get: "get_MIDDLEWARE_CLASSES env s = (Inr classes, s1)" by blast
    have imp: "import_string env n = Some (classes ! k)" if "k < length names" "n = names ! k"
      for n k
    proof -
      from that have "import_string env n = map (import_string env) names ! k" by simp
      also from cl that have "\<dots> = Some (classes ! k)"
        by (metis length_map nth_map)
      finally show ?thesis .
    qed
    have len: "length classes = length names" using cl by (metis length_map)
    have none: "\<not> (\<exists>n\<in>set names. import_string env n = None)"
    proof
      assume "\<exists>n\<in>set names. import_string env n = None"
      then obtain k where "k < length names" "import_string env (names ! k) = None"
        by (auto simp: in_set_conv_nth)
      with imp [of k "names ! k"] show False by simp
    qed
    from assms(3) obtain k where k: "k < length names" "unresolvable env (names ! k)"
      by (auto simp: in_set_conv_nth)
    with imp [of k "names ! k"] have "uninstantiable (classes ! k)"
      by (simp add: unresolvable_def)
    with k(1) len have "\<exists>c\<in>set classes.
        abstractmethods c \<noteq> [] \<or> (\<forall>self w. fst (init_def c self w) \<noteq> Inr ())"
      unfolding uninstantiable_def by (metis nth_mem)
    from instantiate_loop_never [OF this, of "[]" s1] obtain e s2 where
      "instantiate_loop classes [] s1 = (Inl e, s2)" by blast
    with get have "initialize_middlewares env s = (Inl e, s2)"
      by (simp add: initialize_middlewares_def)
    with none show ?thesis by blast
  next
    assume "\<exists>good n rest new. names = good @ n # rest \<and> import_string env n = None \<and>
      map (import_string env) good = map Some new \<and> MIDDLEWARE_CLASSES s = None \<and>
      get_MIDDLEWARE_CLASSES env s =
        (Inl (ImportError n), s\<lparr>trace := trace s @ map Import (good @ [n])\<rparr>)"
    then obtain good n rest where bad: "names = good @ n # rest" "import_string env n = None"
      "MIDDLEWARE_CLASSES s = None"
      "get_MIDDLEWARE_CLASSES env s =
         (Inl (ImportError n), s\<lparr>trace := trace s @ map Import (good @ [n])\<rparr>)"
      by blast
    let ?s' = "s\<lparr>trace := trace s @ map Import (good @ [n])\<rparr>"
    from bad(4) have "initialize_middlewares env s = (Inl (ImportError n), ?s')"
      by (simp add: initialize_middlewares_def)
    moreover have "n \<in> set names" using bad(1) by simp
    moreover have "MIDDLEWARE_CLASSES ?s' = None" "world ?s' = world s" using bad(3) by simp_all
    ultimately show ?thesis using bad(2) by blast
  qed
  then obtain e s' where init: "initialize_middlewares env s = (Inl e, s')"
    and imp: "(\<exists>n\<in>set names. import_string env n = None) \<longrightarrow>
       (\<exists>n\<in>set names. import_string env n = None \<and> e = ImportError n) \<and>
       MIDDLEWARE_CLASSES s' = None \<and> world s' = world s"
    by blast
  have f1: "initial env request s = (Inl e, s')" using init by (rule initial_init_raises)
  have f2: "middlewares s' = middlewares s" using init by (rule initialize_middlewares_Inl)
  from appends_new_events [OF initialize_middlewares_appends [OF init]]
  have f3: "trace s' = trace s @ new_events s s'"
    and f4: "list_all is_registry_event (new_events s s')" by simp_all
  show ?thesis
    by (rule exI [of _ e], rule exI [of _ s']) (intro conjI f1 f2 f3 f4 imp)
qed

theorem unresolvable_identifier_fails_in_initial_witness:
  "(\<exists>n\<in>set [''LogPre'', ''Nope'']. unresolvable (example_env [''LogPre'', ''Nope'']) n) \<and>
   (\<exists>e s'. initial (example_env [''LogPre'', ''Nope'']) 7 example_start = (Inl e, s') \<and>
      middlewares s' = middlewares example_start \<and>
      trace s' = trace example_start @ new_events example_start s' \<and>
      list_all is_registry_event (new_events example_start s') \<and>
      e = ImportError ''Nope'' \<and> MIDDLEWARE_CLASSES s' = None \<and>
      world s' = world example_start) \<and>
   (\<exists>n\<in>set [''LogPre'', ''Incomplete'']. unresolvable (example_env [''LogPre'', ''Incomplete'']) n) \<and>
   (\<exists>e s'. initial (example_env [''LogPre'', ''Incomplete'']) 7 example_start = (Inl e, s') \<and>
      middlewares s' = middlewares example_start \<and>
      trace s' = trace example_start @ new_events example_start s' \<and>
      list_all is_registry_event (new_events example_start s'))"
proof -
  have ok: "registry_ok env example_start" for env :: "(nat, string list, nat, string list) env"
    by (simp add: registry_ok_def example_start_def)
  have n1: "DRF_MIDDLEWARE_CLASSES (example_env [''LogPre'', ''Nope'']) = Some [''LogPre'', ''Nope'']"
    by (simp add: example_env_def)
  have u1: "\<exists>n\<in>set [''LogPre'', ''Nope'']. unresolvable (example_env [''LogPre'', ''Nope'']) n"
    by (simp add: unresolvable_def example_env_def example_import_def)
  have n2: "DRF_MIDDLEWARE_CLASSES (example_env [''LogPre'', ''Incomplete'']) =
      Some [''LogPre'', ''Incomplete'']"
    by (simp add: example_env_def)
  have u2: "\<exists>n\<in>set [''LogPre'', ''Incomplete''].
      unresolvable (example_env [''LogPre'', ''Incomplete'']) n"
    by (simp add: unresolvable_def uninstantiable_def abstractmethods_def
        getattr_process_request_def getattr_process_response_def example_env_def
        example_import_def Incomplete_def)
  have bad: "\<exists>n\<in>set [''LogPre'', ''Nope''].
      import_string (example_env [''LogPre'', ''Nope'']) n = None"
    by (simp add: example_env_def example_import_def)
  have only: "n = ''Nope''"
    if "n \<in> set [''LogPre'', ''Nope'']"
      "import_string (example_env [''LogPre'', ''Nope'']) n = None" for n
    using that by (auto simp: example_env_def example_import_def)
  from unresolvable_identifier_fails_in_initial [OF n1 ok u1, of 7] bad only
  have "\<exists>e s'. initial (example_env [''LogPre'', ''Nope'']) 7 example_start = (Inl e, s') \<and>
      middlewares s' = middlewares example_start \<and>
      trace s' = trace example_start @ new_events example_start s' \<and>
      list_all is_registry_event (new_events example_start s') \<and>
      e = ImportError ''Nope'' \<and> MIDDLEWARE_CLASSES s' = None \<and>
      world s' = world example_start"
    by blast
  moreover from unresolvable_identifier_fails_in_initial [OF n2 ok u2, of 7]
  have "\<exists>e s'. initial (example_env [''LogPre'', ''Incomplete'']) 7 example_start = (Inl e, s') \<and>
      middlewares s' = middlewares example_start \<and>
      trace s' = trace example_start @ new_events example_start s' \<and>
      list_all is_registry_event (new_events example_start s')"
    by blast
  ultimately show ?thesis using u1 u2 by blast
qed

text \<open>
  Claim C7, as stated, fails in its conclusion: not every instance of the resolved list
  implements both operations. \<^verbatim>\<open>initialize_middlewares\<close> does not check that a
  configured class derives from \<^verbatim>\<open>DRFMiddleware\<close>: a class outside the hierarchy that
  defines neither method is instantiated and stored, and the failure appears only when
  its pre-hook is looked up.
\<close>

theorem every_instance_implements_both_counterexample:
  "initialize_middlewares (example_env [''Bare'']) example_start =
     (Inr (),
      \<lparr>world = [], MIDDLEWARE_CLASSES = Some [Bare],
       middlewares = Some [\<lparr>inst_id = 0, inst_class = Bare\<rparr>], next_id = 1,
       trace = [Import ''Bare'', Instantiate ''Bare'' 0]\<rparr>) \<and>
   lookup_process_request Bare = None \<and> lookup_process_response Bare = None \<and>
   fst (initial (example_env [''Bare'']) 7 example_start) =
     Inl (AttributeError ''process_request'')"
proof -
  have a: "initialize_middlewares (example_env [''Bare'']) example_start =
     (Inr (),
      \<lparr>world = [], MIDDLEWARE_CLASSES = Some [Bare],
       middlewares = Some [\<lparr>inst_id = 0, inst_class = Bare\<rparr>], next_id = 1,
       trace = [Import ''Bare'', Instantiate ''Bare'' 0]\<rparr>)"
    by (simp add: initialize_middlewares_def get_MIDDLEWARE_CLASSES_def
        load_middleware_classes_def example_env_def example_import_def example_start_def
        instantiate_def abstractmethods_def call_def emit_def) (simp add: Bare_def)
  have b: "lookup_process_request Bare = None"
    by (simp add: lookup_process_request_def getattr_process_request_def Bare_def)
  have c: "lookup_process_response Bare = None"
    by (simp add: lookup_process_response_def getattr_process_response_def Bare_def)
  have d: "fst (initial (example_env [''Bare'']) 7 example_start) =
      Inl (AttributeError ''process_request'')"
    by (simp add: run_defs)
  from a b c d show ?thesis by simp
qed

text \<open>
  Claim C7, amended. A class that derives from \<^verbatim>\<open>DRFMiddleware\<close> and for which
  neither it nor an ancestor gives a concrete \<^verbatim>\<open>process_request\<close>, or a concrete
  \<^verbatim>\<open>process_response\<close>, cannot be instantiated: the call raises \<^verbatim>\<open>TypeError\<close>
  and creates nothing, and \<^verbatim>\<open>initialize_middlewares\<close> over a class list that holds it
  raises and leaves the instance list of the view as it was. Hence, when
  \<^verbatim>\<open>initialize_middlewares\<close> returns, every instance of the list whose class derives
  from \<^verbatim>\<open>DRFMiddleware\<close> resolves both operations to concrete definitions of its
  class or an ancestor. Nothing is ensured for a class outside the hierarchy.
\<close>

theorem incomplete_middleware_is_rejected:
  "(inherits_DRFMiddleware cls \<and>
      (omits process_request_def cls \<or> omits process_response_def cls) \<longrightarrow>
      instantiate cls s = (Inl (TypeError (qualname cls)), s) \<and>
      (MIDDLEWARE_CLASSES t = Some classes \<and> cls \<in> set classes \<longrightarrow>
         (\<exists>e t1. initialize_middlewares env t = (Inl e, t1) \<and>
            middlewares t1 = middlewares t))) \<and>
   (initialize_middlewares env v = (Inr u, v') \<longrightarrow>
      (\<exists>ms. middlewares v' = Some ms \<and>
         (\<forall>m\<in>set ms. inherits_DRFMiddleware (inst_class m) \<longrightarrow>
            (\<exists>f g. getattr_process_request (inst_class m) = Some (Concrete f) \<and>
               getattr_process_response (inst_class m) = Some (Concrete g) \<and>
               lookup_process_request (inst_class m) = Some f \<and>
               lookup_process_response (inst_class m) = Some g \<and>
               (\<exists>b\<in>set (mro (inst_class m)). process_request_def b = Some (Concrete f)) \<and>
               (\<exists>b\<in>set (mro (inst_class m)). process_response_def b = Some (Concrete g))))))"
proof (intro conjI impI)
  assume inc: "inherits_DRFMiddleware cls \<and>
    (omits process_request_def cls \<or> omits process_response_def cls)"
  then have "abstractmethods cls \<noteq> []"
    using omits_abstractmethods [of cls] by blast
  then show "instantiate cls s = (Inl (TypeError (qualname cls)), s)"
    by (rule instantiate_abstract)
next
  assume inc: "inherits_DRFMiddleware cls \<and>
    (omits process_request_def cls \<or> omits process_response_def cls)"
    and cfg: "MIDDLEWARE_CLASSES t = Some classes \<and> cls \<in> set classes"
  from inc have "abstractmethods cls \<noteq> []"
    using omits_abstractmethods [of cls] by blast
  with cfg have "\<exists>c\<in>set classes.
      abstractmethods c \<noteq> [] \<or> (\<forall>self w. fst (init_def c self w) \<noteq> Inr ())"
    by blast
  from instantiate_loop_never [OF this, of "[]" t] obtain e t1 where
    "instantiate_loop classes [] t = (Inl e, t1)" by blast
  with cfg have init: "initialize_middlewares env t = (Inl e, t1)"
    by (simp add: initialize_middlewares_def get_MIDDLEWARE_CLASSES_def)
  from initialize_middlewares_Inl [OF init] init
  show "\<exists>e t1. initialize_middlewares env t = (Inl e, t1) \<and> middlewares t1 = middlewares t"
    by blast
next
  assume "initialize_middlewares env v = (Inr u, v')"
  from initialize_middlewares_Inr_steps [OF this] obtain cs s1 ms s2 where
    loop: "instantiate_loop cs [] s1 = (Inr ms, s2)" and v': "v' = s2\<lparr>middlewares := Some ms\<rparr>"
    by blast
  from instantiate_loop_Inr [OF loop]
  have "map inst_class ms = cs" "\<forall>c\<in>set cs. abstractmethods c = []" by auto
  then have abs: "\<forall>m\<in>set ms. abstractmethods (inst_class m) = []" by auto
  have all: "\<forall>m\<in>set ms. inherits_DRFMiddleware (inst_class m) \<longrightarrow>
      (\<exists>f g. getattr_process_request (inst_class m) = Some (Concrete f) \<and>
         getattr_process_response (inst_class m) = Some (Concrete g) \<and>
         lookup_process_request (inst_class m) = Some f \<and>
         lookup_process_response (inst_class m) = Some g \<and>
         (\<exists>b\<in>set (mro (inst_class m)). process_request_def b = Some (Concrete f)) \<and>
         (\<exists>b\<in>set (mro (inst_class m)). process_response_def b = Some (Concrete g)))"
  proof (intro ballI impI)
    fix m assume m: "m \<in> set ms" "inherits_DRFMiddleware (inst_class m)"
    with abs have "abstractmethods (inst_class m) = []" by simp
    from concrete_abstractmethods [OF m(2) this] obtain f g where fg:
      "getattr_process_request (inst_class m) = Some (Concrete f)"
      "getattr_process_response (inst_class m) = Some (Concrete g)"
      "\<exists>b\<in>set (mro (inst_class m)). process_request_def b = Some (Concrete f)"
      "\<exists>b\<in>set (mro (inst_class m)). process_response_def b = Some (Concrete g)"
      by blast
    have l1: "lookup_process_request (inst_class m) = Some f"
      using fg(1) by (simp add: lookup_process_request_def)
    have l2: "lookup_process_response (inst_class m) = Some g"
      using fg(2) by (simp add: lookup_process_response_def)
    show "\<exists>f g. getattr_process_request (inst_class m) = Some (Concrete f) \<and>
        getattr_process_response (inst_class m) = Some (Concrete g) \<and>
        lookup_process_request (inst_class m) = Some f \<and>
        lookup_process_response (inst_class m) = Some g \<and>
        (\<exists>b\<in>set (mro (inst_class m)). process_request_def b = Some (Concrete f)) \<and>
        (\<exists>b\<in>set (mro (inst_class m)). process_response_def b = Some (Concrete g))"
      by (rule exI [of _ f], rule exI [of _ g]) (intro conjI fg(1) fg(2) l1 l2 fg(3) fg(4))
  qed
  show "\<exists>ms. middlewares v' = Some ms \<and>
      (\<forall>m\<in>set ms. inherits_DRFMiddleware (inst_class m) \<longrightarrow>
         (\<exists>f g. getattr_process_request (inst_class m) = Some (Concrete f) \<and>
            getattr_process_response (inst_class m) = Some (Concrete g) \<and>
            lookup_process_request (inst_class m) = Some f \<and>
            lookup_process_response (inst_class m) = Some g \<and>
            (\<exists>b\<in>set (mro (inst_class m)). process_request_def b = Some (Concrete f)) \<and>
            (\<exists>b\<in>set (mro (inst_class m)). process_response_def b = Some (Concrete g))))"
    by (rule exI [of _ ms]) (intro conjI all, simp add: v')
qed

theorem incomplete_middleware_is_rejected_witness:
  "inherits_DRFMiddleware Incomplete \<and> omits process_response_def Incomplete \<and>
   instantiate Incomplete example_start = (Inl (TypeError ''Incomplete''), example_start) \<and>
   (\<exists>e t1. initialize_middlewares (example_env [''LogPre'', ''Incomplete''])
              (example_start\<lparr>MIDDLEWARE_CLASSES := Some [LogPre, Incomplete]\<rparr>) = (Inl e, t1) \<and>
      middlewares t1 = None) \<and>
   (\<exists>ms. middlewares (snd (initialize_middlewares (example_env [''Child'']) example_start)) =
          Some ms \<and>
      (\<forall>m\<in>set ms. inherits_DRFMiddleware (inst_class m) \<longrightarrow>
         (\<exists>f g. getattr_process_request (inst_class m) = Some (Concrete f) \<and>
            getattr_process_response (inst_class m) = Some (Concrete g) \<and>
            lookup_process_request (inst_class m) = Some f \<and>
            lookup_process_response (inst_class m) = Some g \<and>
            (\<exists>b\<in>set (mro (inst_class m)). process_request_def b = Some (Concrete f)) \<and>
            (\<exists>b\<in>set (mro (inst_class m)). process_response_def b = Some (Concrete g)))))"
proof -
  let ?t = "example_start\<lparr>MIDDLEWARE_CLASSES := Some [LogPre, Incomplete]\<rparr>"
  let ?env1 = "example_env [''LogPre'', ''Incomplete'']"
  let ?env2 = "example_env [''Child'']"
  have inc: "inherits_DRFMiddleware Incomplete \<and>
      (omits process_request_def Incomplete \<or> omits process_response_def Incomplete)"
    by (simp add: omits_def Incomplete_def)
  have om: "omits process_response_def Incomplete"
    by (simp add: omits_def Incomplete_def)
  have cfg: "MIDDLEWARE_CLASSES ?t = Some [LogPre, Incomplete] \<and>
      Incomplete \<in> set [LogPre, Incomplete]"
    by simp
  have run: "initialize_middlewares ?env2 example_start =
      (Inr (), snd (initialize_middlewares ?env2 example_start))"
    by (simp add: run_defs)
  note T1 = incomplete_middleware_is_rejected
    [where cls = Incomplete and s = example_start and t = ?t
       and classes = "[LogPre, Incomplete]" and env = ?env1, THEN conjunct1, rule_format, OF inc]
  note T2 = incomplete_middleware_is_rejected
    [where env = ?env2 and v = example_start
       and v' = "snd (initialize_middlewares ?env2 example_start)",
     THEN conjunct2, rule_format, OF run]
  have q: "qualname Incomplete = ''Incomplete''" by (simp add: Incomplete_def)
  have a: "instantiate Incomplete example_start = (Inl (TypeError ''Incomplete''), example_start)"
    using T1 [THEN conjunct1] q by simp
  have b: "\<exists>e t1. initialize_middlewares ?env1 ?t = (Inl e, t1) \<and> middlewares t1 = None"
    using T1 [THEN conjunct2, rule_format, OF cfg] by (simp add: example_start_def)
  from inc om a b T2 show ?thesis by blast
qed

text \<open>
  Claim C8. \<^verbatim>\<open>middleware_process_request\<close> drops what each \<^verbatim>\<open>process_request\<close>
  returns. Every call logged during a request carries the request that was dispatched,
  so each pre-hook, the handler and the post-hook get the same object; and when every
  class is replaced by one whose \<^verbatim>\<open>process_request\<close> has the same effects and returns
  some other object \<open>r\<close>, the pre-hook phase and the whole dispatch have the same
  outcome, leave the same world and log the same calls.
\<close>

theorem pre_hook_return_value_is_discarded:
  "middleware_process_request request (returning_state r t) =
     (fst (middleware_process_request request t),
      returning_state r (snd (middleware_process_request request t))) \<and>
   fst (dispatch (returning_env r env) request (returning_state r s)) =
     fst (dispatch env request s) \<and>
   world (snd (dispatch (returning_env r env) request (returning_state r s))) =
     world (snd (dispatch env request s)) \<and>
   trace (snd (dispatch (returning_env r env) request (returning_state r s))) =
     trace (snd (dispatch env request s)) \<and>
   trace (snd (dispatch env request s)) = trace s @ new_events s (snd (dispatch env request s)) \<and>
   list_all (carries request) (new_events s (snd (dispatch env request s)))"
proof -
  obtain res s' where run: "dispatch env request s = (res, s')"
    by (cases "dispatch env request s")
  have "appends (carries request) s s'"
    by (rule dispatch_appends [OF run]) (auto elim: is_registry_event.elims)
  from appends_new_events [OF this] run
  have "trace (snd (dispatch env request s)) = trace s @ new_events s (snd (dispatch env request s))"
    and "list_all (carries request) (new_events s (snd (dispatch env request s)))"
    by simp_all
  then show ?thesis
    by (simp add: dispatch_returning middleware_process_request_returning)
qed

theorem pre_hook_return_value_is_discarded_witness:
  "fst (dispatch (returning_env 99 (example_env [''LogPre'', ''AddHeaderPost''])) 7 example_start) =
     Inr [''Allow'', ''X-Processed''] \<and>
   world (snd (dispatch (returning_env 99 (example_env [''LogPre'', ''AddHeaderPost''])) 7
            example_start)) = [''initial'', ''LogPre'', ''handler''] \<and>
   trace (snd (dispatch (returning_env 99 (example_env [''LogPre'', ''AddHeaderPost''])) 7
            example_start)) =
     [Import ''LogPre'', Import ''AddHeaderPost'', Instantiate ''LogPre'' 0,
      Instantiate ''AddHeaderPost'' 1, SuperInitial 7, ProcessRequest 0 7, ProcessRequest 1 7,
      Handler 7, SuperFinalize 7 [], ProcessResponse 1 7 [''Allow'']]"
proof -
  let ?env = "example_env [''LogPre'', ''AddHeaderPost'']"
  have start: "returning_state 99 example_start = example_start"
    by (simp add: returning_state_def example_start_def)
  from pre_hook_return_value_is_discarded [of 7 99 example_start ?env example_start]
  show ?thesis unfolding start example_first_dispatch by simp
qed

text \<open>
  Claim C1, as stated, fails: \<^verbatim>\<open>initial\<close> calls \<^verbatim>\<open>initialize_middlewares\<close> on every
  request, and that method has no guard on \<^verbatim>\<open>self.__middlewares\<close>. One view instance
  dispatching two requests instantiates \<^verbatim>\<open>LogPre\<close> twice, and the second request
  runs on new instances (identities 2 and 3, not 0 and 1).
\<close>

theorem instantiated_once_overall_counterexample:
  "instantiations ''LogPre''
     (trace (dispatch_all (example_env [''LogPre'', ''AddHeaderPost'']) [7, 8] example_start)) = 2 \<and>
   map_option (map inst_id)
     (middlewares (snd (dispatch (example_env [''LogPre'', ''AddHeaderPost'']) 7 example_start))) =
     Some [0, 1] \<and>
   map_option (map inst_id)
     (middlewares (dispatch_all (example_env [''LogPre'', ''AddHeaderPost'']) [7, 8]
        example_start)) = Some [2, 3]"
proof -
  let ?env = "example_env [''LogPre'', ''AddHeaderPost'']"
  have two: "dispatch_all ?env [7, 8] example_start =
      \<lparr>world = [''initial'', ''LogPre'', ''handler'', ''initial'', ''LogPre'', ''handler''],
       MIDDLEWARE_CLASSES = Some [LogPre, AddHeaderPost],
       middlewares = Some [\<lparr>inst_id = 2, inst_class = LogPre\<rparr>,
                           \<lparr>inst_id = 3, inst_class = AddHeaderPost\<rparr>],
       next_id = 4,
       trace = [Import ''LogPre'', Import ''AddHeaderPost'', Instantiate ''LogPre'' 0,
                Instantiate ''AddHeaderPost'' 1, SuperInitial 7, ProcessRequest 0 7,
                ProcessRequest 1 7, Handler 7, SuperFinalize 7 [],
                ProcessResponse 1 7 [''Allow''], Instantiate ''LogPre'' 2,
                Instantiate ''AddHeaderPost'' 3, SuperInitial 8, ProcessRequest 2 8,
                ProcessRequest 3 8, Handler 8, SuperFinalize 8 [],
                ProcessResponse 3 8 [''Allow'']]\<rparr>"
    by (simp only: dispatch_all.simps example_first_dispatch example_second_dispatch snd_conv)
  show ?thesis
    unfolding two example_first_dispatch by (simp add: instantiations_def)
qed

text \<open>
  Claim C1, amended. When every configured identifier imports to a class that can be
  instantiated: the identifiers are imported on the first access to the lazy
  \<^verbatim>\<open>MIDDLEWARE_CLASSES\<close> and not again, while the instances are made per request.
  A view instance that dispatches \<open>N\<close> requests instantiates each configured class
  \<open>N\<close> times, once per request; after a request the view holds the instances made in
  that request, one per configured class in order, with new identities; and every
  \<^verbatim>\<open>process_request\<close> and \<^verbatim>\<open>process_response\<close> call of the request is on one of
  those instances.
\<close>

theorem instantiated_once_per_request:
  assumes "DRF_MIDDLEWARE_CLASSES env = Some names"
    and "map (import_string env) names = map Some classes"
    and "MIDDLEWARE_CLASSES s = None \<or> MIDDLEWARE_CLASSES s = Some classes"
    and "\<forall>c\<in>set classes. instantiable c"
  shows "instantiations c (new_events s (dispatch_all env requests s)) =
           length requests * length (filter (\<lambda>k. qualname k = c) classes) \<and>
         filter is_Import (new_events s (dispatch_all env requests s)) =
           (if MIDDLEWARE_CLASSES s = None \<and> requests \<noteq> [] then map Import names else []) \<and>
         map_option (map inst_class) (middlewares (snd (dispatch env request s))) =
           Some classes \<and>
         map_option (map inst_id) (middlewares (snd (dispatch env request s))) =
           Some [next_id s ..< next_id s + length classes] \<and>
         trace (snd (dispatch env request s)) =
           trace s @ new_events s (snd (dispatch env request s)) \<and>
         list_all (hook_on [next_id s ..< next_id s + length classes])
           (new_events s (snd (dispatch env request s)))"
proof -
  from dispatch_all_counts [OF assms(1,2,4,3), of requests c] obtain evs where
    evs: "trace (dispatch_all env requests s) = trace s @ evs"
    "instantiations c evs = length requests * length (filter (\<lambda>k. qualname k = c) classes)"
    "filter is_Import evs =
       (if MIDDLEWARE_CLASSES s = None \<and> requests \<noteq> [] then map Import names else [])"
    by blast
  from evs(1) have new: "new_events s (dispatch_all env requests s) = evs"
    by (rule new_events_append)
  obtain r s' where run: "dispatch env request s = (r, s')"
    by (cases "dispatch env request s")
  from dispatch_instantiates_each_class [OF assms(1,2,3,4) run] obtain ms rest where one:
    "middlewares s' = Some ms" "map inst_class ms = classes"
    "map inst_id ms = [next_id s ..< next_id s + length classes]"
    "trace s' = trace s @ (if MIDDLEWARE_CLASSES s = None then map Import names else []) @
       map Instantiate_event ms @ rest"
    "list_all (hook_on (map inst_id ms)) rest"
    by blast
  let ?new = "(if MIDDLEWARE_CLASSES s = None then map Import names else []) @
    map Instantiate_event ms @ rest"
  from one(4) have n1: "new_events s s' = ?new" by (rule new_events_append)
  have n2: "list_all (hook_on (map inst_id ms)) ?new" using one(5) by simp
  have f5: "trace (snd (dispatch env request s)) =
      trace s @ new_events s (snd (dispatch env request s))"
    using run one(4) n1 by simp
  have f6: "list_all (hook_on [next_id s ..< next_id s + length classes])
      (new_events s (snd (dispatch env request s)))"
    using run n1 n2 one(3) by simp
  from run evs(2,3) new one(1,2,3) f5 f6 show ?thesis by simp
qed

theorem instantiated_once_per_request_witness:
  "instantiations ''LogPre''
     (new_events example_start
        (dispatch_all (example_env [''LogPre'', ''AddHeaderPost'']) [7, 8] example_start)) = 2 \<and>
   filter is_Import
     (new_events example_start
        (dispatch_all (example_env [''LogPre'', ''AddHeaderPost'']) [7, 8] example_start)) =
     [Import ''LogPre'', Import ''AddHeaderPost''] \<and>
   map_option (map inst_id)
     (middlewares (snd (dispatch (example_env [''LogPre'', ''AddHeaderPost'']) 7 example_start))) =
     Some [0, 1] \<and>
   list_all (hook_on [0, 1])
     (new_events example_start
        (snd (dispatch (example_env [''LogPre'', ''AddHeaderPost'']) 7 example_start)))"
proof -
  let ?env = "example_env [''LogPre'', ''AddHeaderPost'']"
  have h1: "DRF_MIDDLEWARE_CLASSES ?env = Some [''LogPre'', ''AddHeaderPost'']"
    by (simp add: example_env_def)
  have h2: "map (import_string ?env) [''LogPre'', ''AddHeaderPost''] =
      map Some [LogPre, AddHeaderPost]"
    by (simp add: example_env_def example_import_def)
  have h3: "MIDDLEWARE_CLASSES example_start = None \<or>
      MIDDLEWARE_CLASSES example_start = Some [LogPre, AddHeaderPost]"
    by (simp add: example_start_def)
  have h4: "\<forall>c\<in>set [LogPre, AddHeaderPost]. instantiable c"
    by (simp add: instantiable_def abstractmethods_def getattr_process_request_def
        getattr_process_response_def LogPre_def AddHeaderPost_def)
  have q: "length (filter (\<lambda>k. qualname k = ''LogPre'') [LogPre, AddHeaderPost]) = 1"
    by (simp add: LogPre_def AddHeaderPost_def)
  have ids: "[next_id example_start ..< next_id example_start + length [LogPre, AddHeaderPost]] =
      [0, 1]"
    by (simp add: example_start_def upt_rec)
  note T = instantiated_once_per_request [OF h1 h2 h3 h4, of "''LogPre''" "[7, 8]" 7]
  have a: "instantiations ''LogPre''
      (new_events example_start (dispatch_all ?env [7, 8] example_start)) = 2"
    using T [THEN conjunct1] q by simp
  have b: "filter is_Import (new_events example_start (dispatch_all ?env [7, 8] example_start)) =
      [Import ''LogPre'', Import ''AddHeaderPost'']"
    using T [THEN conjunct2, THEN conjunct1] by (simp add: example_start_def)
  have c: "map_option (map inst_id) (middlewares (snd (dispatch ?env 7 example_start))) =
      Some [0, 1]"
    using T [THEN conjunct2, THEN conjunct2, THEN conjunct2, THEN conjunct1]
    by (simp only: ids)
  have d: "list_all (hook_on [0, 1])
      (new_events example_start (snd (dispatch ?env 7 example_start)))"
    using T [THEN conjunct2, THEN conjunct2, THEN conjunct2, THEN conjunct2, THEN conjunct2]
    by (simp only: ids)
  show ?thesis by (intro conjI a b c d)
qed

end
